(* ===== verification/Prelude.thy ===== *)
theory Prelude
  imports Main "HOL-Library.List_Lexorder" "HOL-Library.Char_ord"
begin

text \<open>
  What every component of the development shares: the names of the C++ types, failures of C++ code
  as values, the sequencing of fallible steps, and small facts on lists and options.

  \<^item> A C++ \<open>int\<close>, \<open>int32_t\<close>, \<open>int64_t\<close> or \<open>time_t\<close> is an \<^typ>\<open>int\<close>. Overflow of a signed integer is
    undefined in C++, so the unbounded value is the value of every defined execution; the ranges are
    written out (\<open>in_int32\<close>, \<open>in_int64\<close>) where the code converts between an integer and bytes or text.
  \<^item> A \<open>std::string\<close> and a buffer of \<open>char\<close> are a \<^typ>\<open>string\<close>: a list of bytes.
  \<^item> A step that may fail returns \<open>cpp_error + 'a\<close>: \<^term>\<open>Inl\<close> when the process stops there (a failed
    assert, an exception, or an access whose behaviour C++ leaves undefined), and \<open>Inl Diverges\<close> when a
    loop of it never ends.
\<close>

type_synonym partition_id_type = int
type_synonym message_id_type = int
type_synonym client_id_type = int

datatype cpp_error =
    AssertFailed
  | OutOfBounds
  | NullPointer
  | RuntimeError
  | LogicError
  | InvalidArgument
  | OutOfRange
  | LengthError
  | BadFunctionCall
  | Diverges

named_theorems handler_defs \<open>definitions of the message handlers\<close>
named_theorems frame \<open>fields an operation leaves alone\<close>
named_theorems keeps_inv \<open>operations that keep an invariant\<close>

definition in_int32 :: "int \<Rightarrow> bool" where
  "in_int32 v \<longleftrightarrow> - (2 ^ 31) \<le> v \<and> v < 2 ^ 31"

definition in_int64 :: "int \<Rightarrow> bool" where
  "in_int64 v \<longleftrightarrow> - (2 ^ 63) \<le> v \<and> v < 2 ^ 63"

section \<open>Sequencing of fallible steps\<close>

fun andThen :: "'e + 'a \<Rightarrow> ('a \<Rightarrow> 'e + 'b) \<Rightarrow> 'e + 'b" where
  "andThen (Inl e) f = Inl e"
| "andThen (Inr x) f = f x"

lemma andThen_Inr [simp]:
  "andThen m f = Inr y \<longleftrightarrow> (\<exists>x. m = Inr x \<and> f x = Inr y)"
  by (cases m) auto

lemma andThen_Inl:
  "andThen m f = Inl e \<longleftrightarrow> m = Inl e \<or> (\<exists>x. m = Inr x \<and> f x = Inl e)"
  by (cases m) auto

lemma andThen_assoc: "andThen (andThen m f) g = andThen m (\<lambda>x. andThen (f x) g)"
  by (cases m) auto

lemma andThen_cong [fundef_cong]:
  "m = m' \<Longrightarrow> (\<And>x. m' = Inr x \<Longrightarrow> f x = f' x) \<Longrightarrow> andThen m f = andThen m' f'"
  by (cases m') auto

text \<open>Running a fallible step over a list, from left to right, until one fails.\<close>

fun forEach :: "('a \<Rightarrow> 's \<Rightarrow> 'e + 's) \<Rightarrow> 'a list \<Rightarrow> 's \<Rightarrow> 'e + 's" where
  "forEach f [] s = Inr s"
| "forEach f (x # xs) s = andThen (f x s) (forEach f xs)"

lemma forEach_append: "forEach f (xs @ ys) s = andThen (forEach f xs s) (forEach f ys)"
proof (induction xs arbitrary: s)
  case (Cons x xs)
  have "forEach f (xs @ ys) = (\<lambda>t. andThen (forEach f xs t) (forEach f ys))"
    by (rule ext) (rule Cons.IH)
  then show ?case by (simp add: andThen_assoc)
qed simp

lemma forEach_keeps:
  assumes "\<And>x s s'. x \<in> set xs \<Longrightarrow> f x s = Inr s' \<Longrightarrow> P s \<Longrightarrow> P s'"
    and "forEach f xs s = Inr s'" and "P s"
  shows "P s'"
  using assms
proof (induction xs arbitrary: s)
  case Nil
  then show ?case by simp
next
  case (Cons x xs)
  from Cons.prems(2) obtain t where t: "f x s = Inr t" "forEach f xs t = Inr s'" by auto
  with Cons.prems have "P t" by (meson list.set_intros(1))
  with Cons t show ?case by (meson list.set_intros(2))
qed

section \<open>Optional values with a default\<close>

fun opt_get :: "'a \<Rightarrow> 'a option \<Rightarrow> 'a" where
  "opt_get d None = d"
| "opt_get d (Some x) = x"

section \<open>Lists\<close>

lemma last_in_take_drop: "k < length xs \<Longrightarrow> last (take (Suc k) xs) = xs ! k"
  by (simp add: take_Suc_conv_app_nth)

lemma nth_append_single [simp]: "(xs @ [x]) ! length xs = x"
  by simp

text \<open>The elements of \<open>xs\<close> at the positions \<open>from, ..., to - 1\<close>.\<close>

definition slice :: "nat \<Rightarrow> nat \<Rightarrow> 'a list \<Rightarrow> 'a list" where
  "slice from to xs = drop from (take to xs)"

lemma length_slice: "to \<le> length xs \<Longrightarrow> length (slice from to xs) = to - from"
  by (simp add: slice_def)

lemma slice_empty [simp]: "to \<le> from \<Longrightarrow> slice from to xs = []"
  by (simp add: slice_def)

lemma slice_rec:
  "from < to \<Longrightarrow> to \<le> length xs \<Longrightarrow> slice from to xs = xs ! from # slice (Suc from) to xs"
  using Cons_nth_drop_Suc [of "from" "take to xs"] by (simp add: slice_def)

lemma slice_single: "i < length xs \<Longrightarrow> slice i (Suc i) xs = [xs ! i]"
  by (simp add: slice_rec)

lemma nth_slice: "to \<le> length xs \<Longrightarrow> i < to - from \<Longrightarrow> slice from to xs ! i = xs ! (from + i)"
  by (simp add: slice_def)

lemma slice_slice: "a \<le> b \<Longrightarrow> b \<le> c \<Longrightarrow> slice a b xs @ slice b c xs = slice a c xs"
proof -
  assume "a \<le> b" and "b \<le> c"
  then have "take c xs = take b xs @ drop b (take c xs)"
    by (metis append_take_drop_id min.absorb1 take_take)
  then have "drop a (take c xs) = drop a (take b xs) @ drop (a - length (take b xs)) (drop b (take c xs))"
    by (metis drop_append)
  moreover have "drop (a - length (take b xs)) (drop b (take c xs)) = drop b (take c xs)"
    using \<open>a \<le> b\<close> by (cases "b \<le> length xs") auto
  ultimately show ?thesis by (simp add: slice_def)
qed

end
