(* ===== verification/Std_Containers.thy ===== *)
theory Std_Containers
  imports Prelude
begin

text \<open>
  The associative containers of the C++ standard library as the sources use them. A \<open>std::map\<close> is the
  list of its (key, value) pairs and a \<open>std::set\<close> the list of its elements, both in the order an
  iterator visits them: ascending keys. \<open>std_map\<close> and \<open>std_set\<close> are the interfaces the components
  rely on (what a lookup returns after an update, that an update keeps the order), interpreted here
  on the lists.
\<close>

type_synonym ('k, 'v) smap = "('k \<times> 'v) list"
type_synonym 'a sset = "'a list"

section \<open>Operations of \<open>std::map\<close>\<close>

definition map_find :: "('k, 'v) smap \<Rightarrow> 'k \<Rightarrow> 'v option" where
  "map_find m k = map_of m k"

definition map_count :: "('k, 'v) smap \<Rightarrow> 'k \<Rightarrow> nat" where
  "map_count m k = (if map_find m k = None then 0 else 1)"

text \<open>\<open>m[k] = v\<close>: overwrite the value of \<open>k\<close>, or insert the pair at its place in the order.\<close>

fun map_set :: "'k::linorder \<Rightarrow> 'v \<Rightarrow> ('k, 'v) smap \<Rightarrow> ('k, 'v) smap" where
  "map_set k v [] = [(k, v)]"
| "map_set k v ((k', v') # m) =
     (if k < k' then (k, v) # (k', v') # m
      else if k = k' then (k, v) # m
      else (k', v') # map_set k v m)"

definition map_erase :: "'k \<Rightarrow> ('k, 'v) smap \<Rightarrow> ('k, 'v) smap" where
  "map_erase k m = filter (\<lambda>p. fst p \<noteq> k) m"

text \<open>Reading \<open>m[k]\<close>: the value, and the map after it (a missing key is inserted with the value-initialised default).\<close>

definition map_index :: "'v \<Rightarrow> 'k::linorder \<Rightarrow> ('k, 'v) smap \<Rightarrow> 'v \<times> ('k, 'v) smap" where
  "map_index d k m = (case map_find m k of Some v \<Rightarrow> (v, m) | None \<Rightarrow> (d, map_set k d m))"

definition map_keys :: "('k, 'v) smap \<Rightarrow> 'k list" where
  "map_keys m = map fst m"

definition map_ok :: "('k::linorder, 'v) smap \<Rightarrow> bool" where
  "map_ok m \<longleftrightarrow> sorted_wrt (<) (map fst m)"

section \<open>Operations of \<open>std::set\<close>\<close>

definition set_insert :: "'a::linorder \<Rightarrow> 'a sset \<Rightarrow> 'a sset" where
  "set_insert x s = insort_insert x s"

definition set_erase :: "'a \<Rightarrow> 'a sset \<Rightarrow> 'a sset" where
  "set_erase x s = filter (\<lambda>y. y \<noteq> x) s"

definition set_ok :: "'a::linorder sset \<Rightarrow> bool" where
  "set_ok s \<longleftrightarrow> sorted_wrt (<) s"

section \<open>The interfaces\<close>

locale std_map =
  fixes empty :: "'m"
    and find :: "'m \<Rightarrow> 'k::linorder \<Rightarrow> 'v option"
    and put :: "'k \<Rightarrow> 'v \<Rightarrow> 'm \<Rightarrow> 'm"
    and erase :: "'k \<Rightarrow> 'm \<Rightarrow> 'm"
    and keys :: "'m \<Rightarrow> 'k list"
    and ok :: "'m \<Rightarrow> bool"
  assumes find_empty: "find empty k = None"
    and find_put: "find (put k v m) k' = (if k' = k then Some v else find m k')"
    and find_erase: "find (erase k m) k' = (if k' = k then None else find m k')"
    and keys_find: "k \<in> set (keys m) \<longleftrightarrow> find m k \<noteq> None"
    and ok_empty: "ok empty"
    and ok_put: "ok m \<Longrightarrow> ok (put k v m)"
    and ok_erase: "ok m \<Longrightarrow> ok (erase k m)"
    and ok_keys: "ok m \<Longrightarrow> sorted (keys m) \<and> distinct (keys m)"
begin

lemma put_put_find: "find (put k v (put k w m)) = find (put k v m)"
  by (rule ext) (simp add: find_put)

lemma keys_put: "set (keys (put k v m)) = insert k (set (keys m))"
  by (auto simp: keys_find find_put split: if_splits)

lemma keys_erase: "set (keys (erase k m)) = set (keys m) - {k}"
  by (auto simp: keys_find find_erase split: if_splits)

lemma ok_keys_eq: "ok m \<Longrightarrow> keys m = sorted_list_of_set (set (keys m))"
  by (metis ok_keys sorted_list_of_set.idem_if_sorted_distinct)

end

locale std_set =
  fixes empty :: "'s"
    and elems :: "'s \<Rightarrow> 'a::linorder list"
    and ins :: "'a \<Rightarrow> 's \<Rightarrow> 's"
    and del :: "'a \<Rightarrow> 's \<Rightarrow> 's"
    and ok :: "'s \<Rightarrow> bool"
  assumes elems_empty: "elems empty = []"
    and elems_ins: "set (elems (ins x s)) = insert x (set (elems s))"
    and elems_del: "set (elems (del x s)) = set (elems s) - {x}"
    and ok_empty: "ok empty"
    and ok_ins: "ok s \<Longrightarrow> ok (ins x s)"
    and ok_del: "ok s \<Longrightarrow> ok (del x s)"
    and ok_elems: "ok s \<Longrightarrow> sorted (elems s) \<and> distinct (elems s)"
begin

lemma ok_elems_eq: "ok s \<Longrightarrow> elems s = sorted_list_of_set (set (elems s))"
  by (metis ok_elems sorted_list_of_set.idem_if_sorted_distinct)

lemma same_elems: "ok s \<Longrightarrow> ok t \<Longrightarrow> set (elems s) = set (elems t) \<Longrightarrow> elems s = elems t"
  by (metis ok_elems_eq)

end

section \<open>The lists implement the interfaces\<close>

lemma map_find_set [simp]: "map_find (map_set k v m) k' = (if k' = k then Some v else map_find m k')"
  by (induction k v m rule: map_set.induct) (auto simp: map_find_def)

lemma map_find_erase [simp]: "map_find (map_erase k m) k' = (if k' = k then None else map_find m k')"
  by (induction m) (auto simp: map_find_def map_erase_def)

lemma map_find_Nil [simp]: "map_find [] k = None"
  by (simp add: map_find_def)

lemma map_find_keys: "k \<in> set (map_keys m) \<longleftrightarrow> map_find m k \<noteq> None"
  by (auto simp: map_keys_def map_find_def map_of_eq_None_iff image_iff)

lemma map_set_keys: "fst ` set (map_set k v m) = insert k (fst ` set m)"
  by (induction k v m rule: map_set.induct) auto

lemma map_ok_set: "map_ok m \<Longrightarrow> map_ok (map_set k v m)"
  by (induction k v m rule: map_set.induct) (force simp: map_ok_def map_set_keys)+

lemma map_ok_erase: "map_ok m \<Longrightarrow> map_ok (map_erase k m)"
  by (induction m) (auto simp: map_ok_def map_erase_def)

lemma set_insert_set [simp]: "set (set_insert x s) = insert x (set s)"
  by (simp add: set_insert_def set_insort_insert)

lemma set_erase_set [simp]: "set (set_erase x s) = set s - {x}"
  by (auto simp: set_erase_def)

lemma set_ok_iff: "set_ok s \<longleftrightarrow> sorted s \<and> distinct s"
  by (simp add: set_ok_def strict_sorted_iff)

lemma set_ok_insert: "set_ok s \<Longrightarrow> set_ok (set_insert x s)"
  by (simp add: set_ok_iff set_insert_def sorted_insort_insert distinct_insort_insert)

lemma set_ok_erase: "set_ok s \<Longrightarrow> set_ok (set_erase x s)"
  by (simp add: set_ok_def set_erase_def sorted_wrt_filter)

interpretation smap: std_map "[]" map_find map_set map_erase map_keys map_ok
  by unfold_locales
    (auto simp: map_find_keys map_ok_set map_ok_erase, auto simp: map_ok_def map_keys_def strict_sorted_iff)

interpretation sset: std_set "[]" "\<lambda>s. s" set_insert set_erase set_ok
  by unfold_locales (auto simp: set_ok_insert set_ok_erase, auto simp: set_ok_iff)

lemma map_index_find [simp]: "fst (map_index d k m) = opt_get d (map_find m k)"
  by (simp add: map_index_def split: option.split)

lemma map_find_index: "map_find (snd (map_index d k m)) k' = (if k' = k then Some (opt_get d (map_find m k)) else map_find m k')"
  by (auto simp: map_index_def split: option.split)

lemmas std_ok = map_ok_set map_ok_erase set_ok_insert set_ok_erase smap.ok_empty sset.ok_empty

end
