(* ===== verification/Message_Queue.thy ===== *)
theory Message_Queue
  imports Std_Containers
begin

text \<open>
  \<open>class MessageQueue\<close> (message_queue.hpp, message_queue.cpp): the messages of one partition, each
  undelivered, delivered to a consumer, or committed. Every operation is a function from the queue
  to its return code and the queue after it. The abstract contract is \<open>status\<close>: what the queue knows
  of one message. \<open>delivery_queue\<close> is the interface \<open>ClusterNode\<close> relies on.
\<close>

record message_queue =
  message_store :: "(message_id_type, string) smap"
  undelivered_messages :: "message_id_type sset"
  committed_messages :: "message_id_type sset"
  consumer_id_delivered_messages :: "(client_id_type, message_id_type sset) smap"
  message_id_to_consumer :: "(message_id_type, client_id_type) smap"

definition empty_queue :: message_queue where
  "empty_queue = \<lparr>message_store = [], undelivered_messages = [], committed_messages = [],
     consumer_id_delivered_messages = [], message_id_to_consumer = []\<rparr>"

section \<open>Operations\<close>

definition insert_message :: "message_id_type \<Rightarrow> string \<Rightarrow> message_queue \<Rightarrow> int \<times> message_queue" where
  "insert_message message_id message q =
     (if map_find (message_store q) message_id \<noteq> None then (1, q)
      else (0, q\<lparr>message_store := map_set message_id message (message_store q),
                 undelivered_messages := set_insert message_id (undelivered_messages q)\<rparr>))"

text \<open>The step of \<open>commit_message\<close> that forgets the consumer the message was delivered to.\<close>

definition forget_consumer :: "message_id_type \<Rightarrow> message_queue \<Rightarrow> message_queue" where
  "forget_consumer message_id q =
     (if map_count (message_id_to_consumer q) message_id > 0
      then (let (consumer_id, m2c) = map_index 0 message_id (message_id_to_consumer q);
                (delivered, cdm) = map_index [] consumer_id (consumer_id_delivered_messages q)
            in q\<lparr>consumer_id_delivered_messages := map_set consumer_id (set_erase message_id delivered) cdm,
                 message_id_to_consumer := map_erase message_id m2c\<rparr>)
      else q)"

definition commit_message :: "message_id_type \<Rightarrow> message_queue \<Rightarrow> int \<times> message_queue" where
  "commit_message message_id q =
     (if map_find (message_store q) message_id = None then (1, q)
      else (let q = forget_consumer message_id q
            in (0, q\<lparr>committed_messages := set_insert message_id (committed_messages q),
                     undelivered_messages := set_erase message_id (undelivered_messages q)\<rparr>)))"

definition get_message :: "message_id_type \<Rightarrow> message_queue \<Rightarrow> string \<times> message_queue" where
  "get_message message_id q =
     (let (message, store) = map_index [] message_id (message_store q)
      in (message, q\<lparr>message_store := store\<rparr>))"

definition get_all_undelivered_messages :: "message_id_type list \<Rightarrow> message_queue \<Rightarrow> message_id_type list" where
  "get_all_undelivered_messages message_ids q = message_ids @ undelivered_messages q"

definition deliver_message_to_client_id ::
  "message_id_type \<Rightarrow> client_id_type \<Rightarrow> message_queue \<Rightarrow> int \<times> message_queue" where
  "deliver_message_to_client_id message_id client_id q =
     (let (delivered, cdm) = map_index [] client_id (consumer_id_delivered_messages q)
      in (0, q\<lparr>undelivered_messages := set_erase message_id (undelivered_messages q),
               consumer_id_delivered_messages := map_set client_id (set_insert message_id delivered) cdm,
               message_id_to_consumer := map_set message_id client_id (message_id_to_consumer q)\<rparr>))"

text \<open>The body of the loop of \<open>handle_client_disconnected\<close>.\<close>

definition put_back :: "message_id_type \<Rightarrow> message_queue \<Rightarrow> message_queue" where
  "put_back msg_id q =
     q\<lparr>undelivered_messages := set_insert msg_id (undelivered_messages q),
       message_id_to_consumer := map_erase msg_id (message_id_to_consumer q)\<rparr>"

definition handle_client_disconnected :: "client_id_type \<Rightarrow> message_queue \<Rightarrow> int \<times> message_queue" where
  "handle_client_disconnected client_id q =
     (case map_find (consumer_id_delivered_messages q) client_id of
        None \<Rightarrow> (1, q)
      | Some delivered \<Rightarrow>
          (let q = fold put_back delivered q
           in (0, q\<lparr>consumer_id_delivered_messages :=
                     map_erase client_id (consumer_id_delivered_messages q)\<rparr>)))"

section \<open>The contract of one message\<close>

datatype status = Unknown | Undelivered | Delivered client_id_type | Committed

definition status_of :: "message_queue \<Rightarrow> message_id_type \<Rightarrow> status" where
  "status_of q m =
     (if map_find (message_store q) m = None then Unknown
      else if m \<in> set (committed_messages q) then Committed
      else if m \<in> set (undelivered_messages q) then Undelivered
      else case map_find (message_id_to_consumer q) m of Some c \<Rightarrow> Delivered c | None \<Rightarrow> Unknown)"

text \<open>
  A message is in exactly one of the three states of the comment in message_queue.hpp, and the two
  maps between messages and consumers are inverse to each other.
\<close>

definition delivered_to :: "message_queue \<Rightarrow> client_id_type \<Rightarrow> message_id_type set" where
  "delivered_to q c = set (opt_get [] (map_find (consumer_id_delivered_messages q) c))"

definition queue_inv :: "message_queue \<Rightarrow> bool" where
  "queue_inv q \<longleftrightarrow>
     (\<forall>m. map_find (message_store q) m \<noteq> None \<longleftrightarrow>
          m \<in> set (undelivered_messages q) \<or> m \<in> set (committed_messages q)
          \<or> map_find (message_id_to_consumer q) m \<noteq> None) \<and>
     (\<forall>m. m \<in> set (undelivered_messages q) \<longrightarrow>
          m \<notin> set (committed_messages q) \<and> map_find (message_id_to_consumer q) m = None) \<and>
     (\<forall>m. m \<in> set (committed_messages q) \<longrightarrow> map_find (message_id_to_consumer q) m = None) \<and>
     (\<forall>m c. map_find (message_id_to_consumer q) m = Some c \<longleftrightarrow> m \<in> delivered_to q c) \<and>
     set_ok (undelivered_messages q) \<and> set_ok (committed_messages q)"

lemmas queue_op_defs = insert_message_def commit_message_def forget_consumer_def get_message_def
  deliver_message_to_client_id_def handle_client_disconnected_def put_back_def

section \<open>Each operation on its fields\<close>

lemma status_empty [simp]: "status_of empty_queue m = Unknown"
  by (simp add: status_of_def empty_queue_def)

lemma queue_inv_empty [keeps_inv]: "queue_inv empty_queue"
  by (simp add: queue_inv_def empty_queue_def delivered_to_def std_ok)

lemma forget_consumer_fields:
  "message_store (forget_consumer m q) = message_store q"
  "undelivered_messages (forget_consumer m q) = undelivered_messages q"
  "committed_messages (forget_consumer m q) = committed_messages q"
  "map_find (message_id_to_consumer (forget_consumer m q)) m' =
     (if m' = m then None else map_find (message_id_to_consumer q) m')"
  by (auto simp: forget_consumer_def map_count_def map_index_def split: option.splits)

lemma forget_consumer_delivered:
  "delivered_to (forget_consumer m q) c =
     delivered_to q c - (if map_find (message_id_to_consumer q) m = Some c then {m} else {})"
  by (auto simp: forget_consumer_def map_count_def map_index_def delivered_to_def split: option.splits)

lemma put_back_all_fields:
  "message_store (fold put_back ms q) = message_store q"
  "committed_messages (fold put_back ms q) = committed_messages q"
  "consumer_id_delivered_messages (fold put_back ms q) = consumer_id_delivered_messages q"
  "set (undelivered_messages (fold put_back ms q)) = set ms \<union> set (undelivered_messages q)"
  "map_find (message_id_to_consumer (fold put_back ms q)) m =
     (if m \<in> set ms then None else map_find (message_id_to_consumer q) m)"
  by (induction ms arbitrary: q) (auto simp: put_back_def)

lemma put_back_all_ok: "set_ok (undelivered_messages q) \<Longrightarrow> set_ok (undelivered_messages (fold put_back ms q))"
  by (induction ms arbitrary: q) (auto simp: put_back_def std_ok)

section \<open>Each operation on the status of every message\<close>

lemma queue_inv_status:
  assumes "queue_inv q"
  shows "status_of q m = Unknown \<longleftrightarrow> map_find (message_store q) m = None"
    and "status_of q m = Undelivered \<longleftrightarrow> m \<in> set (undelivered_messages q)"
    and "status_of q m = Committed \<longleftrightarrow> m \<in> set (committed_messages q)"
    and "status_of q m = Delivered c \<longleftrightarrow> m \<in> delivered_to q c"
proof -
  have store: "map_find (message_store q) m \<noteq> None \<longleftrightarrow> m \<in> set (undelivered_messages q) \<or>
      m \<in> set (committed_messages q) \<or> map_find (message_id_to_consumer q) m \<noteq> None"
    and und: "m \<in> set (undelivered_messages q) \<Longrightarrow>
      m \<notin> set (committed_messages q) \<and> map_find (message_id_to_consumer q) m = None"
    and com: "m \<in> set (committed_messages q) \<Longrightarrow> map_find (message_id_to_consumer q) m = None"
    and con: "\<And>c. map_find (message_id_to_consumer q) m = Some c \<longleftrightarrow> m \<in> delivered_to q c"
    using assms by (auto simp: queue_inv_def)
  show "status_of q m = Unknown \<longleftrightarrow> map_find (message_store q) m = None"
    and "status_of q m = Undelivered \<longleftrightarrow> m \<in> set (undelivered_messages q)"
    and "status_of q m = Committed \<longleftrightarrow> m \<in> set (committed_messages q)"
    using store und com by (auto simp: status_of_def split: option.split)
  show "status_of q m = Delivered c \<longleftrightarrow> m \<in> delivered_to q c"
    using store und com con [of c] by (auto simp: status_of_def split: option.split)
qed

lemma queue_inv_distinct: "queue_inv q \<Longrightarrow> distinct (undelivered_messages q)"
  by (simp add: queue_inv_def set_ok_iff)

lemma insert_message_inv [keeps_inv]: "queue_inv q \<Longrightarrow> queue_inv (snd (insert_message m s q))"
  by (auto simp: insert_message_def queue_inv_def delivered_to_def std_ok)

lemma insert_message_status:
  "queue_inv q \<Longrightarrow> status_of (snd (insert_message m s q)) m' =
     (if m' = m \<and> status_of q m = Unknown then Undelivered else status_of q m')"
  by (auto simp: queue_inv_status insert_message_def queue_inv_def)
    (auto simp: status_of_def)

lemma commit_message_inv [keeps_inv]:
  assumes "queue_inv q"
  shows "queue_inv (snd (commit_message m q))"
proof (cases "map_find (message_store q) m")
  case None
  with assms show ?thesis by (simp add: commit_message_def)
next
  case (Some s)
  define r where "r = snd (commit_message m q)"
  have fields: "message_store r = message_store q"
    "set (undelivered_messages r) = set (undelivered_messages q) - {m}"
    "set (committed_messages r) = insert m (set (committed_messages q))"
    "\<And>m'. map_find (message_id_to_consumer r) m' =
       (if m' = m then None else map_find (message_id_to_consumer q) m')"
    "\<And>c. delivered_to r c =
       delivered_to q c - (if map_find (message_id_to_consumer q) m = Some c then {m} else {})"
    using Some forget_consumer_delivered [of m q]
    by (auto simp: r_def commit_message_def Let_def forget_consumer_fields delivered_to_def)
  have ok: "set_ok (undelivered_messages r)" "set_ok (committed_messages r)"
    using assms Some by (auto simp: r_def commit_message_def Let_def forget_consumer_fields queue_inv_def std_ok)
  from assms show ?thesis
    unfolding r_def [symmetric] using Some ok
    by (auto simp: queue_inv_def fields)
qed

lemma commit_message_status:
  "queue_inv q \<Longrightarrow> status_of (snd (commit_message m q)) m' =
     (if m' = m \<and> status_of q m \<noteq> Unknown then Committed else status_of q m')"
  unfolding queue_inv_status(1)
  by (cases "map_find (message_store q) m")
    (auto simp: commit_message_def status_of_def Let_def forget_consumer_fields)

lemma deliver_message_inv [keeps_inv]:
  assumes "queue_inv q" and "m \<in> set (undelivered_messages q)"
  shows "queue_inv (snd (deliver_message_to_client_id m c q))"
proof -
  define r where "r = snd (deliver_message_to_client_id m c q)"
  have fields: "message_store r = message_store q"
    "undelivered_messages r = set_erase m (undelivered_messages q)"
    "committed_messages r = committed_messages q"
    "\<And>m'. map_find (message_id_to_consumer r) m' =
       (if m' = m then Some c else map_find (message_id_to_consumer q) m')"
    "\<And>c'. delivered_to r c' = delivered_to q c' \<union> (if c' = c then {m} else {})"
    by (auto simp: r_def deliver_message_to_client_id_def Let_def map_index_def delivered_to_def
        split: option.splits)
  from assms show ?thesis
    unfolding r_def [symmetric]
    by (auto simp: queue_inv_def fields std_ok) (metis option.distinct(1))+
qed

lemma deliver_message_status:
  "queue_inv q \<Longrightarrow> m \<in> set (undelivered_messages q) \<Longrightarrow>
   status_of (snd (deliver_message_to_client_id m c q)) m' = (if m' = m then Delivered c else status_of q m')"
  by (auto simp: deliver_message_to_client_id_def status_of_def Let_def map_index_def queue_inv_def
      split: option.splits)

lemma handle_client_disconnected_inv [keeps_inv]:
  assumes "queue_inv q"
  shows "queue_inv (snd (handle_client_disconnected c q))"
proof (cases "map_find (consumer_id_delivered_messages q) c")
  case None
  with assms show ?thesis by (simp add: handle_client_disconnected_def)
next
  case (Some ms)
  define r where "r = snd (handle_client_disconnected c q)"
  have ms: "delivered_to q c = set ms" using Some by (simp add: delivered_to_def)
  have fields: "message_store r = message_store q"
    "set (undelivered_messages r) = delivered_to q c \<union> set (undelivered_messages q)"
    "committed_messages r = committed_messages q"
    "\<And>m. map_find (message_id_to_consumer r) m =
       (if m \<in> delivered_to q c then None else map_find (message_id_to_consumer q) m)"
    "\<And>c'. delivered_to r c' = (if c' = c then {} else delivered_to q c')"
    using Some by (auto simp: r_def handle_client_disconnected_def Let_def put_back_all_fields ms)
      (auto simp: delivered_to_def put_back_all_fields split: if_splits)
  have ok: "set_ok (undelivered_messages r)"
    using assms Some by (simp add: r_def handle_client_disconnected_def Let_def put_back_all_ok queue_inv_def)
  from assms ok show ?thesis
    unfolding r_def [symmetric]
    by (auto simp: queue_inv_def fields) (metis option.inject option.distinct(1))+
qed

lemma handle_client_disconnected_status:
  assumes "queue_inv q"
  shows "status_of (snd (handle_client_disconnected c q)) m =
     (if status_of q m = Delivered c then Undelivered else status_of q m)"
proof (cases "map_find (consumer_id_delivered_messages q) c")
  case None
  then have "delivered_to q c = {}" by (simp add: delivered_to_def)
  with None show ?thesis
    by (simp add: handle_client_disconnected_def queue_inv_status [OF assms])
next
  case (Some ms)
  have mine: "m \<in> set ms \<longleftrightarrow> map_find (message_id_to_consumer q) m = Some c"
    using Some assms by (auto simp: delivered_to_def queue_inv_def)
  then have "status_of q m = Delivered c \<longleftrightarrow> m \<in> set ms"
    using Some queue_inv_status(4) [OF assms, of m c] by (simp add: delivered_to_def)
  moreover have "m \<in> set ms \<Longrightarrow> map_find (message_store q) m \<noteq> None \<and> m \<notin> set (committed_messages q)"
    using assms mine unfolding queue_inv_def by (metis option.distinct(1))
  moreover have "status_of (snd (handle_client_disconnected c q)) m =
      (if m \<in> set ms \<and> map_find (message_store q) m \<noteq> None \<and> m \<notin> set (committed_messages q)
       then Undelivered else status_of q m)" if "m \<in> set ms \<Longrightarrow> map_find (message_store q) m \<noteq> None"
    using Some that by (auto simp: status_of_def handle_client_disconnected_def Let_def put_back_all_fields)
  ultimately show ?thesis by auto
qed

section \<open>The interface of the queue\<close>

locale delivery_queue =
  fixes empty :: "'q"
    and status :: "'q \<Rightarrow> message_id_type \<Rightarrow> status"
    and put :: "message_id_type \<Rightarrow> string \<Rightarrow> 'q \<Rightarrow> 'q"
    and commit :: "message_id_type \<Rightarrow> 'q \<Rightarrow> 'q"
    and deliver :: "message_id_type \<Rightarrow> client_id_type \<Rightarrow> 'q \<Rightarrow> 'q"
    and disconnect :: "client_id_type \<Rightarrow> 'q \<Rightarrow> 'q"
    and pending :: "'q \<Rightarrow> message_id_type list"
    and inv :: "'q \<Rightarrow> bool"
  assumes status_init: "status empty m = Unknown"
    and status_put: "inv q \<Longrightarrow> status (put m s q) m' =
      (if m' = m \<and> status q m = Unknown then Undelivered else status q m')"
    and status_commit: "inv q \<Longrightarrow> status (commit m q) m' =
      (if m' = m \<and> status q m \<noteq> Unknown then Committed else status q m')"
    and status_deliver: "inv q \<Longrightarrow> status q m = Undelivered \<Longrightarrow>
      status (deliver m c q) m' = (if m' = m then Delivered c else status q m')"
    and status_disconnect: "inv q \<Longrightarrow> status (disconnect c q) m =
      (if status q m = Delivered c then Undelivered else status q m)"
    and pending_status: "inv q \<Longrightarrow> set (pending q) = {m. status q m = Undelivered}"
    and pending_distinct: "inv q \<Longrightarrow> distinct (pending q)"
    and inv_init: "inv empty"
    and inv_put: "inv q \<Longrightarrow> inv (put m s q)"
    and inv_commit: "inv q \<Longrightarrow> inv (commit m q)"
    and inv_deliver: "inv q \<Longrightarrow> status q m = Undelivered \<Longrightarrow> inv (deliver m c q)"
    and inv_disconnect: "inv q \<Longrightarrow> inv (disconnect c q)"
begin

text \<open>Delivering a list of distinct undelivered messages, one consumer each.\<close>

lemma deliver_all_status:
  assumes "inv q" and "distinct ms" and "set ms \<subseteq> {m. status q m = Undelivered}" and "length cs = length ms"
  shows "inv (fold (\<lambda>(m, c). deliver m c) (zip ms cs) q) \<and>
    (\<forall>m. status (fold (\<lambda>(m, c). deliver m c) (zip ms cs) q) m =
       (case map_of (zip ms cs) m of Some c \<Rightarrow> Delivered c | None \<Rightarrow> status q m))"
  using assms
proof (induction ms arbitrary: q cs)
  case Nil
  then show ?case by simp
next
  case (Cons m ms)
  then obtain c ds where cs: "cs = c # ds" by (cases cs) auto
  have m: "status q m = Undelivered" using Cons.prems by simp
  let ?q = "deliver m c q"
  have "inv ?q" using Cons.prems(1) m by (rule inv_deliver)
  moreover have "set ms \<subseteq> {m. status ?q m = Undelivered}"
    using Cons.prems m by (auto simp: status_deliver)
  ultimately have IH: "inv (fold (\<lambda>(m, c). deliver m c) (zip ms ds) ?q) \<and>
      (\<forall>m. status (fold (\<lambda>(m, c). deliver m c) (zip ms ds) ?q) m =
         (case map_of (zip ms ds) m of Some c \<Rightarrow> Delivered c | None \<Rightarrow> status ?q m))"
    using Cons.prems cs by (intro Cons.IH) auto
  have "map_of (zip ms ds) m = None"
    using Cons.prems by (auto simp: map_of_eq_None_iff dest: set_zip_leftD)
  with IH Cons.prems(1) m show ?case
    by (auto simp: cs status_deliver split: option.splits)
qed

lemma disconnect_frees: "inv q \<Longrightarrow> status (disconnect c q) m \<noteq> Delivered c"
  by (simp add: status_disconnect)

lemma disconnect_pending:
  "inv q \<Longrightarrow> set (pending (disconnect c q)) = set (pending q) \<union> {m. status q m = Delivered c}"
  by (auto simp: pending_status inv_disconnect status_disconnect)

lemma commit_pending: "inv q \<Longrightarrow> status q m \<noteq> Unknown \<Longrightarrow> m \<notin> set (pending (commit m q))"
  by (simp add: pending_status inv_commit status_commit)

end

interpretation mq: delivery_queue empty_queue status_of
  "\<lambda>m s q. snd (insert_message m s q)" "\<lambda>m q. snd (commit_message m q)"
  "\<lambda>m c q. snd (deliver_message_to_client_id m c q)" "\<lambda>c q. snd (handle_client_disconnected c q)"
  "get_all_undelivered_messages []" queue_inv
  by unfold_locales
    (simp_all add: insert_message_status commit_message_status deliver_message_status
      handle_client_disconnected_status queue_inv_status keeps_inv get_all_undelivered_messages_def
      queue_inv_distinct)

section \<open>Runs of operations\<close>

text \<open>
  The calls \<open>ClusterNode\<close> makes. A delivery is only made for a message that
  \<open>get_all_undelivered_messages\<close> returned, as \<open>trigger_message_delivery\<close> does.
\<close>

datatype queue_op =
    Insert message_id_type string
  | Commit message_id_type
  | Deliver message_id_type client_id_type
  | Disconnect client_id_type

fun queue_step :: "message_queue \<Rightarrow> queue_op \<Rightarrow> message_queue" where
  "queue_step q (Insert m s) = snd (insert_message m s q)"
| "queue_step q (Commit m) = snd (commit_message m q)"
| "queue_step q (Deliver m c) =
     (if m \<in> set (get_all_undelivered_messages [] q) then snd (deliver_message_to_client_id m c q) else q)"
| "queue_step q (Disconnect c) = snd (handle_client_disconnected c q)"

definition queue_run :: "message_queue \<Rightarrow> queue_op list \<Rightarrow> message_queue" where
  "queue_run = foldl queue_step"

fun is_log_op :: "queue_op \<Rightarrow> bool" where
  "is_log_op (Insert m s) = True"
| "is_log_op (Commit m) = True"
| "is_log_op (Deliver m c) = False"
| "is_log_op (Disconnect c) = False"

lemma queue_run_simps [simp]:
  "queue_run q [] = q"
  "queue_run q (x # xs) = queue_run (queue_step q x) xs"
  by (simp_all add: queue_run_def)

lemma queue_step_inv: "queue_inv q \<Longrightarrow> queue_inv (queue_step q x)"
  by (cases x) (auto simp: keeps_inv mq.pending_status queue_inv_status)

lemma queue_run_inv: "queue_inv q \<Longrightarrow> queue_inv (queue_run q xs)"
  by (induction xs arbitrary: q) (auto simp: queue_step_inv)

text \<open>The next status of a message, as a function of its status alone.\<close>

fun status_step :: "queue_op \<Rightarrow> message_id_type \<Rightarrow> status \<Rightarrow> status" where
  "status_step (Insert m s) m' st = (if m' = m \<and> st = Unknown then Undelivered else st)"
| "status_step (Commit m) m' st = (if m' = m \<and> st \<noteq> Unknown then Committed else st)"
| "status_step (Deliver m c) m' st = (if m' = m \<and> st = Undelivered then Delivered c else st)"
| "status_step (Disconnect c) m' st = (if st = Delivered c then Undelivered else st)"

lemma queue_step_status:
  assumes "queue_inv q"
  shows "status_of (queue_step q x) m = status_step x m (status_of q m)"
proof (cases x)
  case (Deliver m' c)
  with assms show ?thesis
    by (auto simp: mq.pending_status mq.status_deliver queue_inv_status)
qed (use assms in \<open>auto simp: mq.status_put mq.status_commit mq.status_disconnect\<close>)

lemma queue_run_status:
  "queue_inv q \<Longrightarrow> status_of (queue_run q xs) m = fold (\<lambda>x. status_step x m) xs (status_of q m)"
  by (induction xs arbitrary: q) (auto simp: queue_step_status queue_step_inv)

lemma fold_status_committed: "fold (\<lambda>x. status_step x m) xs Committed = Committed"
proof (induction xs)
  case (Cons x xs)
  have "status_step x m Committed = Committed" by (cases x) auto
  with Cons show ?case by simp
qed simp

text \<open>What a node that replays the log makes of a status.\<close>

fun persisted_status :: "status \<Rightarrow> status" where
  "persisted_status (Delivered c) = Undelivered"
| "persisted_status st = st"

lemma persisted_status_step:
  "persisted_status (status_step x m st) =
     (if is_log_op x then status_step x m (persisted_status st) else persisted_status st)"
  by (cases x; cases st) auto

lemma persisted_status_fold:
  "persisted_status (fold (\<lambda>x. status_step x m) xs st) =
     fold (\<lambda>x. status_step x m) (filter is_log_op xs) (persisted_status st)"
  by (induction xs arbitrary: st) (auto simp: persisted_status_step)

lemma queue_step_transient:
  "\<not> is_log_op x \<Longrightarrow> message_store (queue_step q x) = message_store q"
  "\<not> is_log_op x \<Longrightarrow> committed_messages (queue_step q x) = committed_messages q"
  by (cases x; auto simp: queue_op_defs Let_def put_back_all_fields split: option.splits prod.splits)+

lemma queue_step_log:
  "is_log_op x \<Longrightarrow> message_store q = message_store r \<Longrightarrow>
     message_store (queue_step q x) = message_store (queue_step r x)"
  "is_log_op x \<Longrightarrow> message_store q = message_store r \<Longrightarrow> committed_messages q = committed_messages r \<Longrightarrow>
     committed_messages (queue_step q x) = committed_messages (queue_step r x)"
  by (cases x; simp add: insert_message_def commit_message_def Let_def forget_consumer_fields)+

lemma queue_run_log_fields:
  assumes "message_store q = message_store r" and "committed_messages q = committed_messages r"
  shows "message_store (queue_run q xs) = message_store (queue_run r (filter is_log_op xs)) \<and>
    committed_messages (queue_run q xs) = committed_messages (queue_run r (filter is_log_op xs))"
  using assms
proof (induction xs arbitrary: q r)
  case (Cons x xs)
  show ?case
  proof (cases "is_log_op x")
    case True
    then show ?thesis using Cons.prems queue_step_log [of x q r] by (simp add: Cons.IH)
  next
    case False
    then show ?thesis using Cons.prems queue_step_transient [of x q] by (simp add: Cons.IH)
  qed
qed simp

section \<open>Properties of the queue\<close>




text \<open>
  A committed message stays committed whatever calls follow, so it is never again among the messages to deliver and no consumer holds it.
\<close>

lemma committed_message_is_final:
  assumes "queue_inv q" and "status_of q m = Committed"
  shows "status_of (queue_run q xs) m = Committed \<and>
    m \<notin> set (get_all_undelivered_messages [] (queue_run q xs)) \<and>
    m \<notin> delivered_to (queue_run q xs) c"
proof -
  have st: "status_of (queue_run q xs) m = Committed"
    using assms by (simp add: queue_run_status fold_status_committed)
  have inv: "queue_inv (queue_run q xs)" using assms(1) by (rule queue_run_inv)
  show ?thesis
    using st mq.pending_status [OF inv] queue_inv_status(4) [OF inv, of m c] by simp
qed

text \<open>
  The persisted state is the result of the log alone. Whatever deliveries and disconnections are interleaved with
  the log entries, a node that applies only the log entries has the same messages and the same committed ids, and it
  holds as undelivered exactly the messages that are undelivered or delivered but not committed.
\<close>

lemma persisted_state_is_replay:
  "let q = queue_run empty_queue xs; r = queue_run empty_queue (filter is_log_op xs)
   in message_store q = message_store r \<and> committed_messages q = committed_messages r \<and>
      (\<forall>m. status_of r m = persisted_status (status_of q m))"
  unfolding Let_def using queue_run_log_fields [of empty_queue empty_queue xs]
  by (simp add: queue_run_status queue_inv_empty persisted_status_fold)

text \<open>
  C30: when a consumer disconnects, exactly the messages delivered to it and not committed go back to the undelivered
  messages, in the order of their ids, and every other message keeps its status.
\<close>

theorem disconnect_puts_back:
  assumes "queue_inv q"
  shows "let r = snd (handle_client_disconnected c q)
    in get_all_undelivered_messages [] r = sorted_list_of_set (set (undelivered_messages q) \<union> delivered_to q c) \<and>
       delivered_to r c = {} \<and>
       (\<forall>m. status_of q m \<noteq> Delivered c \<longrightarrow> status_of r m = status_of q m)"
proof -
  let ?r = "snd (handle_client_disconnected c q)"
  have inv: "queue_inv ?r" using assms by (rule handle_client_disconnected_inv)
  have "set (undelivered_messages ?r) = set (undelivered_messages q) \<union> delivered_to q c"
    using mq.disconnect_pending [OF assms, of c] by (auto simp: get_all_undelivered_messages_def queue_inv_status [OF assms])
  moreover have "set_ok (undelivered_messages ?r)" using inv by (simp add: queue_inv_def)
  ultimately have "get_all_undelivered_messages [] ?r = sorted_list_of_set (set (undelivered_messages q) \<union> delivered_to q c)"
    using sset.ok_elems_eq [of "undelivered_messages ?r"] by (simp add: get_all_undelivered_messages_def)
  moreover have "delivered_to ?r c = {}"
    using mq.disconnect_frees [OF assms] queue_inv_status(4) [OF inv] by blast
  ultimately show ?thesis
    using assms by (simp add: mq.status_disconnect)
qed

theorem disconnect_puts_back_witness:
  "get_all_undelivered_messages [] (snd (handle_client_disconnected 3
     (queue_run empty_queue [Insert 7 ''a'', Insert 5 ''b'', Deliver 7 3]))) = [5, 7]"
proof -
  let ?q = "queue_run empty_queue [Insert 7 ''a'', Insert 5 ''b'', Deliver 7 3]"
  have "queue_inv ?q" by (rule queue_run_inv) (rule queue_inv_empty)
  then have "get_all_undelivered_messages [] (snd (handle_client_disconnected 3 ?q)) =
      sorted_list_of_set (set (undelivered_messages ?q) \<union> delivered_to ?q 3)"
    using disconnect_puts_back [of ?q 3] by (simp only: Let_def)
  also have "set (undelivered_messages ?q) \<union> delivered_to ?q 3 = {5, 7}" by code_simp
  finally show ?thesis by simp
qed

end
