(* ===== verification/Wire_Format.thy ===== *)
theory Wire_Format
  imports Prelude
begin

text \<open>
  The part of the protobuf library that the generated code of flow_message.pb.cc calls. The library is
  not part of the repository, so its functions are a parameter of the model: a record of type \<open>wire\<close>.
  The locale \<open>wire_format\<close> names what the generated code relies on, as the encoding documentation states it:
  a field that was written is read back, a size function gives the number of bytes its writer
  emits, a number takes at most ten bytes and the length of a string at most five, the array writers emit what the stream writers emit, and
  reading never moves backwards.
  The base-128 varint encoding of that documentation is the instance \<open>varint_wire\<close>.

  A reader takes the value the field had before and returns whether it succeeded, the value after it and the
  unread input. Unknown fields are kept as bytes.
\<close>

record wire =
  Int32Size :: "int \<Rightarrow> nat"
  Int64Size :: "int \<Rightarrow> nat"
  EnumSize :: "int \<Rightarrow> nat"
  LengthDelimitedSize :: "nat \<Rightarrow> nat"
  WriteInt32 :: "nat \<Rightarrow> int \<Rightarrow> string"
  WriteInt64 :: "nat \<Rightarrow> int \<Rightarrow> string"
  WriteEnum :: "nat \<Rightarrow> int \<Rightarrow> string"
  WriteString :: "nat \<Rightarrow> string \<Rightarrow> string"
  WriteMessage :: "nat \<Rightarrow> string \<Rightarrow> string"
  WriteInt32ToArray :: "nat \<Rightarrow> int \<Rightarrow> string"
  WriteInt64ToArray :: "nat \<Rightarrow> int \<Rightarrow> string"
  WriteEnumToArray :: "nat \<Rightarrow> int \<Rightarrow> string"
  WriteStringToArray :: "nat \<Rightarrow> string \<Rightarrow> string"
  WriteMessageToArray :: "nat \<Rightarrow> string \<Rightarrow> string"
  ReadTag :: "string \<Rightarrow> (nat \<times> bool) \<times> string"
  ReadInt32 :: "int \<Rightarrow> string \<Rightarrow> bool \<times> int \<times> string"
  ReadInt64 :: "int \<Rightarrow> string \<Rightarrow> bool \<times> int \<times> string"
  ReadEnum :: "int \<Rightarrow> string \<Rightarrow> bool \<times> int \<times> string"
  ReadString :: "string \<Rightarrow> string \<Rightarrow> bool \<times> string \<times> string"
  ReadLength :: "string \<Rightarrow> (string \<times> string) option"
  SkipField :: "nat \<Rightarrow> string \<Rightarrow> string \<Rightarrow> bool \<times> string \<times> string"
  AddVarint :: "nat \<Rightarrow> int \<Rightarrow> string \<Rightarrow> string"
  MergeUnknown :: "string \<Rightarrow> string \<Rightarrow> string"
  SerializeUnknownFields :: "string \<Rightarrow> string"
  SerializeUnknownFieldsToArray :: "string \<Rightarrow> string"
  ComputeUnknownFieldsSize :: "string \<Rightarrow> nat"

section \<open>What every generated message class does\<close>

text \<open>Writers of one field that may be absent (its has-bit clear) or repeated.\<close>

fun put_opt :: "('a \<Rightarrow> string) \<Rightarrow> 'a option \<Rightarrow> string" where
  "put_opt f None = []"
| "put_opt f (Some v) = f v"

definition put_all :: "('a \<Rightarrow> string) \<Rightarrow> 'a list \<Rightarrow> string" where
  "put_all f vs = concat (map f vs)"

text \<open>\<open>if (has_f()) total_size += 1 + size(f())\<close>, and the same for a repeated field.\<close>

fun size_opt :: "('a \<Rightarrow> nat) \<Rightarrow> 'a option \<Rightarrow> nat" where
  "size_opt f None = 0"
| "size_opt f (Some v) = 1 + f v"

definition size_all :: "('a \<Rightarrow> nat) \<Rightarrow> 'a list \<Rightarrow> nat" where
  "size_all f vs = 1 * length vs + sum_list (map f vs)"

text \<open>\<open>if (from.has_f()) f_ = from.f_\<close>\<close>

fun merge_opt :: "'a option \<Rightarrow> 'a option \<Rightarrow> 'a option" where
  "merge_opt old None = old"
| "merge_opt old (Some v) = Some v"

text \<open>
  The loop of every \<open>MergePartialFromCodedStream\<close>: read a tag, let the switch of the message handle the field
  (\<open>None\<close> is \<open>goto handle_unusual\<close>), otherwise stop at tag 0 or skip an unknown field. The result is whether parsing succeeded, the
  message with what was merged so far, and the unread input; \<open>None\<close> if the loop does not end.
\<close>

type_synonym 'm parsed = "bool \<times> 'm \<times> string"

partial_function (option) parse_loop ::
  "wire \<Rightarrow> (nat \<Rightarrow> string \<Rightarrow> 'm \<Rightarrow> 'm parsed option option) \<Rightarrow> (nat \<Rightarrow> string \<Rightarrow> 'm \<Rightarrow> 'm parsed) \<Rightarrow>
   string \<Rightarrow> 'm \<Rightarrow> 'm parsed option" where
  "parse_loop w field skip input m =
     (case ReadTag w input of ((tag, ok), rest) \<Rightarrow>
       (case (if ok then field tag rest m else None) of
          Some None \<Rightarrow> None
        | Some (Some (good, m', rest')) \<Rightarrow>
            if good then parse_loop w field skip rest' m' else Some (False, m', rest')
        | None \<Rightarrow>
            if tag = 0 then Some (True, m, rest)
            else (case skip tag rest m of (good, m', rest') \<Rightarrow>
                    if good then parse_loop w field skip rest' m' else Some (False, m', rest'))))"

text \<open>\<open>WireFormatLite::ReadMessage\<close>: merge the length-delimited bytes into a message; they must be consumed exactly.\<close>

definition ReadMessage ::
  "wire \<Rightarrow> (string \<Rightarrow> 'm \<Rightarrow> 'm parsed option) \<Rightarrow> 'm \<Rightarrow> string \<Rightarrow> 'm parsed option" where
  "ReadMessage w parse old input =
     (case ReadLength w input of
        None \<Rightarrow> Some (False, old, input)
      | Some (body, rest) \<Rightarrow>
          map_option (\<lambda>(ok, m, left). (ok \<and> left = [], m, rest)) (parse body old))"

section \<open>What the generated code relies on\<close>

definition field_number :: "nat \<Rightarrow> bool" where
  "field_number n \<longleftrightarrow> 1 \<le> n \<and> n \<le> 15"

locale wire_format =
  fixes w :: wire
  assumes read_end: "ReadTag w [] = ((0, False), [])"
    and read_int32: "field_number n \<Longrightarrow> in_int32 v \<Longrightarrow>
      \<exists>r. ReadTag w (WriteInt32 w n v @ rest) = ((8 * n, True), r) \<and> (\<forall>old. ReadInt32 w old r = (True, v, rest))"
    and read_int64: "field_number n \<Longrightarrow> in_int64 v \<Longrightarrow>
      \<exists>r. ReadTag w (WriteInt64 w n v @ rest) = ((8 * n, True), r) \<and> (\<forall>old. ReadInt64 w old r = (True, v, rest))"
    and read_enum: "field_number n \<Longrightarrow> in_int32 v \<Longrightarrow>
      \<exists>r. ReadTag w (WriteEnum w n v @ rest) = ((8 * n, True), r) \<and> (\<forall>old. ReadEnum w old r = (True, v, rest))"
    and read_string: "field_number n \<Longrightarrow> length s < 2 ^ 31 \<Longrightarrow>
      \<exists>r. ReadTag w (WriteString w n s @ rest) = ((8 * n + 2, True), r) \<and> (\<forall>old. ReadString w old r = (True, s, rest))"
    and read_length: "field_number n \<Longrightarrow> length s < 2 ^ 31 \<Longrightarrow>
      \<exists>r. ReadTag w (WriteMessage w n s @ rest) = ((8 * n + 2, True), r) \<and> ReadLength w r = Some (s, rest)"
    and size_int32: "field_number n \<Longrightarrow> in_int32 v \<Longrightarrow> length (WriteInt32 w n v) = 1 + Int32Size w v"
    and size_int64: "field_number n \<Longrightarrow> in_int64 v \<Longrightarrow> length (WriteInt64 w n v) = 1 + Int64Size w v"
    and size_enum: "field_number n \<Longrightarrow> in_int32 v \<Longrightarrow> length (WriteEnum w n v) = 1 + EnumSize w v"
    and size_string: "field_number n \<Longrightarrow> length (WriteString w n s) = 1 + LengthDelimitedSize w (length s)"
    and size_message: "field_number n \<Longrightarrow> length (WriteMessage w n s) = 1 + LengthDelimitedSize w (length s)"
    and size_unknown: "length (SerializeUnknownFields w u) = ComputeUnknownFieldsSize w u"
    and array_writers: "WriteInt32ToArray w = WriteInt32 w" "WriteInt64ToArray w = WriteInt64 w"
      "WriteEnumToArray w = WriteEnum w" "WriteStringToArray w = WriteString w"
      "WriteMessageToArray w = WriteMessage w" "SerializeUnknownFieldsToArray w = SerializeUnknownFields w"
    and end_shrinks: "ReadTag w input = ((tag, ok), rest) \<Longrightarrow> length rest \<le> length input"
    and tag_consumes: "ReadTag w input = ((tag, ok), rest) \<Longrightarrow> tag \<noteq> 0 \<Longrightarrow> length rest < length input"
    and int32_shrinks: "ReadInt32 w x input = (ok, x', rest) \<Longrightarrow> length rest \<le> length input"
    and int64_shrinks: "ReadInt64 w x input = (ok, x', rest) \<Longrightarrow> length rest \<le> length input"
    and enum_shrinks: "ReadEnum w x input = (ok, x', rest) \<Longrightarrow> length rest \<le> length input"
    and string_shrinks: "ReadString w s input = (ok, s', rest) \<Longrightarrow> length rest \<le> length input"
    and length_shrinks: "ReadLength w input = Some (body, rest) \<Longrightarrow> length body + length rest \<le> length input"
    and skip_shrinks: "SkipField w tag input u = (ok, u', rest) \<Longrightarrow> length rest \<le> length input"
    and merge_unknown_empty: "MergeUnknown w [] u = u"
    and varint_sizes: "Int32Size w v \<le> 10" "Int64Size w v \<le> 10" "EnumSize w v \<le> 10"
    and length_sizes: "k \<le> LengthDelimitedSize w k" "k < 2 ^ 31 \<Longrightarrow> LengthDelimitedSize w k \<le> k + 5"
begin

lemma array_writers_eq [simp]:
  "WriteInt32ToArray w = WriteInt32 w" "WriteInt64ToArray w = WriteInt64 w"
  "WriteEnumToArray w = WriteEnum w" "WriteStringToArray w = WriteString w"
  "WriteMessageToArray w = WriteMessage w" "SerializeUnknownFieldsToArray w = SerializeUnknownFields w"
  by (fact array_writers)+

text \<open>The loop at the end of the input, and over one field of each kind.\<close>

lemma parse_end: "parse_loop w field skip [] m = Some (True, m, [])"
  by (subst parse_loop.simps) (simp add: read_end)

lemma parse_field:
  "ReadTag w input = ((tag, True), rest) \<Longrightarrow> field tag rest m = Some (Some (True, m', rest')) \<Longrightarrow>
   parse_loop w field skip input m = parse_loop w field skip rest' m'"
  by (subst parse_loop.simps) simp

lemma parse_int32:
  assumes "field_number n" and "\<And>v. x = Some v \<Longrightarrow> in_int32 v"
    and "\<And>r. field (8 * n) r m =
      Some (Some (case ReadInt32 w (opt_get 0 (get m)) r of (ok, v, r') \<Rightarrow> (ok, upd (Some v) m, r')))"
    and "x = None \<Longrightarrow> upd x m = m"
  shows "parse_loop w field skip (put_opt (WriteInt32 w n) x @ rest) m = parse_loop w field skip rest (upd x m)"
proof (cases x)
  case (Some v)
  with assms(1,2) read_int32 [of n v rest] show ?thesis
    by (auto simp: assms(3) intro: parse_field)
qed (use assms(4) in simp)

lemma parse_int64:
  assumes "field_number n" and "\<And>v. x = Some v \<Longrightarrow> in_int64 v"
    and "\<And>r. field (8 * n) r m =
      Some (Some (case ReadInt64 w (opt_get 0 (get m)) r of (ok, v, r') \<Rightarrow> (ok, upd (Some v) m, r')))"
    and "x = None \<Longrightarrow> upd x m = m"
  shows "parse_loop w field skip (put_opt (WriteInt64 w n) x @ rest) m = parse_loop w field skip rest (upd x m)"
proof (cases x)
  case (Some v)
  with assms(1,2) read_int64 [of n v rest] show ?thesis
    by (auto simp: assms(3) intro: parse_field)
qed (use assms(4) in simp)

lemma parse_enum:
  assumes "field_number n" and "\<And>v. x = Some v \<Longrightarrow> in_int32 v \<and> valid v"
    and "\<And>r. field (8 * n) r m =
      Some (Some (case ReadEnum w 0 r of (ok, v, r') \<Rightarrow>
        (ok, if ok then if valid v then upd (Some v) m else other v m else m, r')))"
    and "x = None \<Longrightarrow> upd x m = m"
  shows "parse_loop w field skip (put_opt (WriteEnum w n) x @ rest) m = parse_loop w field skip rest (upd x m)"
proof (cases x)
  case (Some v)
  with assms(1,2) read_enum [of n v rest] show ?thesis
    by (auto simp: assms(3) intro: parse_field)
qed (use assms(4) in simp)

lemma parse_string:
  assumes "field_number n" and "\<And>s. x = Some s \<Longrightarrow> length s < 2 ^ 31"
    and "\<And>r. field (8 * n + 2) r m =
      Some (Some (case ReadString w (opt_get [] (get m)) r of (ok, v, r') \<Rightarrow> (ok, upd (Some v) m, r')))"
    and "x = None \<Longrightarrow> upd x m = m"
  shows "parse_loop w field skip (put_opt (WriteString w n) x @ rest) m = parse_loop w field skip rest (upd x m)"
proof (cases x)
  case (Some s)
  with assms(1,2) obtain r where tag: "ReadTag w (WriteString w n s @ rest) = ((8 * n + 2, True), r)"
    and r: "\<And>old. ReadString w old r = (True, s, rest)"
    using read_string [of n s rest] by blast
  have "field (8 * n + 2) r m = Some (Some (True, upd (Some s) m, rest))"
    unfolding assms(3) r by simp
  with Some show ?thesis using parse_field [OF tag] by simp
qed (use assms(4) in simp)

lemma parse_message:
  assumes "field_number n" and "\<And>y. x = Some y \<Longrightarrow> length (ser y) < 2 ^ 31 \<and> parse (ser y) old = Some (True, y, [])"
    and "\<And>r. field (8 * n + 2) r m =
      Some (map_option (\<lambda>(ok, v, r'). (ok, upd (Some v) m, r')) (ReadMessage w parse old r))"
    and "x = None \<Longrightarrow> upd x m = m"
  shows "parse_loop w field skip (put_opt (\<lambda>y. WriteMessage w n (ser y)) x @ rest) m = parse_loop w field skip rest (upd x m)"
proof (cases x)
  case (Some y)
  with assms(1,2) obtain r where tag: "ReadTag w (WriteMessage w n (ser y) @ rest) = ((8 * n + 2, True), r)"
    and r: "ReadLength w r = Some (ser y, rest)"
    using read_length [of n "ser y" rest] by blast
  have "field (8 * n + 2) r m = Some (Some (True, upd (Some y) m, rest))"
    unfolding assms(3) using r Some assms(2) by (simp add: ReadMessage_def)
  with Some show ?thesis using parse_field [OF tag] by simp
qed (use assms(4) in simp)

lemma parse_repeated:
  assumes "field_number n" and "\<And>y. y \<in> set ys \<Longrightarrow> length (ser y) < 2 ^ 31 \<and> parse (ser y) new = Some (True, y, [])"
    and "\<And>r ys. field (8 * n + 2) r (app ys m) =
      Some (map_option (\<lambda>(ok, v, r'). (ok, app (ys @ [v]) m, r')) (ReadMessage w parse new r))"
  shows "parse_loop w field skip (put_all (\<lambda>y. WriteMessage w n (ser y)) ys @ rest) (app xs m) =
    parse_loop w field skip rest (app (xs @ ys) m)"
  using assms(2)
proof (induction ys arbitrary: xs)
  case (Cons y ys)
  let ?rest = "put_all (\<lambda>y. WriteMessage w n (ser y)) ys @ rest"
  from Cons.prems [of y] obtain r where tag: "ReadTag w (WriteMessage w n (ser y) @ ?rest) = ((8 * n + 2, True), r)"
    and r: "ReadLength w r = Some (ser y, ?rest)"
    using read_length [OF assms(1), of "ser y" ?rest] by auto
  have "field (8 * n + 2) r (app xs m) = Some (Some (True, app (xs @ [y]) m, ?rest))"
    unfolding assms(3) using r Cons.prems [of y] by (simp add: ReadMessage_def)
  from parse_field [where field = field, OF tag this]
  have "parse_loop w field skip (put_all (\<lambda>y. WriteMessage w n (ser y)) (y # ys) @ rest) (app xs m) =
      parse_loop w field skip ?rest (app (xs @ [y]) m)"
    by (simp add: put_all_def)
  also have "\<dots> = parse_loop w field skip rest (app ((xs @ [y]) @ ys) m)"
    using Cons by simp
  finally show ?case by simp
qed (simp add: put_all_def)

text \<open>The loop always ends: each round consumes the tag it reads.\<close>

lemma parse_loop_returns:
  assumes field: "\<And>tag r m. field tag r m \<noteq> Some None"
    and shrink: "\<And>tag r m ok m' r'. field tag r m = Some (Some (ok, m', r')) \<Longrightarrow> tag \<noteq> 0 \<and> length r' \<le> length r"
    and skip: "\<And>tag r m ok m' r'. skip tag r m = (ok, m', r') \<Longrightarrow> length r' \<le> length r"
  shows "\<exists>ok m' r'. parse_loop w field skip input m = Some (ok, m', r') \<and> length r' \<le> length input"
proof (induction input arbitrary: m rule: length_induct)
  case (1 input)
  obtain tag ok rest where tag: "ReadTag w input = ((tag, ok), rest)" by (metis prod.exhaust)
  have next_round: "\<exists>ok m'' r'. parse_loop w field skip r m' = Some (ok, m'', r') \<and> length r' \<le> length input"
    if "tag \<noteq> 0" and "length r \<le> length rest" for r m'
  proof -
    have less: "length r < length input" using tag_consumes [OF tag] that by simp
    with "1.IH" obtain ok m'' r' where "parse_loop w field skip r m' = Some (ok, m'', r')" "length r' \<le> length r"
      by blast
    with less show ?thesis by fastforce
  qed
  show ?case
  proof (cases "if ok then field tag rest m else None")
    case None
    obtain good m' r where sk: "skip tag rest m = (good, m', r)" by (metis prod.exhaust)
    with skip have "length r \<le> length rest" by blast
    with None sk tag next_round [of r m'] show ?thesis
      by (subst parse_loop.simps) (use tag_consumes [OF tag] end_shrinks [OF tag] in fastforce)
  next
    case (Some res)
    with field [of tag rest m] obtain good m' r where f: "field tag rest m = Some (Some (good, m', r))" "ok"
      by (cases res) (auto split: if_splits)
    with shrink have "tag \<noteq> 0" "length r \<le> length rest" by blast+
    with f tag next_round [of r m'] tag_consumes [OF tag] show ?thesis
      by (subst parse_loop.simps) fastforce
  qed
qed

end

end
