(* ===== verification/Flow_Message.thy ===== *)
theory Flow_Message
  imports Wire_Format
begin

text \<open>
  The message classes that protoc generates from flow_message.proto (flow_message.pb.h, flow_message.pb.cc).
  A message is a record: a field with a has-bit is an option, \<open>None\<close> while the has-bit is clear, a
  repeated field is a list, and the last field holds the unknown fields of \<open>_internal_metadata_\<close>. A getter returns the default value of a field that is
  not set. Enumerations are their \<^typ>\<open>int\<close> values, as in the generated code.
\<close>

section \<open>Enumerations\<close>

definition LogEntry_ADD :: int where
  "LogEntry_ADD = 0"

definition LogEntry_COMMIT :: int where
  "LogEntry_COMMIT = 1"

definition REQUEST_VOTE_REQUEST :: int where
  "REQUEST_VOTE_REQUEST = 0"

definition REQUEST_VOTE_RESPONSE :: int where
  "REQUEST_VOTE_RESPONSE = 1"

definition APPEND_ENTRIES_REQUEST :: int where
  "APPEND_ENTRIES_REQUEST = 2"

definition APPEND_ENTRIES_RESPONSE :: int where
  "APPEND_ENTRIES_RESPONSE = 3"

definition CLIENT_PUT_MESSAGE :: int where
  "CLIENT_PUT_MESSAGE = 10"

definition CLIENT_COMMIT_MESSAGE :: int where
  "CLIENT_COMMIT_MESSAGE = 11"

definition SERVER_SEND_MESSAGE :: int where
  "SERVER_SEND_MESSAGE = 12"

definition CLIENT_OPEN_QUEUE :: int where
  "CLIENT_OPEN_QUEUE = 13"

definition CONSUMER_DISCONNECTED :: int where
  "CONSUMER_DISCONNECTED = 14"

definition CLIENT_PUT_MESSAGE_RESPONSE :: int where
  "CLIENT_PUT_MESSAGE_RESPONSE = 15"

definition CLIENT_OPEN_QUEUE_RESPONSE :: int where
  "CLIENT_OPEN_QUEUE_RESPONSE = 16"

definition UNKNOWN :: int where
  "UNKNOWN = 99"

lemmas message_types = REQUEST_VOTE_REQUEST_def REQUEST_VOTE_RESPONSE_def APPEND_ENTRIES_REQUEST_def
  APPEND_ENTRIES_RESPONSE_def CLIENT_PUT_MESSAGE_def CLIENT_COMMIT_MESSAGE_def SERVER_SEND_MESSAGE_def
  CLIENT_OPEN_QUEUE_def CONSUMER_DISCONNECTED_def CLIENT_PUT_MESSAGE_RESPONSE_def CLIENT_OPEN_QUEUE_RESPONSE_def
  UNKNOWN_def

definition MessageType_IsValid :: "int \<Rightarrow> bool" where
  "MessageType_IsValid value \<longleftrightarrow> value \<in> {0, 1, 2, 3, 10, 11, 12, 13, 14, 15, 16, 99}"

definition Status_SUCCESS :: int where
  "Status_SUCCESS = 0"

definition Status_ERROR :: int where
  "Status_ERROR = 1"

definition Status_IsValid :: "int \<Rightarrow> bool" where
  "Status_IsValid value \<longleftrightarrow> value \<in> {0, 1}"

section \<open>\<open>LogEntry\<close>\<close>

record LogEntry =
  le_index_fld :: "int option"
  le_term_fld :: "int option"
  le_message_id_fld :: "int option"
  le_operation_fld :: "int option"
  le_message_fld :: "string option"
  le_unknown :: string

definition LogEntry_new :: LogEntry where
  "LogEntry_new = \<lparr>le_index_fld = None, le_term_fld = None, le_message_id_fld = None, le_operation_fld = None, le_message_fld = None, le_unknown = []\<rparr>"

definition le_index :: "LogEntry \<Rightarrow> int" where
  "le_index m = opt_get 0 (le_index_fld m)"

definition le_term :: "LogEntry \<Rightarrow> int" where
  "le_term m = opt_get 0 (le_term_fld m)"

definition le_message_id :: "LogEntry \<Rightarrow> int" where
  "le_message_id m = opt_get 0 (le_message_id_fld m)"

definition le_operation :: "LogEntry \<Rightarrow> int" where
  "le_operation m = opt_get 0 (le_operation_fld m)"

definition le_message :: "LogEntry \<Rightarrow> string" where
  "le_message m = opt_get [] (le_message_fld m)"

definition LogEntry_Clear :: "LogEntry \<Rightarrow> LogEntry" where
  "LogEntry_Clear m = m\<lparr>le_index_fld := None, le_term_fld := None, le_message_id_fld := None,
       le_operation_fld := None, le_message_fld := None, le_unknown := []\<rparr>"

definition LogEntry_MergeFrom :: "wire \<Rightarrow> LogEntry \<Rightarrow> LogEntry \<Rightarrow> LogEntry" where
  "LogEntry_MergeFrom w m from_msg = m\<lparr>le_unknown := MergeUnknown w (le_unknown m) (le_unknown from_msg),
       le_index_fld := merge_opt (le_index_fld m) (le_index_fld from_msg),
       le_term_fld := merge_opt (le_term_fld m) (le_term_fld from_msg),
       le_message_id_fld := merge_opt (le_message_id_fld m) (le_message_id_fld from_msg),
       le_operation_fld := merge_opt (le_operation_fld m) (le_operation_fld from_msg),
       le_message_fld := merge_opt (le_message_fld m) (le_message_fld from_msg)\<rparr>"

definition LogEntry_CopyFrom :: "wire \<Rightarrow> LogEntry \<Rightarrow> LogEntry \<Rightarrow> LogEntry" where
  "LogEntry_CopyFrom w m from_msg = LogEntry_MergeFrom w (LogEntry_Clear m) from_msg"

definition LogEntry_IsInitialized :: "LogEntry \<Rightarrow> bool" where
  "LogEntry_IsInitialized m \<longleftrightarrow>
     le_index_fld m \<noteq> None \<and>
     le_term_fld m \<noteq> None \<and>
     le_message_id_fld m \<noteq> None \<and>
     le_operation_fld m \<noteq> None \<and>
     le_message_fld m \<noteq> None"

section \<open>\<open>FlowMessage_RequestVoteRequest\<close>\<close>

record RequestVoteRequest =
  rvq_term_fld :: "int option"
  rvq_candidate_id_fld :: "int option"
  rvq_last_log_index_fld :: "int option"
  rvq_last_log_term_fld :: "int option"
  rvq_unknown :: string

definition RequestVoteRequest_new :: RequestVoteRequest where
  "RequestVoteRequest_new = \<lparr>rvq_term_fld = None, rvq_candidate_id_fld = None, rvq_last_log_index_fld = None, rvq_last_log_term_fld = None, rvq_unknown = []\<rparr>"

definition rvq_term :: "RequestVoteRequest \<Rightarrow> int" where
  "rvq_term m = opt_get 0 (rvq_term_fld m)"

definition rvq_candidate_id :: "RequestVoteRequest \<Rightarrow> int" where
  "rvq_candidate_id m = opt_get 0 (rvq_candidate_id_fld m)"

definition rvq_last_log_index :: "RequestVoteRequest \<Rightarrow> int" where
  "rvq_last_log_index m = opt_get 0 (rvq_last_log_index_fld m)"

definition rvq_last_log_term :: "RequestVoteRequest \<Rightarrow> int" where
  "rvq_last_log_term m = opt_get 0 (rvq_last_log_term_fld m)"

definition RequestVoteRequest_Clear :: "RequestVoteRequest \<Rightarrow> RequestVoteRequest" where
  "RequestVoteRequest_Clear m = m\<lparr>rvq_term_fld := None, rvq_candidate_id_fld := None, rvq_last_log_index_fld := None,
       rvq_last_log_term_fld := None, rvq_unknown := []\<rparr>"

definition RequestVoteRequest_MergeFrom :: "wire \<Rightarrow> RequestVoteRequest \<Rightarrow> RequestVoteRequest \<Rightarrow> RequestVoteRequest" where
  "RequestVoteRequest_MergeFrom w m from_msg = m\<lparr>rvq_unknown := MergeUnknown w (rvq_unknown m) (rvq_unknown from_msg),
       rvq_term_fld := merge_opt (rvq_term_fld m) (rvq_term_fld from_msg),
       rvq_candidate_id_fld := merge_opt (rvq_candidate_id_fld m) (rvq_candidate_id_fld from_msg),
       rvq_last_log_index_fld := merge_opt (rvq_last_log_index_fld m) (rvq_last_log_index_fld from_msg),
       rvq_last_log_term_fld := merge_opt (rvq_last_log_term_fld m) (rvq_last_log_term_fld from_msg)\<rparr>"

definition RequestVoteRequest_CopyFrom :: "wire \<Rightarrow> RequestVoteRequest \<Rightarrow> RequestVoteRequest \<Rightarrow> RequestVoteRequest" where
  "RequestVoteRequest_CopyFrom w m from_msg = RequestVoteRequest_MergeFrom w (RequestVoteRequest_Clear m) from_msg"

definition RequestVoteRequest_IsInitialized :: "RequestVoteRequest \<Rightarrow> bool" where
  "RequestVoteRequest_IsInitialized m \<longleftrightarrow>
     rvq_term_fld m \<noteq> None \<and>
     rvq_candidate_id_fld m \<noteq> None \<and>
     rvq_last_log_index_fld m \<noteq> None \<and>
     rvq_last_log_term_fld m \<noteq> None"

section \<open>\<open>FlowMessage_RequestVoteResponse\<close>\<close>

record RequestVoteResponse =
  rvs_term_fld :: "int option"
  rvs_vote_result_term_granted_fld :: "int option"
  rvs_unknown :: string

definition RequestVoteResponse_new :: RequestVoteResponse where
  "RequestVoteResponse_new = \<lparr>rvs_term_fld = None, rvs_vote_result_term_granted_fld = None, rvs_unknown = []\<rparr>"

definition rvs_term :: "RequestVoteResponse \<Rightarrow> int" where
  "rvs_term m = opt_get 0 (rvs_term_fld m)"

definition rvs_vote_result_term_granted :: "RequestVoteResponse \<Rightarrow> int" where
  "rvs_vote_result_term_granted m = opt_get 0 (rvs_vote_result_term_granted_fld m)"

definition RequestVoteResponse_Clear :: "RequestVoteResponse \<Rightarrow> RequestVoteResponse" where
  "RequestVoteResponse_Clear m = m\<lparr>rvs_term_fld := None, rvs_vote_result_term_granted_fld := None, rvs_unknown := []\<rparr>"

definition RequestVoteResponse_MergeFrom :: "wire \<Rightarrow> RequestVoteResponse \<Rightarrow> RequestVoteResponse \<Rightarrow> RequestVoteResponse" where
  "RequestVoteResponse_MergeFrom w m from_msg = m\<lparr>rvs_unknown := MergeUnknown w (rvs_unknown m) (rvs_unknown from_msg),
       rvs_term_fld := merge_opt (rvs_term_fld m) (rvs_term_fld from_msg),
       rvs_vote_result_term_granted_fld := merge_opt (rvs_vote_result_term_granted_fld m) (rvs_vote_result_term_granted_fld from_msg)\<rparr>"

definition RequestVoteResponse_CopyFrom :: "wire \<Rightarrow> RequestVoteResponse \<Rightarrow> RequestVoteResponse \<Rightarrow> RequestVoteResponse" where
  "RequestVoteResponse_CopyFrom w m from_msg = RequestVoteResponse_MergeFrom w (RequestVoteResponse_Clear m) from_msg"

definition RequestVoteResponse_IsInitialized :: "RequestVoteResponse \<Rightarrow> bool" where
  "RequestVoteResponse_IsInitialized m \<longleftrightarrow>
     rvs_term_fld m \<noteq> None \<and>
     rvs_vote_result_term_granted_fld m \<noteq> None"

section \<open>\<open>FlowMessage_AppendEntriesRequest\<close>\<close>

record AppendEntriesRequest =
  aeq_term_fld :: "int option"
  aeq_leader_id_fld :: "int option"
  aeq_prev_log_index_fld :: "int option"
  aeq_prev_log_term_fld :: "int option"
  aeq_entries :: "LogEntry list"
  aeq_leader_commit_fld :: "int option"
  aeq_unknown :: string

definition AppendEntriesRequest_new :: AppendEntriesRequest where
  "AppendEntriesRequest_new = \<lparr>aeq_term_fld = None, aeq_leader_id_fld = None, aeq_prev_log_index_fld = None, aeq_prev_log_term_fld = None, aeq_entries = [], aeq_leader_commit_fld = None, aeq_unknown = []\<rparr>"

definition aeq_term :: "AppendEntriesRequest \<Rightarrow> int" where
  "aeq_term m = opt_get 0 (aeq_term_fld m)"

definition aeq_leader_id :: "AppendEntriesRequest \<Rightarrow> int" where
  "aeq_leader_id m = opt_get 0 (aeq_leader_id_fld m)"

definition aeq_prev_log_index :: "AppendEntriesRequest \<Rightarrow> int" where
  "aeq_prev_log_index m = opt_get 0 (aeq_prev_log_index_fld m)"

definition aeq_prev_log_term :: "AppendEntriesRequest \<Rightarrow> int" where
  "aeq_prev_log_term m = opt_get 0 (aeq_prev_log_term_fld m)"

definition aeq_leader_commit :: "AppendEntriesRequest \<Rightarrow> int" where
  "aeq_leader_commit m = opt_get 0 (aeq_leader_commit_fld m)"

definition AppendEntriesRequest_Clear :: "AppendEntriesRequest \<Rightarrow> AppendEntriesRequest" where
  "AppendEntriesRequest_Clear m = m\<lparr>aeq_term_fld := None, aeq_leader_id_fld := None, aeq_prev_log_index_fld := None,
       aeq_prev_log_term_fld := None, aeq_entries := [], aeq_leader_commit_fld := None,
       aeq_unknown := []\<rparr>"

definition AppendEntriesRequest_MergeFrom :: "wire \<Rightarrow> AppendEntriesRequest \<Rightarrow> AppendEntriesRequest \<Rightarrow> AppendEntriesRequest" where
  "AppendEntriesRequest_MergeFrom w m from_msg = m\<lparr>aeq_unknown := MergeUnknown w (aeq_unknown m) (aeq_unknown from_msg),
       aeq_term_fld := merge_opt (aeq_term_fld m) (aeq_term_fld from_msg),
       aeq_leader_id_fld := merge_opt (aeq_leader_id_fld m) (aeq_leader_id_fld from_msg),
       aeq_prev_log_index_fld := merge_opt (aeq_prev_log_index_fld m) (aeq_prev_log_index_fld from_msg),
       aeq_prev_log_term_fld := merge_opt (aeq_prev_log_term_fld m) (aeq_prev_log_term_fld from_msg),
       aeq_entries := aeq_entries m @ aeq_entries from_msg,
       aeq_leader_commit_fld := merge_opt (aeq_leader_commit_fld m) (aeq_leader_commit_fld from_msg)\<rparr>"

definition AppendEntriesRequest_CopyFrom :: "wire \<Rightarrow> AppendEntriesRequest \<Rightarrow> AppendEntriesRequest \<Rightarrow> AppendEntriesRequest" where
  "AppendEntriesRequest_CopyFrom w m from_msg = AppendEntriesRequest_MergeFrom w (AppendEntriesRequest_Clear m) from_msg"

definition AppendEntriesRequest_IsInitialized :: "AppendEntriesRequest \<Rightarrow> bool" where
  "AppendEntriesRequest_IsInitialized m \<longleftrightarrow>
     aeq_term_fld m \<noteq> None \<and>
     aeq_leader_id_fld m \<noteq> None \<and>
     aeq_prev_log_index_fld m \<noteq> None \<and>
     aeq_prev_log_term_fld m \<noteq> None \<and>
     aeq_leader_commit_fld m \<noteq> None \<and>
     list_all LogEntry_IsInitialized (aeq_entries m)"

section \<open>\<open>FlowMessage_AppendEntriesResponse\<close>\<close>

record AppendEntriesResponse =
  aes_term_fld :: "int option"
  aes_follower_id_fld :: "int option"
  aes_append_result_success_fld :: "int option"
  aes_last_index_synced_fld :: "int option"
  aes_unknown :: string

definition AppendEntriesResponse_new :: AppendEntriesResponse where
  "AppendEntriesResponse_new = \<lparr>aes_term_fld = None, aes_follower_id_fld = None, aes_append_result_success_fld = None, aes_last_index_synced_fld = None, aes_unknown = []\<rparr>"

definition aes_term :: "AppendEntriesResponse \<Rightarrow> int" where
  "aes_term m = opt_get 0 (aes_term_fld m)"

definition aes_follower_id :: "AppendEntriesResponse \<Rightarrow> int" where
  "aes_follower_id m = opt_get 0 (aes_follower_id_fld m)"

definition aes_append_result_success :: "AppendEntriesResponse \<Rightarrow> int" where
  "aes_append_result_success m = opt_get 0 (aes_append_result_success_fld m)"

definition aes_last_index_synced :: "AppendEntriesResponse \<Rightarrow> int" where
  "aes_last_index_synced m = opt_get 0 (aes_last_index_synced_fld m)"

definition AppendEntriesResponse_Clear :: "AppendEntriesResponse \<Rightarrow> AppendEntriesResponse" where
  "AppendEntriesResponse_Clear m = m\<lparr>aes_term_fld := None, aes_follower_id_fld := None, aes_append_result_success_fld := None,
       aes_last_index_synced_fld := None, aes_unknown := []\<rparr>"

definition AppendEntriesResponse_MergeFrom :: "wire \<Rightarrow> AppendEntriesResponse \<Rightarrow> AppendEntriesResponse \<Rightarrow> AppendEntriesResponse" where
  "AppendEntriesResponse_MergeFrom w m from_msg = m\<lparr>aes_unknown := MergeUnknown w (aes_unknown m) (aes_unknown from_msg),
       aes_term_fld := merge_opt (aes_term_fld m) (aes_term_fld from_msg),
       aes_follower_id_fld := merge_opt (aes_follower_id_fld m) (aes_follower_id_fld from_msg),
       aes_append_result_success_fld := merge_opt (aes_append_result_success_fld m) (aes_append_result_success_fld from_msg),
       aes_last_index_synced_fld := merge_opt (aes_last_index_synced_fld m) (aes_last_index_synced_fld from_msg)\<rparr>"

definition AppendEntriesResponse_CopyFrom :: "wire \<Rightarrow> AppendEntriesResponse \<Rightarrow> AppendEntriesResponse \<Rightarrow> AppendEntriesResponse" where
  "AppendEntriesResponse_CopyFrom w m from_msg = AppendEntriesResponse_MergeFrom w (AppendEntriesResponse_Clear m) from_msg"

definition AppendEntriesResponse_IsInitialized :: "AppendEntriesResponse \<Rightarrow> bool" where
  "AppendEntriesResponse_IsInitialized m \<longleftrightarrow>
     aes_term_fld m \<noteq> None \<and>
     aes_follower_id_fld m \<noteq> None \<and>
     aes_append_result_success_fld m \<noteq> None \<and>
     aes_last_index_synced_fld m \<noteq> None"

section \<open>\<open>FlowMessage_ClientPutMessage\<close>\<close>

record ClientPutMessage =
  cpm_message_fld :: "string option"
  cpm_message_id_fld :: "int option"
  cpm_unknown :: string

definition ClientPutMessage_new :: ClientPutMessage where
  "ClientPutMessage_new = \<lparr>cpm_message_fld = None, cpm_message_id_fld = None, cpm_unknown = []\<rparr>"

definition cpm_message :: "ClientPutMessage \<Rightarrow> string" where
  "cpm_message m = opt_get [] (cpm_message_fld m)"

definition cpm_message_id :: "ClientPutMessage \<Rightarrow> int" where
  "cpm_message_id m = opt_get 0 (cpm_message_id_fld m)"

definition ClientPutMessage_Clear :: "ClientPutMessage \<Rightarrow> ClientPutMessage" where
  "ClientPutMessage_Clear m = m\<lparr>cpm_message_fld := None, cpm_message_id_fld := None, cpm_unknown := []\<rparr>"

definition ClientPutMessage_MergeFrom :: "wire \<Rightarrow> ClientPutMessage \<Rightarrow> ClientPutMessage \<Rightarrow> ClientPutMessage" where
  "ClientPutMessage_MergeFrom w m from_msg = m\<lparr>cpm_unknown := MergeUnknown w (cpm_unknown m) (cpm_unknown from_msg),
       cpm_message_fld := merge_opt (cpm_message_fld m) (cpm_message_fld from_msg),
       cpm_message_id_fld := merge_opt (cpm_message_id_fld m) (cpm_message_id_fld from_msg)\<rparr>"

definition ClientPutMessage_CopyFrom :: "wire \<Rightarrow> ClientPutMessage \<Rightarrow> ClientPutMessage \<Rightarrow> ClientPutMessage" where
  "ClientPutMessage_CopyFrom w m from_msg = ClientPutMessage_MergeFrom w (ClientPutMessage_Clear m) from_msg"

definition ClientPutMessage_IsInitialized :: "ClientPutMessage \<Rightarrow> bool" where
  "ClientPutMessage_IsInitialized m \<longleftrightarrow>
     cpm_message_fld m \<noteq> None"

section \<open>\<open>FlowMessage_ClientPutMessageResponse\<close>\<close>

record ClientPutMessageResponse =
  cpr_message_id_fld :: "int option"
  cpr_status_fld :: "int option"
  cpr_error_message_fld :: "string option"
  cpr_unknown :: string

definition ClientPutMessageResponse_new :: ClientPutMessageResponse where
  "ClientPutMessageResponse_new = \<lparr>cpr_message_id_fld = None, cpr_status_fld = None, cpr_error_message_fld = None, cpr_unknown = []\<rparr>"

definition cpr_message_id :: "ClientPutMessageResponse \<Rightarrow> int" where
  "cpr_message_id m = opt_get 0 (cpr_message_id_fld m)"

definition cpr_status :: "ClientPutMessageResponse \<Rightarrow> int" where
  "cpr_status m = opt_get 0 (cpr_status_fld m)"

definition cpr_error_message :: "ClientPutMessageResponse \<Rightarrow> string" where
  "cpr_error_message m = opt_get [] (cpr_error_message_fld m)"

definition ClientPutMessageResponse_Clear :: "ClientPutMessageResponse \<Rightarrow> ClientPutMessageResponse" where
  "ClientPutMessageResponse_Clear m = m\<lparr>cpr_message_id_fld := None, cpr_status_fld := None, cpr_error_message_fld := None,
       cpr_unknown := []\<rparr>"

definition ClientPutMessageResponse_MergeFrom :: "wire \<Rightarrow> ClientPutMessageResponse \<Rightarrow> ClientPutMessageResponse \<Rightarrow> ClientPutMessageResponse" where
  "ClientPutMessageResponse_MergeFrom w m from_msg = m\<lparr>cpr_unknown := MergeUnknown w (cpr_unknown m) (cpr_unknown from_msg),
       cpr_message_id_fld := merge_opt (cpr_message_id_fld m) (cpr_message_id_fld from_msg),
       cpr_status_fld := merge_opt (cpr_status_fld m) (cpr_status_fld from_msg),
       cpr_error_message_fld := merge_opt (cpr_error_message_fld m) (cpr_error_message_fld from_msg)\<rparr>"

definition ClientPutMessageResponse_CopyFrom :: "wire \<Rightarrow> ClientPutMessageResponse \<Rightarrow> ClientPutMessageResponse \<Rightarrow> ClientPutMessageResponse" where
  "ClientPutMessageResponse_CopyFrom w m from_msg = ClientPutMessageResponse_MergeFrom w (ClientPutMessageResponse_Clear m) from_msg"

definition ClientPutMessageResponse_IsInitialized :: "ClientPutMessageResponse \<Rightarrow> bool" where
  "ClientPutMessageResponse_IsInitialized m \<longleftrightarrow>
     cpr_message_id_fld m \<noteq> None \<and>
     cpr_status_fld m \<noteq> None \<and>
     cpr_error_message_fld m \<noteq> None"

section \<open>\<open>FlowMessage_ClientCommitMessage\<close>\<close>

record ClientCommitMessage =
  ccm_message_id_fld :: "int option"
  ccm_unknown :: string

definition ClientCommitMessage_new :: ClientCommitMessage where
  "ClientCommitMessage_new = \<lparr>ccm_message_id_fld = None, ccm_unknown = []\<rparr>"

definition ccm_message_id :: "ClientCommitMessage \<Rightarrow> int" where
  "ccm_message_id m = opt_get 0 (ccm_message_id_fld m)"

definition ClientCommitMessage_Clear :: "ClientCommitMessage \<Rightarrow> ClientCommitMessage" where
  "ClientCommitMessage_Clear m = m\<lparr>ccm_message_id_fld := None, ccm_unknown := []\<rparr>"

definition ClientCommitMessage_MergeFrom :: "wire \<Rightarrow> ClientCommitMessage \<Rightarrow> ClientCommitMessage \<Rightarrow> ClientCommitMessage" where
  "ClientCommitMessage_MergeFrom w m from_msg = m\<lparr>ccm_unknown := MergeUnknown w (ccm_unknown m) (ccm_unknown from_msg),
       ccm_message_id_fld := merge_opt (ccm_message_id_fld m) (ccm_message_id_fld from_msg)\<rparr>"

definition ClientCommitMessage_CopyFrom :: "wire \<Rightarrow> ClientCommitMessage \<Rightarrow> ClientCommitMessage \<Rightarrow> ClientCommitMessage" where
  "ClientCommitMessage_CopyFrom w m from_msg = ClientCommitMessage_MergeFrom w (ClientCommitMessage_Clear m) from_msg"

definition ClientCommitMessage_IsInitialized :: "ClientCommitMessage \<Rightarrow> bool" where
  "ClientCommitMessage_IsInitialized m \<longleftrightarrow>
     ccm_message_id_fld m \<noteq> None"

section \<open>\<open>FlowMessage_ServerSendMessage\<close>\<close>

record ServerSendMessage =
  ssm_message_id_fld :: "int option"
  ssm_message_fld :: "string option"
  ssm_unknown :: string

definition ServerSendMessage_new :: ServerSendMessage where
  "ServerSendMessage_new = \<lparr>ssm_message_id_fld = None, ssm_message_fld = None, ssm_unknown = []\<rparr>"

definition ssm_message_id :: "ServerSendMessage \<Rightarrow> int" where
  "ssm_message_id m = opt_get 0 (ssm_message_id_fld m)"

definition ssm_message :: "ServerSendMessage \<Rightarrow> string" where
  "ssm_message m = opt_get [] (ssm_message_fld m)"

definition ServerSendMessage_Clear :: "ServerSendMessage \<Rightarrow> ServerSendMessage" where
  "ServerSendMessage_Clear m = m\<lparr>ssm_message_id_fld := None, ssm_message_fld := None, ssm_unknown := []\<rparr>"

definition ServerSendMessage_MergeFrom :: "wire \<Rightarrow> ServerSendMessage \<Rightarrow> ServerSendMessage \<Rightarrow> ServerSendMessage" where
  "ServerSendMessage_MergeFrom w m from_msg = m\<lparr>ssm_unknown := MergeUnknown w (ssm_unknown m) (ssm_unknown from_msg),
       ssm_message_id_fld := merge_opt (ssm_message_id_fld m) (ssm_message_id_fld from_msg),
       ssm_message_fld := merge_opt (ssm_message_fld m) (ssm_message_fld from_msg)\<rparr>"

definition ServerSendMessage_CopyFrom :: "wire \<Rightarrow> ServerSendMessage \<Rightarrow> ServerSendMessage \<Rightarrow> ServerSendMessage" where
  "ServerSendMessage_CopyFrom w m from_msg = ServerSendMessage_MergeFrom w (ServerSendMessage_Clear m) from_msg"

definition ServerSendMessage_IsInitialized :: "ServerSendMessage \<Rightarrow> bool" where
  "ServerSendMessage_IsInitialized m \<longleftrightarrow>
     ssm_message_id_fld m \<noteq> None \<and>
     ssm_message_fld m \<noteq> None"

section \<open>\<open>FlowMessage_ClientOpenQueue\<close>\<close>

record ClientOpenQueue =
  coq_open_mode_fld :: "int option"
  coq_queue_name_fld :: "string option"
  coq_unknown :: string

definition ClientOpenQueue_new :: ClientOpenQueue where
  "ClientOpenQueue_new = \<lparr>coq_open_mode_fld = None, coq_queue_name_fld = None, coq_unknown = []\<rparr>"

definition coq_open_mode :: "ClientOpenQueue \<Rightarrow> int" where
  "coq_open_mode m = opt_get 0 (coq_open_mode_fld m)"

definition coq_queue_name :: "ClientOpenQueue \<Rightarrow> string" where
  "coq_queue_name m = opt_get [] (coq_queue_name_fld m)"

definition ClientOpenQueue_Clear :: "ClientOpenQueue \<Rightarrow> ClientOpenQueue" where
  "ClientOpenQueue_Clear m = m\<lparr>coq_open_mode_fld := None, coq_queue_name_fld := None, coq_unknown := []\<rparr>"

definition ClientOpenQueue_MergeFrom :: "wire \<Rightarrow> ClientOpenQueue \<Rightarrow> ClientOpenQueue \<Rightarrow> ClientOpenQueue" where
  "ClientOpenQueue_MergeFrom w m from_msg = m\<lparr>coq_unknown := MergeUnknown w (coq_unknown m) (coq_unknown from_msg),
       coq_open_mode_fld := merge_opt (coq_open_mode_fld m) (coq_open_mode_fld from_msg),
       coq_queue_name_fld := merge_opt (coq_queue_name_fld m) (coq_queue_name_fld from_msg)\<rparr>"

definition ClientOpenQueue_CopyFrom :: "wire \<Rightarrow> ClientOpenQueue \<Rightarrow> ClientOpenQueue \<Rightarrow> ClientOpenQueue" where
  "ClientOpenQueue_CopyFrom w m from_msg = ClientOpenQueue_MergeFrom w (ClientOpenQueue_Clear m) from_msg"

definition ClientOpenQueue_IsInitialized :: "ClientOpenQueue \<Rightarrow> bool" where
  "ClientOpenQueue_IsInitialized m \<longleftrightarrow>
     coq_open_mode_fld m \<noteq> None \<and>
     coq_queue_name_fld m \<noteq> None"

section \<open>\<open>FlowMessage_ClientOpenQueueResponse\<close>\<close>

record ClientOpenQueueResponse =
  cor_status_fld :: "int option"
  cor_error_message_fld :: "string option"
  cor_leader_ip_fld :: "string option"
  cor_leader_port_fld :: "string option"
  cor_unknown :: string

definition ClientOpenQueueResponse_new :: ClientOpenQueueResponse where
  "ClientOpenQueueResponse_new = \<lparr>cor_status_fld = None, cor_error_message_fld = None, cor_leader_ip_fld = None, cor_leader_port_fld = None, cor_unknown = []\<rparr>"

definition cor_status :: "ClientOpenQueueResponse \<Rightarrow> int" where
  "cor_status m = opt_get 0 (cor_status_fld m)"

definition cor_error_message :: "ClientOpenQueueResponse \<Rightarrow> string" where
  "cor_error_message m = opt_get [] (cor_error_message_fld m)"

definition cor_leader_ip :: "ClientOpenQueueResponse \<Rightarrow> string" where
  "cor_leader_ip m = opt_get [] (cor_leader_ip_fld m)"

definition cor_leader_port :: "ClientOpenQueueResponse \<Rightarrow> string" where
  "cor_leader_port m = opt_get [] (cor_leader_port_fld m)"

definition ClientOpenQueueResponse_Clear :: "ClientOpenQueueResponse \<Rightarrow> ClientOpenQueueResponse" where
  "ClientOpenQueueResponse_Clear m = m\<lparr>cor_status_fld := None, cor_error_message_fld := None, cor_leader_ip_fld := None,
       cor_leader_port_fld := None, cor_unknown := []\<rparr>"

definition ClientOpenQueueResponse_MergeFrom :: "wire \<Rightarrow> ClientOpenQueueResponse \<Rightarrow> ClientOpenQueueResponse \<Rightarrow> ClientOpenQueueResponse" where
  "ClientOpenQueueResponse_MergeFrom w m from_msg = m\<lparr>cor_unknown := MergeUnknown w (cor_unknown m) (cor_unknown from_msg),
       cor_status_fld := merge_opt (cor_status_fld m) (cor_status_fld from_msg),
       cor_error_message_fld := merge_opt (cor_error_message_fld m) (cor_error_message_fld from_msg),
       cor_leader_ip_fld := merge_opt (cor_leader_ip_fld m) (cor_leader_ip_fld from_msg),
       cor_leader_port_fld := merge_opt (cor_leader_port_fld m) (cor_leader_port_fld from_msg)\<rparr>"

definition ClientOpenQueueResponse_CopyFrom :: "wire \<Rightarrow> ClientOpenQueueResponse \<Rightarrow> ClientOpenQueueResponse \<Rightarrow> ClientOpenQueueResponse" where
  "ClientOpenQueueResponse_CopyFrom w m from_msg = ClientOpenQueueResponse_MergeFrom w (ClientOpenQueueResponse_Clear m) from_msg"

definition ClientOpenQueueResponse_IsInitialized :: "ClientOpenQueueResponse \<Rightarrow> bool" where
  "ClientOpenQueueResponse_IsInitialized m \<longleftrightarrow>
     cor_status_fld m \<noteq> None \<and>
     cor_error_message_fld m \<noteq> None"

section \<open>\<open>FlowMessage_ConsumerDisconnected\<close>\<close>

record ConsumerDisconnected =
  cdc_client_id_fld :: "int option"
  cdc_unknown :: string

definition ConsumerDisconnected_new :: ConsumerDisconnected where
  "ConsumerDisconnected_new = \<lparr>cdc_client_id_fld = None, cdc_unknown = []\<rparr>"

definition cdc_client_id :: "ConsumerDisconnected \<Rightarrow> int" where
  "cdc_client_id m = opt_get 0 (cdc_client_id_fld m)"

definition ConsumerDisconnected_Clear :: "ConsumerDisconnected \<Rightarrow> ConsumerDisconnected" where
  "ConsumerDisconnected_Clear m = m\<lparr>cdc_client_id_fld := None, cdc_unknown := []\<rparr>"

definition ConsumerDisconnected_MergeFrom :: "wire \<Rightarrow> ConsumerDisconnected \<Rightarrow> ConsumerDisconnected \<Rightarrow> ConsumerDisconnected" where
  "ConsumerDisconnected_MergeFrom w m from_msg = m\<lparr>cdc_unknown := MergeUnknown w (cdc_unknown m) (cdc_unknown from_msg),
       cdc_client_id_fld := merge_opt (cdc_client_id_fld m) (cdc_client_id_fld from_msg)\<rparr>"

definition ConsumerDisconnected_CopyFrom :: "wire \<Rightarrow> ConsumerDisconnected \<Rightarrow> ConsumerDisconnected \<Rightarrow> ConsumerDisconnected" where
  "ConsumerDisconnected_CopyFrom w m from_msg = ConsumerDisconnected_MergeFrom w (ConsumerDisconnected_Clear m) from_msg"

definition ConsumerDisconnected_IsInitialized :: "ConsumerDisconnected \<Rightarrow> bool" where
  "ConsumerDisconnected_IsInitialized m \<longleftrightarrow>
     cdc_client_id_fld m \<noteq> None"

section \<open>\<open>FlowMessage\<close>\<close>

record FlowMessage =
  fm_type_fld :: "int option"
  fm_partition_id_fld :: "int option"
  fm_request_vote_request_fld :: "RequestVoteRequest option"
  fm_request_vote_response_fld :: "RequestVoteResponse option"
  fm_append_entries_request_fld :: "AppendEntriesRequest option"
  fm_append_entries_response_fld :: "AppendEntriesResponse option"
  fm_client_put_message_fld :: "ClientPutMessage option"
  fm_client_commit_message_fld :: "ClientCommitMessage option"
  fm_server_send_message_fld :: "ServerSendMessage option"
  fm_client_open_queue_fld :: "ClientOpenQueue option"
  fm_consumer_disconnected_fld :: "ConsumerDisconnected option"
  fm_client_open_queue_response_fld :: "ClientOpenQueueResponse option"
  fm_client_put_message_response_fld :: "ClientPutMessageResponse option"
  fm_unknown :: string

definition FlowMessage_new :: FlowMessage where
  "FlowMessage_new = \<lparr>fm_type_fld = None, fm_partition_id_fld = None, fm_request_vote_request_fld = None, fm_request_vote_response_fld = None, fm_append_entries_request_fld = None, fm_append_entries_response_fld = None, fm_client_put_message_fld = None, fm_client_commit_message_fld = None, fm_server_send_message_fld = None, fm_client_open_queue_fld = None, fm_consumer_disconnected_fld = None, fm_client_open_queue_response_fld = None, fm_client_put_message_response_fld = None, fm_unknown = []\<rparr>"

definition fm_type :: "FlowMessage \<Rightarrow> int" where
  "fm_type m = opt_get 0 (fm_type_fld m)"

definition fm_partition_id :: "FlowMessage \<Rightarrow> int" where
  "fm_partition_id m = opt_get 0 (fm_partition_id_fld m)"

definition fm_request_vote_request :: "FlowMessage \<Rightarrow> RequestVoteRequest" where
  "fm_request_vote_request m = opt_get RequestVoteRequest_new (fm_request_vote_request_fld m)"

definition fm_request_vote_response :: "FlowMessage \<Rightarrow> RequestVoteResponse" where
  "fm_request_vote_response m = opt_get RequestVoteResponse_new (fm_request_vote_response_fld m)"

definition fm_append_entries_request :: "FlowMessage \<Rightarrow> AppendEntriesRequest" where
  "fm_append_entries_request m = opt_get AppendEntriesRequest_new (fm_append_entries_request_fld m)"

definition fm_append_entries_response :: "FlowMessage \<Rightarrow> AppendEntriesResponse" where
  "fm_append_entries_response m = opt_get AppendEntriesResponse_new (fm_append_entries_response_fld m)"

definition fm_client_put_message :: "FlowMessage \<Rightarrow> ClientPutMessage" where
  "fm_client_put_message m = opt_get ClientPutMessage_new (fm_client_put_message_fld m)"

definition fm_client_commit_message :: "FlowMessage \<Rightarrow> ClientCommitMessage" where
  "fm_client_commit_message m = opt_get ClientCommitMessage_new (fm_client_commit_message_fld m)"

definition fm_server_send_message :: "FlowMessage \<Rightarrow> ServerSendMessage" where
  "fm_server_send_message m = opt_get ServerSendMessage_new (fm_server_send_message_fld m)"

definition fm_client_open_queue :: "FlowMessage \<Rightarrow> ClientOpenQueue" where
  "fm_client_open_queue m = opt_get ClientOpenQueue_new (fm_client_open_queue_fld m)"

definition fm_consumer_disconnected :: "FlowMessage \<Rightarrow> ConsumerDisconnected" where
  "fm_consumer_disconnected m = opt_get ConsumerDisconnected_new (fm_consumer_disconnected_fld m)"

definition fm_client_open_queue_response :: "FlowMessage \<Rightarrow> ClientOpenQueueResponse" where
  "fm_client_open_queue_response m = opt_get ClientOpenQueueResponse_new (fm_client_open_queue_response_fld m)"

definition fm_client_put_message_response :: "FlowMessage \<Rightarrow> ClientPutMessageResponse" where
  "fm_client_put_message_response m = opt_get ClientPutMessageResponse_new (fm_client_put_message_response_fld m)"

definition FlowMessage_Clear :: "FlowMessage \<Rightarrow> FlowMessage" where
  "FlowMessage_Clear m = m\<lparr>fm_type_fld := None, fm_partition_id_fld := None, fm_request_vote_request_fld := None,
       fm_request_vote_response_fld := None, fm_append_entries_request_fld := None, fm_append_entries_response_fld := None,
       fm_client_put_message_fld := None, fm_client_commit_message_fld := None, fm_server_send_message_fld := None,
       fm_client_open_queue_fld := None, fm_consumer_disconnected_fld := None, fm_client_open_queue_response_fld := None,
       fm_client_put_message_response_fld := None, fm_unknown := []\<rparr>"

definition FlowMessage_MergeFrom :: "wire \<Rightarrow> FlowMessage \<Rightarrow> FlowMessage \<Rightarrow> FlowMessage" where
  "FlowMessage_MergeFrom w m from_msg = m\<lparr>fm_unknown := MergeUnknown w (fm_unknown m) (fm_unknown from_msg),
       fm_type_fld := merge_opt (fm_type_fld m) (fm_type_fld from_msg),
       fm_partition_id_fld := merge_opt (fm_partition_id_fld m) (fm_partition_id_fld from_msg),
       fm_request_vote_request_fld := (case fm_request_vote_request_fld from_msg of None \<Rightarrow> fm_request_vote_request_fld m | Some x \<Rightarrow> Some (RequestVoteRequest_MergeFrom w (opt_get RequestVoteRequest_new (fm_request_vote_request_fld m)) x)),
       fm_request_vote_response_fld := (case fm_request_vote_response_fld from_msg of None \<Rightarrow> fm_request_vote_response_fld m | Some x \<Rightarrow> Some (RequestVoteResponse_MergeFrom w (opt_get RequestVoteResponse_new (fm_request_vote_response_fld m)) x)),
       fm_append_entries_request_fld := (case fm_append_entries_request_fld from_msg of None \<Rightarrow> fm_append_entries_request_fld m | Some x \<Rightarrow> Some (AppendEntriesRequest_MergeFrom w (opt_get AppendEntriesRequest_new (fm_append_entries_request_fld m)) x)),
       fm_append_entries_response_fld := (case fm_append_entries_response_fld from_msg of None \<Rightarrow> fm_append_entries_response_fld m | Some x \<Rightarrow> Some (AppendEntriesResponse_MergeFrom w (opt_get AppendEntriesResponse_new (fm_append_entries_response_fld m)) x)),
       fm_client_put_message_fld := (case fm_client_put_message_fld from_msg of None \<Rightarrow> fm_client_put_message_fld m | Some x \<Rightarrow> Some (ClientPutMessage_MergeFrom w (opt_get ClientPutMessage_new (fm_client_put_message_fld m)) x)),
       fm_client_commit_message_fld := (case fm_client_commit_message_fld from_msg of None \<Rightarrow> fm_client_commit_message_fld m | Some x \<Rightarrow> Some (ClientCommitMessage_MergeFrom w (opt_get ClientCommitMessage_new (fm_client_commit_message_fld m)) x)),
       fm_server_send_message_fld := (case fm_server_send_message_fld from_msg of None \<Rightarrow> fm_server_send_message_fld m | Some x \<Rightarrow> Some (ServerSendMessage_MergeFrom w (opt_get ServerSendMessage_new (fm_server_send_message_fld m)) x)),
       fm_client_open_queue_fld := (case fm_client_open_queue_fld from_msg of None \<Rightarrow> fm_client_open_queue_fld m | Some x \<Rightarrow> Some (ClientOpenQueue_MergeFrom w (opt_get ClientOpenQueue_new (fm_client_open_queue_fld m)) x)),
       fm_consumer_disconnected_fld := (case fm_consumer_disconnected_fld from_msg of None \<Rightarrow> fm_consumer_disconnected_fld m | Some x \<Rightarrow> Some (ConsumerDisconnected_MergeFrom w (opt_get ConsumerDisconnected_new (fm_consumer_disconnected_fld m)) x)),
       fm_client_open_queue_response_fld := (case fm_client_open_queue_response_fld from_msg of None \<Rightarrow> fm_client_open_queue_response_fld m | Some x \<Rightarrow> Some (ClientOpenQueueResponse_MergeFrom w (opt_get ClientOpenQueueResponse_new (fm_client_open_queue_response_fld m)) x)),
       fm_client_put_message_response_fld := (case fm_client_put_message_response_fld from_msg of None \<Rightarrow> fm_client_put_message_response_fld m | Some x \<Rightarrow> Some (ClientPutMessageResponse_MergeFrom w (opt_get ClientPutMessageResponse_new (fm_client_put_message_response_fld m)) x))\<rparr>"

definition FlowMessage_CopyFrom :: "wire \<Rightarrow> FlowMessage \<Rightarrow> FlowMessage \<Rightarrow> FlowMessage" where
  "FlowMessage_CopyFrom w m from_msg = FlowMessage_MergeFrom w (FlowMessage_Clear m) from_msg"

definition FlowMessage_IsInitialized :: "FlowMessage \<Rightarrow> bool" where
  "FlowMessage_IsInitialized m \<longleftrightarrow>
     fm_type_fld m \<noteq> None \<and>
     (case fm_request_vote_request_fld m of None \<Rightarrow> True | Some x \<Rightarrow> RequestVoteRequest_IsInitialized x) \<and>
     (case fm_request_vote_response_fld m of None \<Rightarrow> True | Some x \<Rightarrow> RequestVoteResponse_IsInitialized x) \<and>
     (case fm_append_entries_request_fld m of None \<Rightarrow> True | Some x \<Rightarrow> AppendEntriesRequest_IsInitialized x) \<and>
     (case fm_append_entries_response_fld m of None \<Rightarrow> True | Some x \<Rightarrow> AppendEntriesResponse_IsInitialized x) \<and>
     (case fm_client_put_message_fld m of None \<Rightarrow> True | Some x \<Rightarrow> ClientPutMessage_IsInitialized x) \<and>
     (case fm_client_commit_message_fld m of None \<Rightarrow> True | Some x \<Rightarrow> ClientCommitMessage_IsInitialized x) \<and>
     (case fm_server_send_message_fld m of None \<Rightarrow> True | Some x \<Rightarrow> ServerSendMessage_IsInitialized x) \<and>
     (case fm_client_open_queue_fld m of None \<Rightarrow> True | Some x \<Rightarrow> ClientOpenQueue_IsInitialized x) \<and>
     (case fm_consumer_disconnected_fld m of None \<Rightarrow> True | Some x \<Rightarrow> ConsumerDisconnected_IsInitialized x) \<and>
     (case fm_client_open_queue_response_fld m of None \<Rightarrow> True | Some x \<Rightarrow> ClientOpenQueueResponse_IsInitialized x) \<and>
     (case fm_client_put_message_response_fld m of None \<Rightarrow> True | Some x \<Rightarrow> ClientPutMessageResponse_IsInitialized x)"

end
