(* ===== verification/Flow_Codec.thy ===== *)
theory Flow_Codec
  imports Flow_Message
begin

text \<open>
  The serializers, the size computations and the parsers of the generated message classes (flow_message.pb.cc),
  over the library functions of \<open>wire\<close>.
\<close>

definition put_unknown :: "wire \<Rightarrow> string \<Rightarrow> string" where
  "put_unknown w u = (if u \<noteq> [] then SerializeUnknownFields w u else [])"

definition put_unknown_to_array :: "wire \<Rightarrow> string \<Rightarrow> string" where
  "put_unknown_to_array w u = (if u \<noteq> [] then SerializeUnknownFieldsToArray w u else [])"

section \<open>\<open>LogEntry\<close>\<close>

definition LogEntry_RequiredFieldsByteSizeFallback :: "wire \<Rightarrow> LogEntry \<Rightarrow> nat" where
  "LogEntry_RequiredFieldsByteSizeFallback w m =
     size_opt (\<lambda>s. LengthDelimitedSize w (length s)) (le_message_fld m) +
     size_opt (Int32Size w) (le_index_fld m) +
     size_opt (Int32Size w) (le_term_fld m) +
     size_opt (Int64Size w) (le_message_id_fld m) +
     size_opt (Int32Size w) (le_operation_fld m)"

definition LogEntry_ByteSizeLong :: "wire \<Rightarrow> LogEntry \<Rightarrow> nat" where
  "LogEntry_ByteSizeLong w m =
     (if le_unknown m \<noteq> [] then ComputeUnknownFieldsSize w (le_unknown m) else 0) +
     (if le_message_fld m \<noteq> None \<and> le_index_fld m \<noteq> None \<and> le_term_fld m \<noteq> None \<and> le_message_id_fld m \<noteq> None \<and> le_operation_fld m \<noteq> None
      then (1 + LengthDelimitedSize w (length (le_message m))) + (1 + Int32Size w (le_index m)) + (1 + Int32Size w (le_term m)) + (1 + Int64Size w (le_message_id m)) + (1 + Int32Size w (le_operation m))
      else LogEntry_RequiredFieldsByteSizeFallback w m)"

definition LogEntry_SerializeWithCachedSizes :: "wire \<Rightarrow> LogEntry \<Rightarrow> string" where
  "LogEntry_SerializeWithCachedSizes w m =
     put_opt (WriteInt32 w 1) (le_index_fld m) @
     put_opt (WriteInt32 w 2) (le_term_fld m) @
     put_opt (WriteInt64 w 3) (le_message_id_fld m) @
     put_opt (WriteInt32 w 4) (le_operation_fld m) @
     put_opt (WriteString w 5) (le_message_fld m) @
     put_unknown w (le_unknown m)"

definition LogEntry_InternalSerializeWithCachedSizesToArray :: "wire \<Rightarrow> LogEntry \<Rightarrow> string" where
  "LogEntry_InternalSerializeWithCachedSizesToArray w m =
     put_opt (WriteInt32ToArray w 1) (le_index_fld m) @
     put_opt (WriteInt32ToArray w 2) (le_term_fld m) @
     put_opt (WriteInt64ToArray w 3) (le_message_id_fld m) @
     put_opt (WriteInt32ToArray w 4) (le_operation_fld m) @
     put_opt (WriteStringToArray w 5) (le_message_fld m) @
     put_unknown_to_array w (le_unknown m)"

text \<open>The switch of \<open>MergePartialFromCodedStream\<close>.\<close>

definition LogEntry_field :: "wire \<Rightarrow> nat \<Rightarrow> string \<Rightarrow> LogEntry \<Rightarrow> LogEntry parsed option option" where
  "LogEntry_field w tag r m =
     (if tag div 8 = 1 then
        if tag mod 256 = 8 then Some (Some (case ReadInt32 w (opt_get 0 (le_index_fld m)) r of (ok, v, r') \<Rightarrow> (ok, m\<lparr>le_index_fld := Some v\<rparr>, r'))) else None
      else if tag div 8 = 2 then
        if tag mod 256 = 16 then Some (Some (case ReadInt32 w (opt_get 0 (le_term_fld m)) r of (ok, v, r') \<Rightarrow> (ok, m\<lparr>le_term_fld := Some v\<rparr>, r'))) else None
      else if tag div 8 = 3 then
        if tag mod 256 = 24 then Some (Some (case ReadInt64 w (opt_get 0 (le_message_id_fld m)) r of (ok, v, r') \<Rightarrow> (ok, m\<lparr>le_message_id_fld := Some v\<rparr>, r'))) else None
      else if tag div 8 = 4 then
        if tag mod 256 = 32 then Some (Some (case ReadInt32 w (opt_get 0 (le_operation_fld m)) r of (ok, v, r') \<Rightarrow> (ok, m\<lparr>le_operation_fld := Some v\<rparr>, r'))) else None
      else if tag div 8 = 5 then
        if tag mod 256 = 42 then Some (Some (case ReadString w (opt_get [] (le_message_fld m)) r of (ok, v, r') \<Rightarrow> (ok, m\<lparr>le_message_fld := Some v\<rparr>, r'))) else None
      else None)"

definition LogEntry_skip :: "wire \<Rightarrow> nat \<Rightarrow> string \<Rightarrow> LogEntry \<Rightarrow> LogEntry parsed" where
  "LogEntry_skip w tag r m =
     (case SkipField w tag r (le_unknown m) of (ok, u, r') \<Rightarrow> (ok, m\<lparr>le_unknown := u\<rparr>, r'))"

definition LogEntry_MergePartialFromCodedStream :: "wire \<Rightarrow> string \<Rightarrow> LogEntry \<Rightarrow> LogEntry parsed option" where
  "LogEntry_MergePartialFromCodedStream w = parse_loop w (LogEntry_field w) (LogEntry_skip w)"

section \<open>\<open>FlowMessage_RequestVoteRequest\<close>\<close>

definition RequestVoteRequest_RequiredFieldsByteSizeFallback :: "wire \<Rightarrow> RequestVoteRequest \<Rightarrow> nat" where
  "RequestVoteRequest_RequiredFieldsByteSizeFallback w m =
     size_opt (Int32Size w) (rvq_term_fld m) +
     size_opt (Int32Size w) (rvq_candidate_id_fld m) +
     size_opt (Int32Size w) (rvq_last_log_index_fld m) +
     size_opt (Int32Size w) (rvq_last_log_term_fld m)"

definition RequestVoteRequest_ByteSizeLong :: "wire \<Rightarrow> RequestVoteRequest \<Rightarrow> nat" where
  "RequestVoteRequest_ByteSizeLong w m =
     (if rvq_unknown m \<noteq> [] then ComputeUnknownFieldsSize w (rvq_unknown m) else 0) +
     (if rvq_term_fld m \<noteq> None \<and> rvq_candidate_id_fld m \<noteq> None \<and> rvq_last_log_index_fld m \<noteq> None \<and> rvq_last_log_term_fld m \<noteq> None
      then (1 + Int32Size w (rvq_term m)) + (1 + Int32Size w (rvq_candidate_id m)) + (1 + Int32Size w (rvq_last_log_index m)) + (1 + Int32Size w (rvq_last_log_term m))
      else RequestVoteRequest_RequiredFieldsByteSizeFallback w m)"

definition RequestVoteRequest_SerializeWithCachedSizes :: "wire \<Rightarrow> RequestVoteRequest \<Rightarrow> string" where
  "RequestVoteRequest_SerializeWithCachedSizes w m =
     put_opt (WriteInt32 w 1) (rvq_term_fld m) @
     put_opt (WriteInt32 w 2) (rvq_candidate_id_fld m) @
     put_opt (WriteInt32 w 3) (rvq_last_log_index_fld m) @
     put_opt (WriteInt32 w 4) (rvq_last_log_term_fld m) @
     put_unknown w (rvq_unknown m)"

definition RequestVoteRequest_InternalSerializeWithCachedSizesToArray :: "wire \<Rightarrow> RequestVoteRequest \<Rightarrow> string" where
  "RequestVoteRequest_InternalSerializeWithCachedSizesToArray w m =
     put_opt (WriteInt32ToArray w 1) (rvq_term_fld m) @
     put_opt (WriteInt32ToArray w 2) (rvq_candidate_id_fld m) @
     put_opt (WriteInt32ToArray w 3) (rvq_last_log_index_fld m) @
     put_opt (WriteInt32ToArray w 4) (rvq_last_log_term_fld m) @
     put_unknown_to_array w (rvq_unknown m)"

text \<open>The switch of \<open>MergePartialFromCodedStream\<close>.\<close>

definition RequestVoteRequest_field :: "wire \<Rightarrow> nat \<Rightarrow> string \<Rightarrow> RequestVoteRequest \<Rightarrow> RequestVoteRequest parsed option option" where
  "RequestVoteRequest_field w tag r m =
     (if tag div 8 = 1 then
        if tag mod 256 = 8 then Some (Some (case ReadInt32 w (opt_get 0 (rvq_term_fld m)) r of (ok, v, r') \<Rightarrow> (ok, m\<lparr>rvq_term_fld := Some v\<rparr>, r'))) else None
      else if tag div 8 = 2 then
        if tag mod 256 = 16 then Some (Some (case ReadInt32 w (opt_get 0 (rvq_candidate_id_fld m)) r of (ok, v, r') \<Rightarrow> (ok, m\<lparr>rvq_candidate_id_fld := Some v\<rparr>, r'))) else None
      else if tag div 8 = 3 then
        if tag mod 256 = 24 then Some (Some (case ReadInt32 w (opt_get 0 (rvq_last_log_index_fld m)) r of (ok, v, r') \<Rightarrow> (ok, m\<lparr>rvq_last_log_index_fld := Some v\<rparr>, r'))) else None
      else if tag div 8 = 4 then
        if tag mod 256 = 32 then Some (Some (case ReadInt32 w (opt_get 0 (rvq_last_log_term_fld m)) r of (ok, v, r') \<Rightarrow> (ok, m\<lparr>rvq_last_log_term_fld := Some v\<rparr>, r'))) else None
      else None)"

definition RequestVoteRequest_skip :: "wire \<Rightarrow> nat \<Rightarrow> string \<Rightarrow> RequestVoteRequest \<Rightarrow> RequestVoteRequest parsed" where
  "RequestVoteRequest_skip w tag r m =
     (case SkipField w tag r (rvq_unknown m) of (ok, u, r') \<Rightarrow> (ok, m\<lparr>rvq_unknown := u\<rparr>, r'))"

definition RequestVoteRequest_MergePartialFromCodedStream :: "wire \<Rightarrow> string \<Rightarrow> RequestVoteRequest \<Rightarrow> RequestVoteRequest parsed option" where
  "RequestVoteRequest_MergePartialFromCodedStream w = parse_loop w (RequestVoteRequest_field w) (RequestVoteRequest_skip w)"

section \<open>\<open>FlowMessage_RequestVoteResponse\<close>\<close>

definition RequestVoteResponse_RequiredFieldsByteSizeFallback :: "wire \<Rightarrow> RequestVoteResponse \<Rightarrow> nat" where
  "RequestVoteResponse_RequiredFieldsByteSizeFallback w m =
     size_opt (Int32Size w) (rvs_term_fld m) +
     size_opt (Int32Size w) (rvs_vote_result_term_granted_fld m)"

definition RequestVoteResponse_ByteSizeLong :: "wire \<Rightarrow> RequestVoteResponse \<Rightarrow> nat" where
  "RequestVoteResponse_ByteSizeLong w m =
     (if rvs_unknown m \<noteq> [] then ComputeUnknownFieldsSize w (rvs_unknown m) else 0) +
     (if rvs_term_fld m \<noteq> None \<and> rvs_vote_result_term_granted_fld m \<noteq> None
      then (1 + Int32Size w (rvs_term m)) + (1 + Int32Size w (rvs_vote_result_term_granted m))
      else RequestVoteResponse_RequiredFieldsByteSizeFallback w m)"

definition RequestVoteResponse_SerializeWithCachedSizes :: "wire \<Rightarrow> RequestVoteResponse \<Rightarrow> string" where
  "RequestVoteResponse_SerializeWithCachedSizes w m =
     put_opt (WriteInt32 w 1) (rvs_term_fld m) @
     put_opt (WriteInt32 w 2) (rvs_vote_result_term_granted_fld m) @
     put_unknown w (rvs_unknown m)"

definition RequestVoteResponse_InternalSerializeWithCachedSizesToArray :: "wire \<Rightarrow> RequestVoteResponse \<Rightarrow> string" where
  "RequestVoteResponse_InternalSerializeWithCachedSizesToArray w m =
     put_opt (WriteInt32ToArray w 1) (rvs_term_fld m) @
     put_opt (WriteInt32ToArray w 2) (rvs_vote_result_term_granted_fld m) @
     put_unknown_to_array w (rvs_unknown m)"

text \<open>The switch of \<open>MergePartialFromCodedStream\<close>.\<close>

definition RequestVoteResponse_field :: "wire \<Rightarrow> nat \<Rightarrow> string \<Rightarrow> RequestVoteResponse \<Rightarrow> RequestVoteResponse parsed option option" where
  "RequestVoteResponse_field w tag r m =
     (if tag div 8 = 1 then
        if tag mod 256 = 8 then Some (Some (case ReadInt32 w (opt_get 0 (rvs_term_fld m)) r of (ok, v, r') \<Rightarrow> (ok, m\<lparr>rvs_term_fld := Some v\<rparr>, r'))) else None
      else if tag div 8 = 2 then
        if tag mod 256 = 16 then Some (Some (case ReadInt32 w (opt_get 0 (rvs_vote_result_term_granted_fld m)) r of (ok, v, r') \<Rightarrow> (ok, m\<lparr>rvs_vote_result_term_granted_fld := Some v\<rparr>, r'))) else None
      else None)"

definition RequestVoteResponse_skip :: "wire \<Rightarrow> nat \<Rightarrow> string \<Rightarrow> RequestVoteResponse \<Rightarrow> RequestVoteResponse parsed" where
  "RequestVoteResponse_skip w tag r m =
     (case SkipField w tag r (rvs_unknown m) of (ok, u, r') \<Rightarrow> (ok, m\<lparr>rvs_unknown := u\<rparr>, r'))"

definition RequestVoteResponse_MergePartialFromCodedStream :: "wire \<Rightarrow> string \<Rightarrow> RequestVoteResponse \<Rightarrow> RequestVoteResponse parsed option" where
  "RequestVoteResponse_MergePartialFromCodedStream w = parse_loop w (RequestVoteResponse_field w) (RequestVoteResponse_skip w)"

section \<open>\<open>FlowMessage_AppendEntriesRequest\<close>\<close>

definition AppendEntriesRequest_RequiredFieldsByteSizeFallback :: "wire \<Rightarrow> AppendEntriesRequest \<Rightarrow> nat" where
  "AppendEntriesRequest_RequiredFieldsByteSizeFallback w m =
     size_opt (Int32Size w) (aeq_term_fld m) +
     size_opt (Int32Size w) (aeq_leader_id_fld m) +
     size_opt (Int32Size w) (aeq_prev_log_index_fld m) +
     size_opt (Int32Size w) (aeq_prev_log_term_fld m) +
     size_opt (Int32Size w) (aeq_leader_commit_fld m)"

definition AppendEntriesRequest_ByteSizeLong :: "wire \<Rightarrow> AppendEntriesRequest \<Rightarrow> nat" where
  "AppendEntriesRequest_ByteSizeLong w m =
     (if aeq_unknown m \<noteq> [] then ComputeUnknownFieldsSize w (aeq_unknown m) else 0) +
     (if aeq_term_fld m \<noteq> None \<and> aeq_leader_id_fld m \<noteq> None \<and> aeq_prev_log_index_fld m \<noteq> None \<and> aeq_prev_log_term_fld m \<noteq> None \<and> aeq_leader_commit_fld m \<noteq> None
      then (1 + Int32Size w (aeq_term m)) + (1 + Int32Size w (aeq_leader_id m)) + (1 + Int32Size w (aeq_prev_log_index m)) + (1 + Int32Size w (aeq_prev_log_term m)) + (1 + Int32Size w (aeq_leader_commit m))
      else AppendEntriesRequest_RequiredFieldsByteSizeFallback w m) +
     size_all (\<lambda>x. LengthDelimitedSize w (LogEntry_ByteSizeLong w x)) (aeq_entries m)"

definition AppendEntriesRequest_SerializeWithCachedSizes :: "wire \<Rightarrow> AppendEntriesRequest \<Rightarrow> string" where
  "AppendEntriesRequest_SerializeWithCachedSizes w m =
     put_opt (WriteInt32 w 1) (aeq_term_fld m) @
     put_opt (WriteInt32 w 2) (aeq_leader_id_fld m) @
     put_opt (WriteInt32 w 3) (aeq_prev_log_index_fld m) @
     put_opt (WriteInt32 w 4) (aeq_prev_log_term_fld m) @
     put_all (\<lambda>x. WriteMessage w 5 (LogEntry_SerializeWithCachedSizes w x)) (aeq_entries m) @
     put_opt (WriteInt32 w 6) (aeq_leader_commit_fld m) @
     put_unknown w (aeq_unknown m)"

definition AppendEntriesRequest_InternalSerializeWithCachedSizesToArray :: "wire \<Rightarrow> AppendEntriesRequest \<Rightarrow> string" where
  "AppendEntriesRequest_InternalSerializeWithCachedSizesToArray w m =
     put_opt (WriteInt32ToArray w 1) (aeq_term_fld m) @
     put_opt (WriteInt32ToArray w 2) (aeq_leader_id_fld m) @
     put_opt (WriteInt32ToArray w 3) (aeq_prev_log_index_fld m) @
     put_opt (WriteInt32ToArray w 4) (aeq_prev_log_term_fld m) @
     put_all (\<lambda>x. WriteMessageToArray w 5 (LogEntry_InternalSerializeWithCachedSizesToArray w x)) (aeq_entries m) @
     put_opt (WriteInt32ToArray w 6) (aeq_leader_commit_fld m) @
     put_unknown_to_array w (aeq_unknown m)"

text \<open>The switch of \<open>MergePartialFromCodedStream\<close>.\<close>

definition AppendEntriesRequest_field :: "wire \<Rightarrow> nat \<Rightarrow> string \<Rightarrow> AppendEntriesRequest \<Rightarrow> AppendEntriesRequest parsed option option" where
  "AppendEntriesRequest_field w tag r m =
     (if tag div 8 = 1 then
        if tag mod 256 = 8 then Some (Some (case ReadInt32 w (opt_get 0 (aeq_term_fld m)) r of (ok, v, r') \<Rightarrow> (ok, m\<lparr>aeq_term_fld := Some v\<rparr>, r'))) else None
      else if tag div 8 = 2 then
        if tag mod 256 = 16 then Some (Some (case ReadInt32 w (opt_get 0 (aeq_leader_id_fld m)) r of (ok, v, r') \<Rightarrow> (ok, m\<lparr>aeq_leader_id_fld := Some v\<rparr>, r'))) else None
      else if tag div 8 = 3 then
        if tag mod 256 = 24 then Some (Some (case ReadInt32 w (opt_get 0 (aeq_prev_log_index_fld m)) r of (ok, v, r') \<Rightarrow> (ok, m\<lparr>aeq_prev_log_index_fld := Some v\<rparr>, r'))) else None
      else if tag div 8 = 4 then
        if tag mod 256 = 32 then Some (Some (case ReadInt32 w (opt_get 0 (aeq_prev_log_term_fld m)) r of (ok, v, r') \<Rightarrow> (ok, m\<lparr>aeq_prev_log_term_fld := Some v\<rparr>, r'))) else None
      else if tag div 8 = 5 then
        if tag mod 256 = 42 then Some (map_option (\<lambda>(ok, v, r'). (ok, m\<lparr>aeq_entries := aeq_entries m @ [v]\<rparr>, r'))
          (ReadMessage w (LogEntry_MergePartialFromCodedStream w) LogEntry_new r)) else None
      else if tag div 8 = 6 then
        if tag mod 256 = 48 then Some (Some (case ReadInt32 w (opt_get 0 (aeq_leader_commit_fld m)) r of (ok, v, r') \<Rightarrow> (ok, m\<lparr>aeq_leader_commit_fld := Some v\<rparr>, r'))) else None
      else None)"

definition AppendEntriesRequest_skip :: "wire \<Rightarrow> nat \<Rightarrow> string \<Rightarrow> AppendEntriesRequest \<Rightarrow> AppendEntriesRequest parsed" where
  "AppendEntriesRequest_skip w tag r m =
     (case SkipField w tag r (aeq_unknown m) of (ok, u, r') \<Rightarrow> (ok, m\<lparr>aeq_unknown := u\<rparr>, r'))"

definition AppendEntriesRequest_MergePartialFromCodedStream :: "wire \<Rightarrow> string \<Rightarrow> AppendEntriesRequest \<Rightarrow> AppendEntriesRequest parsed option" where
  "AppendEntriesRequest_MergePartialFromCodedStream w = parse_loop w (AppendEntriesRequest_field w) (AppendEntriesRequest_skip w)"

section \<open>\<open>FlowMessage_AppendEntriesResponse\<close>\<close>

definition AppendEntriesResponse_RequiredFieldsByteSizeFallback :: "wire \<Rightarrow> AppendEntriesResponse \<Rightarrow> nat" where
  "AppendEntriesResponse_RequiredFieldsByteSizeFallback w m =
     size_opt (Int32Size w) (aes_term_fld m) +
     size_opt (Int32Size w) (aes_follower_id_fld m) +
     size_opt (Int32Size w) (aes_append_result_success_fld m) +
     size_opt (Int32Size w) (aes_last_index_synced_fld m)"

definition AppendEntriesResponse_ByteSizeLong :: "wire \<Rightarrow> AppendEntriesResponse \<Rightarrow> nat" where
  "AppendEntriesResponse_ByteSizeLong w m =
     (if aes_unknown m \<noteq> [] then ComputeUnknownFieldsSize w (aes_unknown m) else 0) +
     (if aes_term_fld m \<noteq> None \<and> aes_follower_id_fld m \<noteq> None \<and> aes_append_result_success_fld m \<noteq> None \<and> aes_last_index_synced_fld m \<noteq> None
      then (1 + Int32Size w (aes_term m)) + (1 + Int32Size w (aes_follower_id m)) + (1 + Int32Size w (aes_append_result_success m)) + (1 + Int32Size w (aes_last_index_synced m))
      else AppendEntriesResponse_RequiredFieldsByteSizeFallback w m)"

definition AppendEntriesResponse_SerializeWithCachedSizes :: "wire \<Rightarrow> AppendEntriesResponse \<Rightarrow> string" where
  "AppendEntriesResponse_SerializeWithCachedSizes w m =
     put_opt (WriteInt32 w 1) (aes_term_fld m) @
     put_opt (WriteInt32 w 2) (aes_follower_id_fld m) @
     put_opt (WriteInt32 w 3) (aes_append_result_success_fld m) @
     put_opt (WriteInt32 w 4) (aes_last_index_synced_fld m) @
     put_unknown w (aes_unknown m)"

definition AppendEntriesResponse_InternalSerializeWithCachedSizesToArray :: "wire \<Rightarrow> AppendEntriesResponse \<Rightarrow> string" where
  "AppendEntriesResponse_InternalSerializeWithCachedSizesToArray w m =
     put_opt (WriteInt32ToArray w 1) (aes_term_fld m) @
     put_opt (WriteInt32ToArray w 2) (aes_follower_id_fld m) @
     put_opt (WriteInt32ToArray w 3) (aes_append_result_success_fld m) @
     put_opt (WriteInt32ToArray w 4) (aes_last_index_synced_fld m) @
     put_unknown_to_array w (aes_unknown m)"

text \<open>The switch of \<open>MergePartialFromCodedStream\<close>.\<close>

definition AppendEntriesResponse_field :: "wire \<Rightarrow> nat \<Rightarrow> string \<Rightarrow> AppendEntriesResponse \<Rightarrow> AppendEntriesResponse parsed option option" where
  "AppendEntriesResponse_field w tag r m =
     (if tag div 8 = 1 then
        if tag mod 256 = 8 then Some (Some (case ReadInt32 w (opt_get 0 (aes_term_fld m)) r of (ok, v, r') \<Rightarrow> (ok, m\<lparr>aes_term_fld := Some v\<rparr>, r'))) else None
      else if tag div 8 = 2 then
        if tag mod 256 = 16 then Some (Some (case ReadInt32 w (opt_get 0 (aes_follower_id_fld m)) r of (ok, v, r') \<Rightarrow> (ok, m\<lparr>aes_follower_id_fld := Some v\<rparr>, r'))) else None
      else if tag div 8 = 3 then
        if tag mod 256 = 24 then Some (Some (case ReadInt32 w (opt_get 0 (aes_append_result_success_fld m)) r of (ok, v, r') \<Rightarrow> (ok, m\<lparr>aes_append_result_success_fld := Some v\<rparr>, r'))) else None
      else if tag div 8 = 4 then
        if tag mod 256 = 32 then Some (Some (case ReadInt32 w (opt_get 0 (aes_last_index_synced_fld m)) r of (ok, v, r') \<Rightarrow> (ok, m\<lparr>aes_last_index_synced_fld := Some v\<rparr>, r'))) else None
      else None)"

definition AppendEntriesResponse_skip :: "wire \<Rightarrow> nat \<Rightarrow> string \<Rightarrow> AppendEntriesResponse \<Rightarrow> AppendEntriesResponse parsed" where
  "AppendEntriesResponse_skip w tag r m =
     (case SkipField w tag r (aes_unknown m) of (ok, u, r') \<Rightarrow> (ok, m\<lparr>aes_unknown := u\<rparr>, r'))"

definition AppendEntriesResponse_MergePartialFromCodedStream :: "wire \<Rightarrow> string \<Rightarrow> AppendEntriesResponse \<Rightarrow> AppendEntriesResponse parsed option" where
  "AppendEntriesResponse_MergePartialFromCodedStream w = parse_loop w (AppendEntriesResponse_field w) (AppendEntriesResponse_skip w)"

section \<open>\<open>FlowMessage_ClientPutMessage\<close>\<close>

definition ClientPutMessage_ByteSizeLong :: "wire \<Rightarrow> ClientPutMessage \<Rightarrow> nat" where
  "ClientPutMessage_ByteSizeLong w m =
     (if cpm_unknown m \<noteq> [] then ComputeUnknownFieldsSize w (cpm_unknown m) else 0) +
     size_opt (\<lambda>s. LengthDelimitedSize w (length s)) (cpm_message_fld m) +
     size_opt (Int64Size w) (cpm_message_id_fld m)"

definition ClientPutMessage_SerializeWithCachedSizes :: "wire \<Rightarrow> ClientPutMessage \<Rightarrow> string" where
  "ClientPutMessage_SerializeWithCachedSizes w m =
     put_opt (WriteString w 1) (cpm_message_fld m) @
     put_opt (WriteInt64 w 2) (cpm_message_id_fld m) @
     put_unknown w (cpm_unknown m)"

definition ClientPutMessage_InternalSerializeWithCachedSizesToArray :: "wire \<Rightarrow> ClientPutMessage \<Rightarrow> string" where
  "ClientPutMessage_InternalSerializeWithCachedSizesToArray w m =
     put_opt (WriteStringToArray w 1) (cpm_message_fld m) @
     put_opt (WriteInt64ToArray w 2) (cpm_message_id_fld m) @
     put_unknown_to_array w (cpm_unknown m)"

text \<open>The switch of \<open>MergePartialFromCodedStream\<close>.\<close>

definition ClientPutMessage_field :: "wire \<Rightarrow> nat \<Rightarrow> string \<Rightarrow> ClientPutMessage \<Rightarrow> ClientPutMessage parsed option option" where
  "ClientPutMessage_field w tag r m =
     (if tag div 8 = 1 then
        if tag mod 256 = 10 then Some (Some (case ReadString w (opt_get [] (cpm_message_fld m)) r of (ok, v, r') \<Rightarrow> (ok, m\<lparr>cpm_message_fld := Some v\<rparr>, r'))) else None
      else if tag div 8 = 2 then
        if tag mod 256 = 16 then Some (Some (case ReadInt64 w (opt_get 0 (cpm_message_id_fld m)) r of (ok, v, r') \<Rightarrow> (ok, m\<lparr>cpm_message_id_fld := Some v\<rparr>, r'))) else None
      else None)"

definition ClientPutMessage_skip :: "wire \<Rightarrow> nat \<Rightarrow> string \<Rightarrow> ClientPutMessage \<Rightarrow> ClientPutMessage parsed" where
  "ClientPutMessage_skip w tag r m =
     (case SkipField w tag r (cpm_unknown m) of (ok, u, r') \<Rightarrow> (ok, m\<lparr>cpm_unknown := u\<rparr>, r'))"

definition ClientPutMessage_MergePartialFromCodedStream :: "wire \<Rightarrow> string \<Rightarrow> ClientPutMessage \<Rightarrow> ClientPutMessage parsed option" where
  "ClientPutMessage_MergePartialFromCodedStream w = parse_loop w (ClientPutMessage_field w) (ClientPutMessage_skip w)"

section \<open>\<open>FlowMessage_ClientPutMessageResponse\<close>\<close>

definition ClientPutMessageResponse_RequiredFieldsByteSizeFallback :: "wire \<Rightarrow> ClientPutMessageResponse \<Rightarrow> nat" where
  "ClientPutMessageResponse_RequiredFieldsByteSizeFallback w m =
     size_opt (\<lambda>s. LengthDelimitedSize w (length s)) (cpr_error_message_fld m) +
     size_opt (Int64Size w) (cpr_message_id_fld m) +
     size_opt (EnumSize w) (cpr_status_fld m)"

definition ClientPutMessageResponse_ByteSizeLong :: "wire \<Rightarrow> ClientPutMessageResponse \<Rightarrow> nat" where
  "ClientPutMessageResponse_ByteSizeLong w m =
     (if cpr_unknown m \<noteq> [] then ComputeUnknownFieldsSize w (cpr_unknown m) else 0) +
     (if cpr_error_message_fld m \<noteq> None \<and> cpr_message_id_fld m \<noteq> None \<and> cpr_status_fld m \<noteq> None
      then (1 + LengthDelimitedSize w (length (cpr_error_message m))) + (1 + Int64Size w (cpr_message_id m)) + (1 + EnumSize w (cpr_status m))
      else ClientPutMessageResponse_RequiredFieldsByteSizeFallback w m)"

definition ClientPutMessageResponse_SerializeWithCachedSizes :: "wire \<Rightarrow> ClientPutMessageResponse \<Rightarrow> string" where
  "ClientPutMessageResponse_SerializeWithCachedSizes w m =
     put_opt (WriteInt64 w 1) (cpr_message_id_fld m) @
     put_opt (WriteEnum w 2) (cpr_status_fld m) @
     put_opt (WriteString w 3) (cpr_error_message_fld m) @
     put_unknown w (cpr_unknown m)"

definition ClientPutMessageResponse_InternalSerializeWithCachedSizesToArray :: "wire \<Rightarrow> ClientPutMessageResponse \<Rightarrow> string" where
  "ClientPutMessageResponse_InternalSerializeWithCachedSizesToArray w m =
     put_opt (WriteInt64ToArray w 1) (cpr_message_id_fld m) @
     put_opt (WriteEnumToArray w 2) (cpr_status_fld m) @
     put_opt (WriteStringToArray w 3) (cpr_error_message_fld m) @
     put_unknown_to_array w (cpr_unknown m)"

text \<open>The switch of \<open>MergePartialFromCodedStream\<close>.\<close>

definition ClientPutMessageResponse_field :: "wire \<Rightarrow> nat \<Rightarrow> string \<Rightarrow> ClientPutMessageResponse \<Rightarrow> ClientPutMessageResponse parsed option option" where
  "ClientPutMessageResponse_field w tag r m =
     (if tag div 8 = 1 then
        if tag mod 256 = 8 then Some (Some (case ReadInt64 w (opt_get 0 (cpr_message_id_fld m)) r of (ok, v, r') \<Rightarrow> (ok, m\<lparr>cpr_message_id_fld := Some v\<rparr>, r'))) else None
      else if tag div 8 = 2 then
        if tag mod 256 = 16 then Some (Some (case ReadEnum w 0 r of (ok, v, r') \<Rightarrow>
          (ok, if ok then if Status_IsValid v then m\<lparr>cpr_status_fld := Some v\<rparr> else m\<lparr>cpr_unknown := AddVarint w 2 v (cpr_unknown m)\<rparr> else m, r'))) else None
      else if tag div 8 = 3 then
        if tag mod 256 = 26 then Some (Some (case ReadString w (opt_get [] (cpr_error_message_fld m)) r of (ok, v, r') \<Rightarrow> (ok, m\<lparr>cpr_error_message_fld := Some v\<rparr>, r'))) else None
      else None)"

definition ClientPutMessageResponse_skip :: "wire \<Rightarrow> nat \<Rightarrow> string \<Rightarrow> ClientPutMessageResponse \<Rightarrow> ClientPutMessageResponse parsed" where
  "ClientPutMessageResponse_skip w tag r m =
     (case SkipField w tag r (cpr_unknown m) of (ok, u, r') \<Rightarrow> (ok, m\<lparr>cpr_unknown := u\<rparr>, r'))"

definition ClientPutMessageResponse_MergePartialFromCodedStream :: "wire \<Rightarrow> string \<Rightarrow> ClientPutMessageResponse \<Rightarrow> ClientPutMessageResponse parsed option" where
  "ClientPutMessageResponse_MergePartialFromCodedStream w = parse_loop w (ClientPutMessageResponse_field w) (ClientPutMessageResponse_skip w)"

section \<open>\<open>FlowMessage_ClientCommitMessage\<close>\<close>

definition ClientCommitMessage_ByteSizeLong :: "wire \<Rightarrow> ClientCommitMessage \<Rightarrow> nat" where
  "ClientCommitMessage_ByteSizeLong w m =
     (if ccm_unknown m \<noteq> [] then ComputeUnknownFieldsSize w (ccm_unknown m) else 0) +
     size_opt (Int64Size w) (ccm_message_id_fld m)"

definition ClientCommitMessage_SerializeWithCachedSizes :: "wire \<Rightarrow> ClientCommitMessage \<Rightarrow> string" where
  "ClientCommitMessage_SerializeWithCachedSizes w m =
     put_opt (WriteInt64 w 1) (ccm_message_id_fld m) @
     put_unknown w (ccm_unknown m)"

definition ClientCommitMessage_InternalSerializeWithCachedSizesToArray :: "wire \<Rightarrow> ClientCommitMessage \<Rightarrow> string" where
  "ClientCommitMessage_InternalSerializeWithCachedSizesToArray w m =
     put_opt (WriteInt64ToArray w 1) (ccm_message_id_fld m) @
     put_unknown_to_array w (ccm_unknown m)"

text \<open>The switch of \<open>MergePartialFromCodedStream\<close>.\<close>

definition ClientCommitMessage_field :: "wire \<Rightarrow> nat \<Rightarrow> string \<Rightarrow> ClientCommitMessage \<Rightarrow> ClientCommitMessage parsed option option" where
  "ClientCommitMessage_field w tag r m =
     (if tag div 8 = 1 then
        if tag mod 256 = 8 then Some (Some (case ReadInt64 w (opt_get 0 (ccm_message_id_fld m)) r of (ok, v, r') \<Rightarrow> (ok, m\<lparr>ccm_message_id_fld := Some v\<rparr>, r'))) else None
      else None)"

definition ClientCommitMessage_skip :: "wire \<Rightarrow> nat \<Rightarrow> string \<Rightarrow> ClientCommitMessage \<Rightarrow> ClientCommitMessage parsed" where
  "ClientCommitMessage_skip w tag r m =
     (case SkipField w tag r (ccm_unknown m) of (ok, u, r') \<Rightarrow> (ok, m\<lparr>ccm_unknown := u\<rparr>, r'))"

definition ClientCommitMessage_MergePartialFromCodedStream :: "wire \<Rightarrow> string \<Rightarrow> ClientCommitMessage \<Rightarrow> ClientCommitMessage parsed option" where
  "ClientCommitMessage_MergePartialFromCodedStream w = parse_loop w (ClientCommitMessage_field w) (ClientCommitMessage_skip w)"

section \<open>\<open>FlowMessage_ServerSendMessage\<close>\<close>

definition ServerSendMessage_RequiredFieldsByteSizeFallback :: "wire \<Rightarrow> ServerSendMessage \<Rightarrow> nat" where
  "ServerSendMessage_RequiredFieldsByteSizeFallback w m =
     size_opt (\<lambda>s. LengthDelimitedSize w (length s)) (ssm_message_fld m) +
     size_opt (Int64Size w) (ssm_message_id_fld m)"

definition ServerSendMessage_ByteSizeLong :: "wire \<Rightarrow> ServerSendMessage \<Rightarrow> nat" where
  "ServerSendMessage_ByteSizeLong w m =
     (if ssm_unknown m \<noteq> [] then ComputeUnknownFieldsSize w (ssm_unknown m) else 0) +
     (if ssm_message_fld m \<noteq> None \<and> ssm_message_id_fld m \<noteq> None
      then (1 + LengthDelimitedSize w (length (ssm_message m))) + (1 + Int64Size w (ssm_message_id m))
      else ServerSendMessage_RequiredFieldsByteSizeFallback w m)"

definition ServerSendMessage_SerializeWithCachedSizes :: "wire \<Rightarrow> ServerSendMessage \<Rightarrow> string" where
  "ServerSendMessage_SerializeWithCachedSizes w m =
     put_opt (WriteInt64 w 1) (ssm_message_id_fld m) @
     put_opt (WriteString w 2) (ssm_message_fld m) @
     put_unknown w (ssm_unknown m)"

definition ServerSendMessage_InternalSerializeWithCachedSizesToArray :: "wire \<Rightarrow> ServerSendMessage \<Rightarrow> string" where
  "ServerSendMessage_InternalSerializeWithCachedSizesToArray w m =
     put_opt (WriteInt64ToArray w 1) (ssm_message_id_fld m) @
     put_opt (WriteStringToArray w 2) (ssm_message_fld m) @
     put_unknown_to_array w (ssm_unknown m)"

text \<open>The switch of \<open>MergePartialFromCodedStream\<close>.\<close>

definition ServerSendMessage_field :: "wire \<Rightarrow> nat \<Rightarrow> string \<Rightarrow> ServerSendMessage \<Rightarrow> ServerSendMessage parsed option option" where
  "ServerSendMessage_field w tag r m =
     (if tag div 8 = 1 then
        if tag mod 256 = 8 then Some (Some (case ReadInt64 w (opt_get 0 (ssm_message_id_fld m)) r of (ok, v, r') \<Rightarrow> (ok, m\<lparr>ssm_message_id_fld := Some v\<rparr>, r'))) else None
      else if tag div 8 = 2 then
        if tag mod 256 = 18 then Some (Some (case ReadString w (opt_get [] (ssm_message_fld m)) r of (ok, v, r') \<Rightarrow> (ok, m\<lparr>ssm_message_fld := Some v\<rparr>, r'))) else None
      else None)"

definition ServerSendMessage_skip :: "wire \<Rightarrow> nat \<Rightarrow> string \<Rightarrow> ServerSendMessage \<Rightarrow> ServerSendMessage parsed" where
  "ServerSendMessage_skip w tag r m =
     (case SkipField w tag r (ssm_unknown m) of (ok, u, r') \<Rightarrow> (ok, m\<lparr>ssm_unknown := u\<rparr>, r'))"

definition ServerSendMessage_MergePartialFromCodedStream :: "wire \<Rightarrow> string \<Rightarrow> ServerSendMessage \<Rightarrow> ServerSendMessage parsed option" where
  "ServerSendMessage_MergePartialFromCodedStream w = parse_loop w (ServerSendMessage_field w) (ServerSendMessage_skip w)"

section \<open>\<open>FlowMessage_ClientOpenQueue\<close>\<close>

definition ClientOpenQueue_RequiredFieldsByteSizeFallback :: "wire \<Rightarrow> ClientOpenQueue \<Rightarrow> nat" where
  "ClientOpenQueue_RequiredFieldsByteSizeFallback w m =
     size_opt (\<lambda>s. LengthDelimitedSize w (length s)) (coq_queue_name_fld m) +
     size_opt (Int32Size w) (coq_open_mode_fld m)"

definition ClientOpenQueue_ByteSizeLong :: "wire \<Rightarrow> ClientOpenQueue \<Rightarrow> nat" where
  "ClientOpenQueue_ByteSizeLong w m =
     (if coq_unknown m \<noteq> [] then ComputeUnknownFieldsSize w (coq_unknown m) else 0) +
     (if coq_queue_name_fld m \<noteq> None \<and> coq_open_mode_fld m \<noteq> None
      then (1 + LengthDelimitedSize w (length (coq_queue_name m))) + (1 + Int32Size w (coq_open_mode m))
      else ClientOpenQueue_RequiredFieldsByteSizeFallback w m)"

definition ClientOpenQueue_SerializeWithCachedSizes :: "wire \<Rightarrow> ClientOpenQueue \<Rightarrow> string" where
  "ClientOpenQueue_SerializeWithCachedSizes w m =
     put_opt (WriteInt32 w 1) (coq_open_mode_fld m) @
     put_opt (WriteString w 2) (coq_queue_name_fld m) @
     put_unknown w (coq_unknown m)"

definition ClientOpenQueue_InternalSerializeWithCachedSizesToArray :: "wire \<Rightarrow> ClientOpenQueue \<Rightarrow> string" where
  "ClientOpenQueue_InternalSerializeWithCachedSizesToArray w m =
     put_opt (WriteInt32ToArray w 1) (coq_open_mode_fld m) @
     put_opt (WriteStringToArray w 2) (coq_queue_name_fld m) @
     put_unknown_to_array w (coq_unknown m)"

text \<open>The switch of \<open>MergePartialFromCodedStream\<close>.\<close>

definition ClientOpenQueue_field :: "wire \<Rightarrow> nat \<Rightarrow> string \<Rightarrow> ClientOpenQueue \<Rightarrow> ClientOpenQueue parsed option option" where
  "ClientOpenQueue_field w tag r m =
     (if tag div 8 = 1 then
        if tag mod 256 = 8 then Some (Some (case ReadInt32 w (opt_get 0 (coq_open_mode_fld m)) r of (ok, v, r') \<Rightarrow> (ok, m\<lparr>coq_open_mode_fld := Some v\<rparr>, r'))) else None
      else if tag div 8 = 2 then
        if tag mod 256 = 18 then Some (Some (case ReadString w (opt_get [] (coq_queue_name_fld m)) r of (ok, v, r') \<Rightarrow> (ok, m\<lparr>coq_queue_name_fld := Some v\<rparr>, r'))) else None
      else None)"

definition ClientOpenQueue_skip :: "wire \<Rightarrow> nat \<Rightarrow> string \<Rightarrow> ClientOpenQueue \<Rightarrow> ClientOpenQueue parsed" where
  "ClientOpenQueue_skip w tag r m =
     (case SkipField w tag r (coq_unknown m) of (ok, u, r') \<Rightarrow> (ok, m\<lparr>coq_unknown := u\<rparr>, r'))"

definition ClientOpenQueue_MergePartialFromCodedStream :: "wire \<Rightarrow> string \<Rightarrow> ClientOpenQueue \<Rightarrow> ClientOpenQueue parsed option" where
  "ClientOpenQueue_MergePartialFromCodedStream w = parse_loop w (ClientOpenQueue_field w) (ClientOpenQueue_skip w)"

section \<open>\<open>FlowMessage_ClientOpenQueueResponse\<close>\<close>

definition ClientOpenQueueResponse_RequiredFieldsByteSizeFallback :: "wire \<Rightarrow> ClientOpenQueueResponse \<Rightarrow> nat" where
  "ClientOpenQueueResponse_RequiredFieldsByteSizeFallback w m =
     size_opt (\<lambda>s. LengthDelimitedSize w (length s)) (cor_error_message_fld m) +
     size_opt (EnumSize w) (cor_status_fld m)"

definition ClientOpenQueueResponse_ByteSizeLong :: "wire \<Rightarrow> ClientOpenQueueResponse \<Rightarrow> nat" where
  "ClientOpenQueueResponse_ByteSizeLong w m =
     (if cor_unknown m \<noteq> [] then ComputeUnknownFieldsSize w (cor_unknown m) else 0) +
     (if cor_error_message_fld m \<noteq> None \<and> cor_status_fld m \<noteq> None
      then (1 + LengthDelimitedSize w (length (cor_error_message m))) + (1 + EnumSize w (cor_status m))
      else ClientOpenQueueResponse_RequiredFieldsByteSizeFallback w m) +
     size_opt (\<lambda>s. LengthDelimitedSize w (length s)) (cor_leader_ip_fld m) +
     size_opt (\<lambda>s. LengthDelimitedSize w (length s)) (cor_leader_port_fld m)"

definition ClientOpenQueueResponse_SerializeWithCachedSizes :: "wire \<Rightarrow> ClientOpenQueueResponse \<Rightarrow> string" where
  "ClientOpenQueueResponse_SerializeWithCachedSizes w m =
     put_opt (WriteEnum w 1) (cor_status_fld m) @
     put_opt (WriteString w 2) (cor_error_message_fld m) @
     put_opt (WriteString w 3) (cor_leader_ip_fld m) @
     put_opt (WriteString w 4) (cor_leader_port_fld m) @
     put_unknown w (cor_unknown m)"

definition ClientOpenQueueResponse_InternalSerializeWithCachedSizesToArray :: "wire \<Rightarrow> ClientOpenQueueResponse \<Rightarrow> string" where
  "ClientOpenQueueResponse_InternalSerializeWithCachedSizesToArray w m =
     put_opt (WriteEnumToArray w 1) (cor_status_fld m) @
     put_opt (WriteStringToArray w 2) (cor_error_message_fld m) @
     put_opt (WriteStringToArray w 3) (cor_leader_ip_fld m) @
     put_opt (WriteStringToArray w 4) (cor_leader_port_fld m) @
     put_unknown_to_array w (cor_unknown m)"

text \<open>The switch of \<open>MergePartialFromCodedStream\<close>.\<close>

definition ClientOpenQueueResponse_field :: "wire \<Rightarrow> nat \<Rightarrow> string \<Rightarrow> ClientOpenQueueResponse \<Rightarrow> ClientOpenQueueResponse parsed option option" where
  "ClientOpenQueueResponse_field w tag r m =
     (if tag div 8 = 1 then
        if tag mod 256 = 8 then Some (Some (case ReadEnum w 0 r of (ok, v, r') \<Rightarrow>
          (ok, if ok then if Status_IsValid v then m\<lparr>cor_status_fld := Some v\<rparr> else m\<lparr>cor_unknown := AddVarint w 1 v (cor_unknown m)\<rparr> else m, r'))) else None
      else if tag div 8 = 2 then
        if tag mod 256 = 18 then Some (Some (case ReadString w (opt_get [] (cor_error_message_fld m)) r of (ok, v, r') \<Rightarrow> (ok, m\<lparr>cor_error_message_fld := Some v\<rparr>, r'))) else None
      else if tag div 8 = 3 then
        if tag mod 256 = 26 then Some (Some (case ReadString w (opt_get [] (cor_leader_ip_fld m)) r of (ok, v, r') \<Rightarrow> (ok, m\<lparr>cor_leader_ip_fld := Some v\<rparr>, r'))) else None
      else if tag div 8 = 4 then
        if tag mod 256 = 34 then Some (Some (case ReadString w (opt_get [] (cor_leader_port_fld m)) r of (ok, v, r') \<Rightarrow> (ok, m\<lparr>cor_leader_port_fld := Some v\<rparr>, r'))) else None
      else None)"

definition ClientOpenQueueResponse_skip :: "wire \<Rightarrow> nat \<Rightarrow> string \<Rightarrow> ClientOpenQueueResponse \<Rightarrow> ClientOpenQueueResponse parsed" where
  "ClientOpenQueueResponse_skip w tag r m =
     (case SkipField w tag r (cor_unknown m) of (ok, u, r') \<Rightarrow> (ok, m\<lparr>cor_unknown := u\<rparr>, r'))"

definition ClientOpenQueueResponse_MergePartialFromCodedStream :: "wire \<Rightarrow> string \<Rightarrow> ClientOpenQueueResponse \<Rightarrow> ClientOpenQueueResponse parsed option" where
  "ClientOpenQueueResponse_MergePartialFromCodedStream w = parse_loop w (ClientOpenQueueResponse_field w) (ClientOpenQueueResponse_skip w)"

section \<open>\<open>FlowMessage_ConsumerDisconnected\<close>\<close>

definition ConsumerDisconnected_ByteSizeLong :: "wire \<Rightarrow> ConsumerDisconnected \<Rightarrow> nat" where
  "ConsumerDisconnected_ByteSizeLong w m =
     (if cdc_unknown m \<noteq> [] then ComputeUnknownFieldsSize w (cdc_unknown m) else 0) +
     size_opt (Int32Size w) (cdc_client_id_fld m)"

definition ConsumerDisconnected_SerializeWithCachedSizes :: "wire \<Rightarrow> ConsumerDisconnected \<Rightarrow> string" where
  "ConsumerDisconnected_SerializeWithCachedSizes w m =
     put_opt (WriteInt32 w 1) (cdc_client_id_fld m) @
     put_unknown w (cdc_unknown m)"

definition ConsumerDisconnected_InternalSerializeWithCachedSizesToArray :: "wire \<Rightarrow> ConsumerDisconnected \<Rightarrow> string" where
  "ConsumerDisconnected_InternalSerializeWithCachedSizesToArray w m =
     put_opt (WriteInt32ToArray w 1) (cdc_client_id_fld m) @
     put_unknown_to_array w (cdc_unknown m)"

text \<open>The switch of \<open>MergePartialFromCodedStream\<close>.\<close>

definition ConsumerDisconnected_field :: "wire \<Rightarrow> nat \<Rightarrow> string \<Rightarrow> ConsumerDisconnected \<Rightarrow> ConsumerDisconnected parsed option option" where
  "ConsumerDisconnected_field w tag r m =
     (if tag div 8 = 1 then
        if tag mod 256 = 8 then Some (Some (case ReadInt32 w (opt_get 0 (cdc_client_id_fld m)) r of (ok, v, r') \<Rightarrow> (ok, m\<lparr>cdc_client_id_fld := Some v\<rparr>, r'))) else None
      else None)"

definition ConsumerDisconnected_skip :: "wire \<Rightarrow> nat \<Rightarrow> string \<Rightarrow> ConsumerDisconnected \<Rightarrow> ConsumerDisconnected parsed" where
  "ConsumerDisconnected_skip w tag r m =
     (case SkipField w tag r (cdc_unknown m) of (ok, u, r') \<Rightarrow> (ok, m\<lparr>cdc_unknown := u\<rparr>, r'))"

definition ConsumerDisconnected_MergePartialFromCodedStream :: "wire \<Rightarrow> string \<Rightarrow> ConsumerDisconnected \<Rightarrow> ConsumerDisconnected parsed option" where
  "ConsumerDisconnected_MergePartialFromCodedStream w = parse_loop w (ConsumerDisconnected_field w) (ConsumerDisconnected_skip w)"

section \<open>\<open>FlowMessage\<close>\<close>

definition FlowMessage_ByteSizeLong :: "wire \<Rightarrow> FlowMessage \<Rightarrow> nat" where
  "FlowMessage_ByteSizeLong w m =
     (if fm_unknown m \<noteq> [] then ComputeUnknownFieldsSize w (fm_unknown m) else 0) +
     size_opt (EnumSize w) (fm_type_fld m) +
     size_opt (\<lambda>x. LengthDelimitedSize w (RequestVoteRequest_ByteSizeLong w x)) (fm_request_vote_request_fld m) +
     size_opt (\<lambda>x. LengthDelimitedSize w (RequestVoteResponse_ByteSizeLong w x)) (fm_request_vote_response_fld m) +
     size_opt (\<lambda>x. LengthDelimitedSize w (AppendEntriesRequest_ByteSizeLong w x)) (fm_append_entries_request_fld m) +
     size_opt (\<lambda>x. LengthDelimitedSize w (AppendEntriesResponse_ByteSizeLong w x)) (fm_append_entries_response_fld m) +
     size_opt (\<lambda>x. LengthDelimitedSize w (ClientPutMessage_ByteSizeLong w x)) (fm_client_put_message_fld m) +
     size_opt (\<lambda>x. LengthDelimitedSize w (ClientCommitMessage_ByteSizeLong w x)) (fm_client_commit_message_fld m) +
     size_opt (\<lambda>x. LengthDelimitedSize w (ServerSendMessage_ByteSizeLong w x)) (fm_server_send_message_fld m) +
     size_opt (\<lambda>x. LengthDelimitedSize w (ClientOpenQueue_ByteSizeLong w x)) (fm_client_open_queue_fld m) +
     size_opt (\<lambda>x. LengthDelimitedSize w (ConsumerDisconnected_ByteSizeLong w x)) (fm_consumer_disconnected_fld m) +
     size_opt (\<lambda>x. LengthDelimitedSize w (ClientOpenQueueResponse_ByteSizeLong w x)) (fm_client_open_queue_response_fld m) +
     size_opt (\<lambda>x. LengthDelimitedSize w (ClientPutMessageResponse_ByteSizeLong w x)) (fm_client_put_message_response_fld m) +
     size_opt (Int64Size w) (fm_partition_id_fld m)"

definition FlowMessage_SerializeWithCachedSizes :: "wire \<Rightarrow> FlowMessage \<Rightarrow> string" where
  "FlowMessage_SerializeWithCachedSizes w m =
     put_opt (WriteEnum w 1) (fm_type_fld m) @
     put_opt (WriteInt64 w 2) (fm_partition_id_fld m) @
     put_opt (\<lambda>x. WriteMessage w 3 (RequestVoteRequest_SerializeWithCachedSizes w x)) (fm_request_vote_request_fld m) @
     put_opt (\<lambda>x. WriteMessage w 4 (RequestVoteResponse_SerializeWithCachedSizes w x)) (fm_request_vote_response_fld m) @
     put_opt (\<lambda>x. WriteMessage w 5 (AppendEntriesRequest_SerializeWithCachedSizes w x)) (fm_append_entries_request_fld m) @
     put_opt (\<lambda>x. WriteMessage w 6 (AppendEntriesResponse_SerializeWithCachedSizes w x)) (fm_append_entries_response_fld m) @
     put_opt (\<lambda>x. WriteMessage w 7 (ClientPutMessage_SerializeWithCachedSizes w x)) (fm_client_put_message_fld m) @
     put_opt (\<lambda>x. WriteMessage w 8 (ClientCommitMessage_SerializeWithCachedSizes w x)) (fm_client_commit_message_fld m) @
     put_opt (\<lambda>x. WriteMessage w 9 (ServerSendMessage_SerializeWithCachedSizes w x)) (fm_server_send_message_fld m) @
     put_opt (\<lambda>x. WriteMessage w 10 (ClientOpenQueue_SerializeWithCachedSizes w x)) (fm_client_open_queue_fld m) @
     put_opt (\<lambda>x. WriteMessage w 11 (ConsumerDisconnected_SerializeWithCachedSizes w x)) (fm_consumer_disconnected_fld m) @
     put_opt (\<lambda>x. WriteMessage w 12 (ClientOpenQueueResponse_SerializeWithCachedSizes w x)) (fm_client_open_queue_response_fld m) @
     put_opt (\<lambda>x. WriteMessage w 13 (ClientPutMessageResponse_SerializeWithCachedSizes w x)) (fm_client_put_message_response_fld m) @
     put_unknown w (fm_unknown m)"

definition FlowMessage_InternalSerializeWithCachedSizesToArray :: "wire \<Rightarrow> FlowMessage \<Rightarrow> string" where
  "FlowMessage_InternalSerializeWithCachedSizesToArray w m =
     put_opt (WriteEnumToArray w 1) (fm_type_fld m) @
     put_opt (WriteInt64ToArray w 2) (fm_partition_id_fld m) @
     put_opt (\<lambda>x. WriteMessageToArray w 3 (RequestVoteRequest_InternalSerializeWithCachedSizesToArray w x)) (fm_request_vote_request_fld m) @
     put_opt (\<lambda>x. WriteMessageToArray w 4 (RequestVoteResponse_InternalSerializeWithCachedSizesToArray w x)) (fm_request_vote_response_fld m) @
     put_opt (\<lambda>x. WriteMessageToArray w 5 (AppendEntriesRequest_InternalSerializeWithCachedSizesToArray w x)) (fm_append_entries_request_fld m) @
     put_opt (\<lambda>x. WriteMessageToArray w 6 (AppendEntriesResponse_InternalSerializeWithCachedSizesToArray w x)) (fm_append_entries_response_fld m) @
     put_opt (\<lambda>x. WriteMessageToArray w 7 (ClientPutMessage_InternalSerializeWithCachedSizesToArray w x)) (fm_client_put_message_fld m) @
     put_opt (\<lambda>x. WriteMessageToArray w 8 (ClientCommitMessage_InternalSerializeWithCachedSizesToArray w x)) (fm_client_commit_message_fld m) @
     put_opt (\<lambda>x. WriteMessageToArray w 9 (ServerSendMessage_InternalSerializeWithCachedSizesToArray w x)) (fm_server_send_message_fld m) @
     put_opt (\<lambda>x. WriteMessageToArray w 10 (ClientOpenQueue_InternalSerializeWithCachedSizesToArray w x)) (fm_client_open_queue_fld m) @
     put_opt (\<lambda>x. WriteMessageToArray w 11 (ConsumerDisconnected_InternalSerializeWithCachedSizesToArray w x)) (fm_consumer_disconnected_fld m) @
     put_opt (\<lambda>x. WriteMessageToArray w 12 (ClientOpenQueueResponse_InternalSerializeWithCachedSizesToArray w x)) (fm_client_open_queue_response_fld m) @
     put_opt (\<lambda>x. WriteMessageToArray w 13 (ClientPutMessageResponse_InternalSerializeWithCachedSizesToArray w x)) (fm_client_put_message_response_fld m) @
     put_unknown_to_array w (fm_unknown m)"

text \<open>The switch of \<open>MergePartialFromCodedStream\<close>.\<close>

definition FlowMessage_field :: "wire \<Rightarrow> nat \<Rightarrow> string \<Rightarrow> FlowMessage \<Rightarrow> FlowMessage parsed option option" where
  "FlowMessage_field w tag r m =
     (if tag div 8 = 1 then
        if tag mod 256 = 8 then Some (Some (case ReadEnum w 0 r of (ok, v, r') \<Rightarrow>
          (ok, if ok then if MessageType_IsValid v then m\<lparr>fm_type_fld := Some v\<rparr> else m\<lparr>fm_unknown := AddVarint w 1 v (fm_unknown m)\<rparr> else m, r'))) else None
      else if tag div 8 = 2 then
        if tag mod 256 = 16 then Some (Some (case ReadInt64 w (opt_get 0 (fm_partition_id_fld m)) r of (ok, v, r') \<Rightarrow> (ok, m\<lparr>fm_partition_id_fld := Some v\<rparr>, r'))) else None
      else if tag div 8 = 3 then
        if tag mod 256 = 26 then Some (map_option (\<lambda>(ok, v, r'). (ok, m\<lparr>fm_request_vote_request_fld := Some v\<rparr>, r'))
          (ReadMessage w (RequestVoteRequest_MergePartialFromCodedStream w) (opt_get RequestVoteRequest_new (fm_request_vote_request_fld m)) r)) else None
      else if tag div 8 = 4 then
        if tag mod 256 = 34 then Some (map_option (\<lambda>(ok, v, r'). (ok, m\<lparr>fm_request_vote_response_fld := Some v\<rparr>, r'))
          (ReadMessage w (RequestVoteResponse_MergePartialFromCodedStream w) (opt_get RequestVoteResponse_new (fm_request_vote_response_fld m)) r)) else None
      else if tag div 8 = 5 then
        if tag mod 256 = 42 then Some (map_option (\<lambda>(ok, v, r'). (ok, m\<lparr>fm_append_entries_request_fld := Some v\<rparr>, r'))
          (ReadMessage w (AppendEntriesRequest_MergePartialFromCodedStream w) (opt_get AppendEntriesRequest_new (fm_append_entries_request_fld m)) r)) else None
      else if tag div 8 = 6 then
        if tag mod 256 = 50 then Some (map_option (\<lambda>(ok, v, r'). (ok, m\<lparr>fm_append_entries_response_fld := Some v\<rparr>, r'))
          (ReadMessage w (AppendEntriesResponse_MergePartialFromCodedStream w) (opt_get AppendEntriesResponse_new (fm_append_entries_response_fld m)) r)) else None
      else if tag div 8 = 7 then
        if tag mod 256 = 58 then Some (map_option (\<lambda>(ok, v, r'). (ok, m\<lparr>fm_client_put_message_fld := Some v\<rparr>, r'))
          (ReadMessage w (ClientPutMessage_MergePartialFromCodedStream w) (opt_get ClientPutMessage_new (fm_client_put_message_fld m)) r)) else None
      else if tag div 8 = 8 then
        if tag mod 256 = 66 then Some (map_option (\<lambda>(ok, v, r'). (ok, m\<lparr>fm_client_commit_message_fld := Some v\<rparr>, r'))
          (ReadMessage w (ClientCommitMessage_MergePartialFromCodedStream w) (opt_get ClientCommitMessage_new (fm_client_commit_message_fld m)) r)) else None
      else if tag div 8 = 9 then
        if tag mod 256 = 74 then Some (map_option (\<lambda>(ok, v, r'). (ok, m\<lparr>fm_server_send_message_fld := Some v\<rparr>, r'))
          (ReadMessage w (ServerSendMessage_MergePartialFromCodedStream w) (opt_get ServerSendMessage_new (fm_server_send_message_fld m)) r)) else None
      else if tag div 8 = 10 then
        if tag mod 256 = 82 then Some (map_option (\<lambda>(ok, v, r'). (ok, m\<lparr>fm_client_open_queue_fld := Some v\<rparr>, r'))
          (ReadMessage w (ClientOpenQueue_MergePartialFromCodedStream w) (opt_get ClientOpenQueue_new (fm_client_open_queue_fld m)) r)) else None
      else if tag div 8 = 11 then
        if tag mod 256 = 90 then Some (map_option (\<lambda>(ok, v, r'). (ok, m\<lparr>fm_consumer_disconnected_fld := Some v\<rparr>, r'))
          (ReadMessage w (ConsumerDisconnected_MergePartialFromCodedStream w) (opt_get ConsumerDisconnected_new (fm_consumer_disconnected_fld m)) r)) else None
      else if tag div 8 = 12 then
        if tag mod 256 = 98 then Some (map_option (\<lambda>(ok, v, r'). (ok, m\<lparr>fm_client_open_queue_response_fld := Some v\<rparr>, r'))
          (ReadMessage w (ClientOpenQueueResponse_MergePartialFromCodedStream w) (opt_get ClientOpenQueueResponse_new (fm_client_open_queue_response_fld m)) r)) else None
      else if tag div 8 = 13 then
        if tag mod 256 = 106 then Some (map_option (\<lambda>(ok, v, r'). (ok, m\<lparr>fm_client_put_message_response_fld := Some v\<rparr>, r'))
          (ReadMessage w (ClientPutMessageResponse_MergePartialFromCodedStream w) (opt_get ClientPutMessageResponse_new (fm_client_put_message_response_fld m)) r)) else None
      else None)"

definition FlowMessage_skip :: "wire \<Rightarrow> nat \<Rightarrow> string \<Rightarrow> FlowMessage \<Rightarrow> FlowMessage parsed" where
  "FlowMessage_skip w tag r m =
     (case SkipField w tag r (fm_unknown m) of (ok, u, r') \<Rightarrow> (ok, m\<lparr>fm_unknown := u\<rparr>, r'))"

definition FlowMessage_MergePartialFromCodedStream :: "wire \<Rightarrow> string \<Rightarrow> FlowMessage \<Rightarrow> FlowMessage parsed option" where
  "FlowMessage_MergePartialFromCodedStream w = parse_loop w (FlowMessage_field w) (FlowMessage_skip w)"

lemmas message_new_defs =
  LogEntry_new_def RequestVoteRequest_new_def RequestVoteResponse_new_def
  AppendEntriesRequest_new_def AppendEntriesResponse_new_def ClientPutMessage_new_def
  ClientPutMessageResponse_new_def ClientCommitMessage_new_def ServerSendMessage_new_def
  ClientOpenQueue_new_def ClientOpenQueueResponse_new_def ConsumerDisconnected_new_def
  FlowMessage_new_def

lemmas message_getter_defs =
  le_index_def le_term_def le_message_id_def le_operation_def le_message_def rvq_term_def
  rvq_candidate_id_def rvq_last_log_index_def rvq_last_log_term_def rvs_term_def
  rvs_vote_result_term_granted_def aeq_term_def aeq_leader_id_def aeq_prev_log_index_def
  aeq_prev_log_term_def aeq_leader_commit_def aes_term_def aes_follower_id_def
  aes_append_result_success_def aes_last_index_synced_def cpm_message_def cpm_message_id_def
  cpr_message_id_def cpr_status_def cpr_error_message_def ccm_message_id_def ssm_message_id_def
  ssm_message_def coq_open_mode_def coq_queue_name_def cor_status_def cor_error_message_def
  cor_leader_ip_def cor_leader_port_def cdc_client_id_def fm_type_def fm_partition_id_def
  fm_request_vote_request_def fm_request_vote_response_def fm_append_entries_request_def
  fm_append_entries_response_def fm_client_put_message_def fm_client_commit_message_def
  fm_server_send_message_def fm_client_open_queue_def fm_consumer_disconnected_def
  fm_client_open_queue_response_def fm_client_put_message_response_def

lemmas byte_size_defs =
  LogEntry_ByteSizeLong_def RequestVoteRequest_ByteSizeLong_def
  RequestVoteResponse_ByteSizeLong_def AppendEntriesRequest_ByteSizeLong_def
  AppendEntriesResponse_ByteSizeLong_def ClientPutMessage_ByteSizeLong_def
  ClientPutMessageResponse_ByteSizeLong_def ClientCommitMessage_ByteSizeLong_def
  ServerSendMessage_ByteSizeLong_def ClientOpenQueue_ByteSizeLong_def
  ClientOpenQueueResponse_ByteSizeLong_def ConsumerDisconnected_ByteSizeLong_def
  FlowMessage_ByteSizeLong_def LogEntry_RequiredFieldsByteSizeFallback_def
  RequestVoteRequest_RequiredFieldsByteSizeFallback_def
  RequestVoteResponse_RequiredFieldsByteSizeFallback_def
  AppendEntriesRequest_RequiredFieldsByteSizeFallback_def
  AppendEntriesResponse_RequiredFieldsByteSizeFallback_def
  ClientPutMessageResponse_RequiredFieldsByteSizeFallback_def
  ServerSendMessage_RequiredFieldsByteSizeFallback_def
  ClientOpenQueue_RequiredFieldsByteSizeFallback_def
  ClientOpenQueueResponse_RequiredFieldsByteSizeFallback_def size_all_def

end
