(* ===== verification/Varint.thy ===== *)
theory Varint
  imports Wire_Format
begin

text \<open>
  The base-128 varint wire format of the protobuf encoding documentation, as an instance of the parameter
  \<open>wire\<close>: it meets the laws of \<open>wire_format\<close>, so that they can all hold together, and it makes the model
  executable on concrete messages.
\<close>

fun varint :: "nat \<Rightarrow> string" where
  "varint n = (if n < 128 then [char_of n] else char_of (128 + n mod 128) # varint (n div 128))"

declare varint.simps [simp del]

fun read_varint :: "nat \<Rightarrow> string \<Rightarrow> (nat \<times> string) option" where
  "read_varint 0 bs = None"
| "read_varint (Suc k) [] = None"
| "read_varint (Suc k) (b # bs) =
     (if of_char b < (128::nat) then Some (of_char b, bs)
      else map_option (\<lambda>(v, r). (of_char b - 128 + 128 * v, r)) (read_varint k bs))"

definition to_uint64 :: "int \<Rightarrow> nat" where
  "to_uint64 v = nat (v mod 2 ^ 64)"

definition to_int32 :: "nat \<Rightarrow> int" where
  "to_int32 n = (let k = int n mod 2 ^ 32 in if k < 2 ^ 31 then k else k - 2 ^ 32)"

definition to_int64 :: "nat \<Rightarrow> int" where
  "to_int64 n = (let k = int n mod 2 ^ 64 in if k < 2 ^ 63 then k else k - 2 ^ 64)"

definition read_value :: "(nat \<Rightarrow> int) \<Rightarrow> int \<Rightarrow> string \<Rightarrow> bool \<times> int \<times> string" where
  "read_value conv old input =
     (case read_varint 10 input of None \<Rightarrow> (False, old, input) | Some (n, r) \<Rightarrow> (True, conv n, r))"

definition read_bytes :: "string \<Rightarrow> (string \<times> string) option" where
  "read_bytes input =
     (case read_varint 10 input of None \<Rightarrow> None
      | Some (n, r) \<Rightarrow> if n \<le> length r then Some (take n r, drop n r) else None)"

definition read_tag :: "string \<Rightarrow> (nat \<times> bool) \<times> string" where
  "read_tag input =
     (case input of [] \<Rightarrow> ((0, False), [])
      | b # bs \<Rightarrow>
          if of_char b < (128::nat) then ((of_char b, of_char b \<noteq> (0::nat)), bs)
          else (case read_varint 5 input of None \<Rightarrow> ((0, False), bs)
                | Some (tag, r) \<Rightarrow> ((tag mod 2 ^ 32, False), r)))"

definition skip_bytes :: "nat \<Rightarrow> string \<Rightarrow> string option" where
  "skip_bytes tag input =
     (if tag mod 8 = 0 then map_option snd (read_varint 10 input)
      else if tag mod 8 = 1 then if 8 \<le> length input then Some (drop 8 input) else None
      else if tag mod 8 = 2 then map_option snd (read_bytes input)
      else if tag mod 8 = 5 then if 4 \<le> length input then Some (drop 4 input) else None
      else None)"

definition skip_field :: "nat \<Rightarrow> string \<Rightarrow> string \<Rightarrow> bool \<times> string \<times> string" where
  "skip_field tag input u =
     (case skip_bytes tag input of
        None \<Rightarrow> (False, u, input)
      | Some r \<Rightarrow> (True, u @ varint tag @ take (length input - length r) input, r))"

definition write_value :: "nat \<Rightarrow> int \<Rightarrow> string" where
  "write_value n v = varint (8 * n) @ varint (to_uint64 v)"

definition write_bytes :: "nat \<Rightarrow> string \<Rightarrow> string" where
  "write_bytes n s = varint (8 * n + 2) @ varint (length s) @ s"

definition varint_wire :: wire where
  "varint_wire = \<lparr>
     Int32Size = \<lambda>v. length (varint (to_uint64 v)),
     Int64Size = \<lambda>v. length (varint (to_uint64 v)),
     EnumSize = \<lambda>v. length (varint (to_uint64 v)),
     LengthDelimitedSize = \<lambda>n. length (varint n) + n,
     WriteInt32 = write_value, WriteInt64 = write_value, WriteEnum = write_value,
     WriteString = write_bytes, WriteMessage = write_bytes,
     WriteInt32ToArray = write_value, WriteInt64ToArray = write_value, WriteEnumToArray = write_value,
     WriteStringToArray = write_bytes, WriteMessageToArray = write_bytes,
     ReadTag = read_tag,
     ReadInt32 = read_value to_int32, ReadInt64 = read_value to_int64, ReadEnum = read_value to_int32,
     ReadString = \<lambda>old input. (case read_bytes input of None \<Rightarrow> (False, old, input) | Some (s, r) \<Rightarrow> (True, s, r)),
     ReadLength = read_bytes,
     SkipField = skip_field,
     AddVarint = \<lambda>n v u. u @ varint (8 * n) @ varint (to_uint64 v),
     MergeUnknown = \<lambda>old u. old @ u,
     SerializeUnknownFields = \<lambda>u. u, SerializeUnknownFieldsToArray = \<lambda>u. u,
     ComputeUnknownFieldsSize = length\<rparr>"

lemma read_varint_varint: "n < 128 ^ k \<Longrightarrow> 0 < k \<Longrightarrow> read_varint k (varint n @ rest) = Some (n, rest)"
proof (induction k arbitrary: n)
  case (Suc k)
  show ?case
  proof (cases "n < 128")
    case True
    then show ?thesis by (subst varint.simps) simp
  next
    case False
    with Suc.prems have "n div 128 < 128 ^ k" by (simp add: less_mult_imp_div_less mult.commute)
    moreover from this False have "0 < k" by (cases k) auto
    ultimately have "read_varint k (varint (n div 128) @ rest) = Some (n div 128, rest)" by (rule Suc.IH)
    moreover have "of_char (char_of (128 + n mod 128) :: char) = 128 + n mod 128" by simp
    ultimately show ?thesis using False by (subst varint.simps) simp
  qed
qed simp

lemma read_varint_shrinks: "read_varint k bs = Some (v, r) \<Longrightarrow> length r < length bs"
  by (induction k bs arbitrary: v r rule: read_varint.induct) (fastforce split: if_splits)+

lemma read_bytes_shrinks: "read_bytes bs = Some (s, r) \<Longrightarrow> length s + length r \<le> length bs"
  by (auto simp: read_bytes_def split: option.splits if_splits dest!: read_varint_shrinks)

lemma skip_bytes_shrinks: "skip_bytes tag bs = Some r \<Longrightarrow> length r \<le> length bs"
  by (auto simp: skip_bytes_def split: if_splits dest!: read_varint_shrinks read_bytes_shrinks)

lemma to_uint64_bound: "to_uint64 v < 128 ^ 10"
proof -
  have "v mod 2 ^ 64 < 2 ^ 64" by simp
  then have "to_uint64 v < 2 ^ 64" by (simp add: to_uint64_def nat_less_iff)
  then show ?thesis by simp
qed

lemma int_to_uint64: "int (to_uint64 v) = v mod 2 ^ 64"
  by (simp add: to_uint64_def)

lemma to_int64_to_uint64: "in_int64 v \<Longrightarrow> to_int64 (to_uint64 v) = v"
proof -
  assume v: "in_int64 v"
  have "v mod 2 ^ 64 = (if 0 \<le> v then v else v + 2 ^ 64)"
  proof (cases "0 \<le> v")
    case False
    then have "(v + 2 ^ 64) mod 2 ^ 64 = v + 2 ^ 64" using v by (intro mod_pos_pos_trivial) (auto simp: in_int64_def)
    with False show ?thesis by simp
  qed (use v in \<open>simp add: in_int64_def\<close>)
  with v show ?thesis
    by (auto simp: to_int64_def int_to_uint64 Let_def in_int64_def)
qed

lemma to_int32_to_uint64: "in_int32 v \<Longrightarrow> to_int32 (to_uint64 v) = v"
proof -
  assume v: "in_int32 v"
  have "(v mod 2 ^ 64) mod 2 ^ 32 = v mod (2 ^ 32)" by (rule mod_mod_cancel) simp
  moreover have "v mod 2 ^ 32 = (if 0 \<le> v then v else v + 2 ^ 32)"
  proof (cases "0 \<le> v")
    case False
    then have "(v + 2 ^ 32) mod 2 ^ 32 = v + 2 ^ 32" using v by (intro mod_pos_pos_trivial) (auto simp: in_int32_def)
    with False show ?thesis by simp
  qed (use v in \<open>simp add: in_int32_def\<close>)
  ultimately show ?thesis using v
    by (auto simp: to_int32_def int_to_uint64 Let_def in_int32_def)
qed

lemma read_tag_varint: "0 < t \<Longrightarrow> t < 128 \<Longrightarrow> read_tag (varint t @ rest) = ((t, True), rest)"
  by (subst varint.simps) (simp add: read_tag_def)

lemma read_value_varint: "conv (to_uint64 v) = v \<Longrightarrow> read_value conv old (varint (to_uint64 v) @ rest) = (True, v, rest)"
  using read_varint_varint [OF to_uint64_bound, of v rest] by (simp add: read_value_def)

lemma read_bytes_varint: "length s < 2 ^ 31 \<Longrightarrow> read_bytes (varint (length s) @ s @ rest) = Some (s, rest)"
  by (simp add: read_bytes_def read_varint_varint)

lemma read_tag_shrinks: "read_tag input = ((tag, ok), rest) \<Longrightarrow> length rest \<le> length input \<and> (tag = 0 \<or> length rest < length input)"
  by (auto simp: read_tag_def split: list.splits if_splits option.splits dest!: read_varint_shrinks)

lemma length_varint_small: "n < 128 \<Longrightarrow> length (varint n) = 1"
  by (subst varint.simps) simp

lemma length_varint: "n < 128 ^ k \<Longrightarrow> 0 < k \<Longrightarrow> length (varint n) \<le> k"
proof (induction k arbitrary: n)
  case (Suc k)
  show ?case
  proof (cases "n < 128")
    case True
    then show ?thesis by (subst varint.simps) simp
  next
    case False
    with Suc.prems have "n div 128 < 128 ^ k" by (simp add: less_mult_imp_div_less mult.commute)
    moreover from this False have "0 < k" by (cases k) auto
    ultimately have "length (varint (n div 128)) \<le> k" by (rule Suc.IH)
    then show ?thesis using False by (subst varint.simps) simp
  qed
qed simp

lemma length_varint_int: "length (varint (to_uint64 v)) \<le> 10"
  using length_varint [OF to_uint64_bound] by simp

interpretation varint: wire_format varint_wire
proof (unfold_locales, goal_cases)
  case 1
  show ?case by (simp add: varint_wire_def read_tag_def)
next
  case (2 n v rest)
  then show ?case by (auto simp: varint_wire_def write_value_def read_tag_varint field_number_def read_value_varint to_int32_to_uint64)
next
  case (3 n v rest)
  then show ?case by (auto simp: varint_wire_def write_value_def read_tag_varint field_number_def read_value_varint to_int64_to_uint64)
next
  case (4 n v rest)
  then show ?case by (auto simp: varint_wire_def write_value_def read_tag_varint field_number_def read_value_varint to_int32_to_uint64)
next
  case (5 n s rest)
  have "read_tag (varint (8 * n + 2) @ varint (length s) @ s @ rest) = ((8 * n + 2, True), varint (length s) @ s @ rest)"
    using 5 by (intro read_tag_varint) (auto simp: field_number_def)
  with 5 show ?case by (simp add: varint_wire_def write_bytes_def read_bytes_varint)
next
  case (6 n s rest)
  have "read_tag (varint (8 * n + 2) @ varint (length s) @ s @ rest) = ((8 * n + 2, True), varint (length s) @ s @ rest)"
    using 6 by (intro read_tag_varint) (auto simp: field_number_def)
  with 6 show ?case by (simp add: varint_wire_def write_bytes_def read_bytes_varint)
qed (auto simp: varint_wire_def write_value_def write_bytes_def length_varint_small field_number_def read_value_def
    skip_field_def length_varint length_varint_int split: option.splits
    dest!: read_varint_shrinks read_bytes_shrinks skip_bytes_shrinks read_tag_shrinks)

end
