(* ===== verification/Flow_Codec_Laws.thy ===== *)
theory Flow_Codec_Laws
  imports Flow_Codec Varint
begin

text \<open>
  What the generated classes guarantee over any library that meets \<open>wire_format\<close>: both serializers emit
  the same bytes, \<open>ByteSizeLong\<close> is their number, parsing what was serialized gives the message back, and parsing
  always ends. A message \<open>fits\<close> when its integers are in the range of their C++ type, its strings and nested messages are below 2 GiB
  and it carries no unknown fields.
\<close>

definition opt_all :: "('a \<Rightarrow> bool) \<Rightarrow> 'a option \<Rightarrow> bool" where
  "opt_all P x = (case x of None \<Rightarrow> True | Some v \<Rightarrow> P v)"

lemma opt_all_Some: "opt_all P x \<Longrightarrow> x = Some v \<Longrightarrow> P v"
  by (simp add: opt_all_def)

lemma enum_in_int32: "MessageType_IsValid v \<Longrightarrow> in_int32 v" "Status_IsValid v \<Longrightarrow> in_int32 v"
  by (auto simp: MessageType_IsValid_def Status_IsValid_def in_int32_def)

definition LogEntry_fits :: "wire \<Rightarrow> LogEntry \<Rightarrow> bool" where
  "LogEntry_fits w m \<longleftrightarrow>
     opt_all in_int32 (le_index_fld m) \<and>
     opt_all in_int32 (le_term_fld m) \<and>
     opt_all in_int64 (le_message_id_fld m) \<and>
     opt_all in_int32 (le_operation_fld m) \<and>
     opt_all (\<lambda>s. length s < 2 ^ 31) (le_message_fld m) \<and>
     le_unknown m = []"

definition RequestVoteRequest_fits :: "wire \<Rightarrow> RequestVoteRequest \<Rightarrow> bool" where
  "RequestVoteRequest_fits w m \<longleftrightarrow>
     opt_all in_int32 (rvq_term_fld m) \<and>
     opt_all in_int32 (rvq_candidate_id_fld m) \<and>
     opt_all in_int32 (rvq_last_log_index_fld m) \<and>
     opt_all in_int32 (rvq_last_log_term_fld m) \<and>
     rvq_unknown m = []"

definition RequestVoteResponse_fits :: "wire \<Rightarrow> RequestVoteResponse \<Rightarrow> bool" where
  "RequestVoteResponse_fits w m \<longleftrightarrow>
     opt_all in_int32 (rvs_term_fld m) \<and>
     opt_all in_int32 (rvs_vote_result_term_granted_fld m) \<and>
     rvs_unknown m = []"

definition AppendEntriesRequest_fits :: "wire \<Rightarrow> AppendEntriesRequest \<Rightarrow> bool" where
  "AppendEntriesRequest_fits w m \<longleftrightarrow>
     opt_all in_int32 (aeq_term_fld m) \<and>
     opt_all in_int32 (aeq_leader_id_fld m) \<and>
     opt_all in_int32 (aeq_prev_log_index_fld m) \<and>
     opt_all in_int32 (aeq_prev_log_term_fld m) \<and>
     list_all (\<lambda>x. LogEntry_fits w x \<and> LogEntry_ByteSizeLong w x < 2 ^ 31) (aeq_entries m) \<and>
     opt_all in_int32 (aeq_leader_commit_fld m) \<and>
     aeq_unknown m = []"

definition AppendEntriesResponse_fits :: "wire \<Rightarrow> AppendEntriesResponse \<Rightarrow> bool" where
  "AppendEntriesResponse_fits w m \<longleftrightarrow>
     opt_all in_int32 (aes_term_fld m) \<and>
     opt_all in_int32 (aes_follower_id_fld m) \<and>
     opt_all in_int32 (aes_append_result_success_fld m) \<and>
     opt_all in_int32 (aes_last_index_synced_fld m) \<and>
     aes_unknown m = []"

definition ClientPutMessage_fits :: "wire \<Rightarrow> ClientPutMessage \<Rightarrow> bool" where
  "ClientPutMessage_fits w m \<longleftrightarrow>
     opt_all (\<lambda>s. length s < 2 ^ 31) (cpm_message_fld m) \<and>
     opt_all in_int64 (cpm_message_id_fld m) \<and>
     cpm_unknown m = []"

definition ClientPutMessageResponse_fits :: "wire \<Rightarrow> ClientPutMessageResponse \<Rightarrow> bool" where
  "ClientPutMessageResponse_fits w m \<longleftrightarrow>
     opt_all in_int64 (cpr_message_id_fld m) \<and>
     opt_all Status_IsValid (cpr_status_fld m) \<and>
     opt_all (\<lambda>s. length s < 2 ^ 31) (cpr_error_message_fld m) \<and>
     cpr_unknown m = []"

definition ClientCommitMessage_fits :: "wire \<Rightarrow> ClientCommitMessage \<Rightarrow> bool" where
  "ClientCommitMessage_fits w m \<longleftrightarrow>
     opt_all in_int64 (ccm_message_id_fld m) \<and>
     ccm_unknown m = []"

definition ServerSendMessage_fits :: "wire \<Rightarrow> ServerSendMessage \<Rightarrow> bool" where
  "ServerSendMessage_fits w m \<longleftrightarrow>
     opt_all in_int64 (ssm_message_id_fld m) \<and>
     opt_all (\<lambda>s. length s < 2 ^ 31) (ssm_message_fld m) \<and>
     ssm_unknown m = []"

definition ClientOpenQueue_fits :: "wire \<Rightarrow> ClientOpenQueue \<Rightarrow> bool" where
  "ClientOpenQueue_fits w m \<longleftrightarrow>
     opt_all in_int32 (coq_open_mode_fld m) \<and>
     opt_all (\<lambda>s. length s < 2 ^ 31) (coq_queue_name_fld m) \<and>
     coq_unknown m = []"

definition ClientOpenQueueResponse_fits :: "wire \<Rightarrow> ClientOpenQueueResponse \<Rightarrow> bool" where
  "ClientOpenQueueResponse_fits w m \<longleftrightarrow>
     opt_all Status_IsValid (cor_status_fld m) \<and>
     opt_all (\<lambda>s. length s < 2 ^ 31) (cor_error_message_fld m) \<and>
     opt_all (\<lambda>s. length s < 2 ^ 31) (cor_leader_ip_fld m) \<and>
     opt_all (\<lambda>s. length s < 2 ^ 31) (cor_leader_port_fld m) \<and>
     cor_unknown m = []"

definition ConsumerDisconnected_fits :: "wire \<Rightarrow> ConsumerDisconnected \<Rightarrow> bool" where
  "ConsumerDisconnected_fits w m \<longleftrightarrow>
     opt_all in_int32 (cdc_client_id_fld m) \<and>
     cdc_unknown m = []"

definition FlowMessage_fits :: "wire \<Rightarrow> FlowMessage \<Rightarrow> bool" where
  "FlowMessage_fits w m \<longleftrightarrow>
     opt_all MessageType_IsValid (fm_type_fld m) \<and>
     opt_all in_int64 (fm_partition_id_fld m) \<and>
     opt_all (\<lambda>x. RequestVoteRequest_fits w x \<and> RequestVoteRequest_ByteSizeLong w x < 2 ^ 31) (fm_request_vote_request_fld m) \<and>
     opt_all (\<lambda>x. RequestVoteResponse_fits w x \<and> RequestVoteResponse_ByteSizeLong w x < 2 ^ 31) (fm_request_vote_response_fld m) \<and>
     opt_all (\<lambda>x. AppendEntriesRequest_fits w x \<and> AppendEntriesRequest_ByteSizeLong w x < 2 ^ 31) (fm_append_entries_request_fld m) \<and>
     opt_all (\<lambda>x. AppendEntriesResponse_fits w x \<and> AppendEntriesResponse_ByteSizeLong w x < 2 ^ 31) (fm_append_entries_response_fld m) \<and>
     opt_all (\<lambda>x. ClientPutMessage_fits w x \<and> ClientPutMessage_ByteSizeLong w x < 2 ^ 31) (fm_client_put_message_fld m) \<and>
     opt_all (\<lambda>x. ClientCommitMessage_fits w x \<and> ClientCommitMessage_ByteSizeLong w x < 2 ^ 31) (fm_client_commit_message_fld m) \<and>
     opt_all (\<lambda>x. ServerSendMessage_fits w x \<and> ServerSendMessage_ByteSizeLong w x < 2 ^ 31) (fm_server_send_message_fld m) \<and>
     opt_all (\<lambda>x. ClientOpenQueue_fits w x \<and> ClientOpenQueue_ByteSizeLong w x < 2 ^ 31) (fm_client_open_queue_fld m) \<and>
     opt_all (\<lambda>x. ConsumerDisconnected_fits w x \<and> ConsumerDisconnected_ByteSizeLong w x < 2 ^ 31) (fm_consumer_disconnected_fld m) \<and>
     opt_all (\<lambda>x. ClientOpenQueueResponse_fits w x \<and> ClientOpenQueueResponse_ByteSizeLong w x < 2 ^ 31) (fm_client_open_queue_response_fld m) \<and>
     opt_all (\<lambda>x. ClientPutMessageResponse_fits w x \<and> ClientPutMessageResponse_ByteSizeLong w x < 2 ^ 31) (fm_client_put_message_response_fld m) \<and>
     fm_unknown m = []"

lemmas fits_defs =
  LogEntry_fits_def RequestVoteRequest_fits_def RequestVoteResponse_fits_def
  AppendEntriesRequest_fits_def AppendEntriesResponse_fits_def ClientPutMessage_fits_def
  ClientPutMessageResponse_fits_def ClientCommitMessage_fits_def ServerSendMessage_fits_def
  ClientOpenQueue_fits_def ClientOpenQueueResponse_fits_def ConsumerDisconnected_fits_def
  FlowMessage_fits_def opt_all_def

lemma merge_opt_None [simp]: "merge_opt None x = x"
  by (cases x) simp_all

context wire_format begin

lemma parse_no_unknown: "parse_loop w field skip (put_unknown w []) m = Some (True, m, [])"
  by (simp add: put_unknown_def parse_end)

lemma size_int32_opt:
  "field_number n \<Longrightarrow> opt_all in_int32 x \<Longrightarrow> length (put_opt (WriteInt32 w n) x) = size_opt (Int32Size w) x"
  by (cases x) (simp_all add: opt_all_def size_int32)

lemma size_int64_opt:
  "field_number n \<Longrightarrow> opt_all in_int64 x \<Longrightarrow> length (put_opt (WriteInt64 w n) x) = size_opt (Int64Size w) x"
  by (cases x) (simp_all add: opt_all_def size_int64)

lemma size_enum_opt:
  "field_number n \<Longrightarrow> opt_all MessageType_IsValid x \<or> opt_all Status_IsValid x \<Longrightarrow>
   length (put_opt (WriteEnum w n) x) = size_opt (EnumSize w) x"
  by (cases x) (auto simp: opt_all_def size_enum enum_in_int32)

lemma size_string_opt:
  "field_number n \<Longrightarrow> length (put_opt (WriteString w n) s) = size_opt (\<lambda>s. LengthDelimitedSize w (length s)) s"
  by (cases s) (simp_all add: size_string)

lemma size_message_opt:
  "field_number n \<Longrightarrow> (\<And>x. y = Some x \<Longrightarrow> length (ser x) = bytes x) \<Longrightarrow>
   length (put_opt (\<lambda>x. WriteMessage w n (ser x)) y) = size_opt (\<lambda>x. LengthDelimitedSize w (bytes x)) y"
  by (cases y) (simp_all add: size_message)

lemma size_message_all:
  "field_number n \<Longrightarrow> (\<And>x. x \<in> set xs \<Longrightarrow> length (ser x) = bytes x) \<Longrightarrow>
   length (put_all (\<lambda>x. WriteMessage w n (ser x)) xs) = size_all (\<lambda>x. LengthDelimitedSize w (bytes x)) xs"
  by (induction xs) (simp_all add: put_all_def size_all_def size_message)

lemma size_unknown_part: "length (put_unknown w u) = (if u \<noteq> [] then ComputeUnknownFieldsSize w u else 0)"
  by (simp add: put_unknown_def size_unknown)

lemmas size_field_laws = size_int32_opt size_int64_opt size_enum_opt size_string_opt size_unknown_part

lemma ReadMessage_returns:
  assumes "\<And>input m. \<exists>ok m' r'. parse input m = Some (ok, m', r') \<and> length r' \<le> length input"
  shows "\<exists>ok m' r'. ReadMessage w parse old input = Some (ok, m', r') \<and> length r' \<le> length input"
proof (cases "ReadLength w input")
  case None
  then show ?thesis by (auto simp: ReadMessage_def)
next
  case (Some p)
  then obtain body rest where p: "ReadLength w input = Some (body, rest)" by (cases p) auto
  moreover obtain ok m' r' where "parse body old = Some (ok, m', r')" using assms by blast
  ultimately show ?thesis using length_shrinks [OF p] by (simp add: ReadMessage_def)
qed

lemma ReadMessage_shrinks:
  assumes "\<And>input m. \<exists>ok m' r'. parse input m = Some (ok, m', r') \<and> length r' \<le> length input"
    and "ReadMessage w parse old input = Some (ok, m', r')"
  shows "length r' \<le> length input"
  using ReadMessage_returns [where parse = parse, of old input] assms by auto

lemma ReadMessage_total:
  assumes "\<And>input m. \<exists>ok m' r'. parse input m = Some (ok, m', r') \<and> length r' \<le> length input"
  shows "ReadMessage w parse old input \<noteq> None"
  using ReadMessage_returns [where parse = parse, of old input] assms by auto

lemmas read_shrinks = int32_shrinks int64_shrinks enum_shrinks string_shrinks

lemma LogEntry_new_simps [simp]:
  "le_index_fld LogEntry_new = None"
  "le_term_fld LogEntry_new = None"
  "le_message_id_fld LogEntry_new = None"
  "le_operation_fld LogEntry_new = None"
  "le_message_fld LogEntry_new = None"
  by (simp_all add: LogEntry_new_def)

lemma LogEntry_reset:
  "le_index_fld m = None \<Longrightarrow> m\<lparr>le_index_fld := None\<rparr> = m"
  "le_term_fld m = None \<Longrightarrow> m\<lparr>le_term_fld := None\<rparr> = m"
  "le_message_id_fld m = None \<Longrightarrow> m\<lparr>le_message_id_fld := None\<rparr> = m"
  "le_operation_fld m = None \<Longrightarrow> m\<lparr>le_operation_fld := None\<rparr> = m"
  "le_message_fld m = None \<Longrightarrow> m\<lparr>le_message_fld := None\<rparr> = m"
  by (cases m; simp)+

lemma LogEntry_array [simp]: "LogEntry_InternalSerializeWithCachedSizesToArray w m = LogEntry_SerializeWithCachedSizes w m"
  by (simp add: LogEntry_InternalSerializeWithCachedSizesToArray_def LogEntry_SerializeWithCachedSizes_def put_unknown_to_array_def put_unknown_def)

lemma LogEntry_size:
  assumes "LogEntry_fits w m"
  shows "length (LogEntry_SerializeWithCachedSizes w m) = LogEntry_ByteSizeLong w m"
proof -
  from assms have
    a1: "opt_all in_int32 (le_index_fld m)"
    and a2: "opt_all in_int32 (le_term_fld m)"
    and a3: "opt_all in_int64 (le_message_id_fld m)"
    and a4: "opt_all in_int32 (le_operation_fld m)"
    and a5: "opt_all (\<lambda>s. length s < 2 ^ 31) (le_message_fld m)"
    and u: "le_unknown m = []"
    by (simp_all add: LogEntry_fits_def)
  have l1: "length (put_opt (WriteInt32 w 1) (le_index_fld m)) = size_opt (Int32Size w) (le_index_fld m)"
    by (rule size_int32_opt [OF _ a1]) (simp add: field_number_def)
  have l2: "length (put_opt (WriteInt32 w 2) (le_term_fld m)) = size_opt (Int32Size w) (le_term_fld m)"
    by (rule size_int32_opt [OF _ a2]) (simp add: field_number_def)
  have l3: "length (put_opt (WriteInt64 w 3) (le_message_id_fld m)) = size_opt (Int64Size w) (le_message_id_fld m)"
    by (rule size_int64_opt [OF _ a3]) (simp add: field_number_def)
  have l4: "length (put_opt (WriteInt32 w 4) (le_operation_fld m)) = size_opt (Int32Size w) (le_operation_fld m)"
    by (rule size_int32_opt [OF _ a4]) (simp add: field_number_def)
  have l5: "length (put_opt (WriteString w 5) (le_message_fld m)) = size_opt (\<lambda>s. LengthDelimitedSize w (length s)) (le_message_fld m)"
    by (rule size_string_opt) (simp add: field_number_def)
  show ?thesis
    unfolding LogEntry_SerializeWithCachedSizes_def LogEntry_ByteSizeLong_def length_append l1 l2 l3 l4 l5 size_unknown_part
    by (auto simp: LogEntry_RequiredFieldsByteSizeFallback_def le_index_def le_term_def le_message_id_def le_operation_def le_message_def)
qed

lemma LogEntry_roundtrip:
  assumes "LogEntry_fits w m"
  shows "LogEntry_MergePartialFromCodedStream w (LogEntry_SerializeWithCachedSizes w m) LogEntry_new = Some (True, m, [])"
proof -
  from assms have
    a1: "opt_all in_int32 (le_index_fld m)"
    and a2: "opt_all in_int32 (le_term_fld m)"
    and a3: "opt_all in_int64 (le_message_id_fld m)"
    and a4: "opt_all in_int32 (le_operation_fld m)"
    and a5: "opt_all (\<lambda>s. length s < 2 ^ 31) (le_message_fld m)"
    and u: "le_unknown m = []"
    by (simp_all add: LogEntry_fits_def)
  let ?loop = "parse_loop w (LogEntry_field w) (LogEntry_skip w)"
  let ?m0 = LogEntry_new
  let ?m1 = "?m0\<lparr>le_index_fld := le_index_fld m\<rparr>"
  let ?m2 = "?m1\<lparr>le_term_fld := le_term_fld m\<rparr>"
  let ?m3 = "?m2\<lparr>le_message_id_fld := le_message_id_fld m\<rparr>"
  let ?m4 = "?m3\<lparr>le_operation_fld := le_operation_fld m\<rparr>"
  let ?m5 = "?m4\<lparr>le_message_fld := le_message_fld m\<rparr>"
  have s1: "?loop (put_opt (WriteInt32 w 1) (le_index_fld m) @ rest) ?m0 = ?loop rest ?m1" for rest
    by (rule parse_int32 [where get = le_index_fld and upd = "\<lambda>x. le_index_fld_update (\<lambda>_. x)"])
      (simp_all add: field_number_def LogEntry_field_def LogEntry_reset opt_all_Some [OF a1])
  have s2: "?loop (put_opt (WriteInt32 w 2) (le_term_fld m) @ rest) ?m1 = ?loop rest ?m2" for rest
    by (rule parse_int32 [where get = le_term_fld and upd = "\<lambda>x. le_term_fld_update (\<lambda>_. x)"])
      (simp_all add: field_number_def LogEntry_field_def LogEntry_reset opt_all_Some [OF a2])
  have s3: "?loop (put_opt (WriteInt64 w 3) (le_message_id_fld m) @ rest) ?m2 = ?loop rest ?m3" for rest
    by (rule parse_int64 [where get = le_message_id_fld and upd = "\<lambda>x. le_message_id_fld_update (\<lambda>_. x)"])
      (simp_all add: field_number_def LogEntry_field_def LogEntry_reset opt_all_Some [OF a3])
  have s4: "?loop (put_opt (WriteInt32 w 4) (le_operation_fld m) @ rest) ?m3 = ?loop rest ?m4" for rest
    by (rule parse_int32 [where get = le_operation_fld and upd = "\<lambda>x. le_operation_fld_update (\<lambda>_. x)"])
      (simp_all add: field_number_def LogEntry_field_def LogEntry_reset opt_all_Some [OF a4])
  have s5: "?loop (put_opt (WriteString w 5) (le_message_fld m) @ rest) ?m4 = ?loop rest ?m5" for rest
    by (rule parse_string [where get = le_message_fld and upd = "\<lambda>x. le_message_fld_update (\<lambda>_. x)"])
      (simp_all add: field_number_def LogEntry_field_def LogEntry_reset, use opt_all_Some [OF a5] in simp)
  have "?loop (LogEntry_SerializeWithCachedSizes w m) ?m0 = ?loop (put_unknown w (le_unknown m)) ?m5"
    unfolding LogEntry_SerializeWithCachedSizes_def s1 s2 s3 s4 s5 by (rule refl)
  moreover have "?m5 = m"
    using u by (cases m) (simp add: LogEntry_new_def)
  ultimately show ?thesis
    unfolding LogEntry_MergePartialFromCodedStream_def by (simp only: u parse_no_unknown)
qed

lemma LogEntry_MergeFrom_new: "LogEntry_MergeFrom w LogEntry_new x = x"
  by (cases x) (simp add: LogEntry_MergeFrom_def LogEntry_new_def merge_unknown_empty split: option.splits)

lemma LogEntry_copy: "LogEntry_CopyFrom w m x = x"
proof -
  have "LogEntry_Clear m = LogEntry_new" by (simp add: LogEntry_Clear_def LogEntry_new_def)
  then show ?thesis by (simp add: LogEntry_CopyFrom_def LogEntry_MergeFrom_new)
qed

lemma LogEntry_returns: "\<exists>ok m' r'. LogEntry_MergePartialFromCodedStream w input m = Some (ok, m', r') \<and> length r' \<le> length input"
  unfolding LogEntry_MergePartialFromCodedStream_def
proof (rule parse_loop_returns)
  show "LogEntry_field w tag r m \<noteq> Some None" for tag r m
    by (simp add: LogEntry_field_def)
  show "tag \<noteq> 0 \<and> length r' \<le> length r" if "LogEntry_field w tag r m = Some (Some (ok, m', r'))" for tag r m ok m' r'
    using that by (auto simp: LogEntry_field_def split: if_splits prod.splits dest!: read_shrinks)
  show "length r' \<le> length r" if "LogEntry_skip w tag r m = (ok, m', r')" for tag r m ok m' r'
    using that by (auto simp: LogEntry_skip_def split: prod.splits dest: skip_shrinks)
qed

lemma RequestVoteRequest_new_simps [simp]:
  "rvq_term_fld RequestVoteRequest_new = None"
  "rvq_candidate_id_fld RequestVoteRequest_new = None"
  "rvq_last_log_index_fld RequestVoteRequest_new = None"
  "rvq_last_log_term_fld RequestVoteRequest_new = None"
  by (simp_all add: RequestVoteRequest_new_def)

lemma RequestVoteRequest_reset:
  "rvq_term_fld m = None \<Longrightarrow> m\<lparr>rvq_term_fld := None\<rparr> = m"
  "rvq_candidate_id_fld m = None \<Longrightarrow> m\<lparr>rvq_candidate_id_fld := None\<rparr> = m"
  "rvq_last_log_index_fld m = None \<Longrightarrow> m\<lparr>rvq_last_log_index_fld := None\<rparr> = m"
  "rvq_last_log_term_fld m = None \<Longrightarrow> m\<lparr>rvq_last_log_term_fld := None\<rparr> = m"
  by (cases m; simp)+

lemma RequestVoteRequest_array [simp]: "RequestVoteRequest_InternalSerializeWithCachedSizesToArray w m = RequestVoteRequest_SerializeWithCachedSizes w m"
  by (simp add: RequestVoteRequest_InternalSerializeWithCachedSizesToArray_def RequestVoteRequest_SerializeWithCachedSizes_def put_unknown_to_array_def put_unknown_def)

lemma RequestVoteRequest_size:
  assumes "RequestVoteRequest_fits w m"
  shows "length (RequestVoteRequest_SerializeWithCachedSizes w m) = RequestVoteRequest_ByteSizeLong w m"
proof -
  from assms have
    a1: "opt_all in_int32 (rvq_term_fld m)"
    and a2: "opt_all in_int32 (rvq_candidate_id_fld m)"
    and a3: "opt_all in_int32 (rvq_last_log_index_fld m)"
    and a4: "opt_all in_int32 (rvq_last_log_term_fld m)"
    and u: "rvq_unknown m = []"
    by (simp_all add: RequestVoteRequest_fits_def)
  have l1: "length (put_opt (WriteInt32 w 1) (rvq_term_fld m)) = size_opt (Int32Size w) (rvq_term_fld m)"
    by (rule size_int32_opt [OF _ a1]) (simp add: field_number_def)
  have l2: "length (put_opt (WriteInt32 w 2) (rvq_candidate_id_fld m)) = size_opt (Int32Size w) (rvq_candidate_id_fld m)"
    by (rule size_int32_opt [OF _ a2]) (simp add: field_number_def)
  have l3: "length (put_opt (WriteInt32 w 3) (rvq_last_log_index_fld m)) = size_opt (Int32Size w) (rvq_last_log_index_fld m)"
    by (rule size_int32_opt [OF _ a3]) (simp add: field_number_def)
  have l4: "length (put_opt (WriteInt32 w 4) (rvq_last_log_term_fld m)) = size_opt (Int32Size w) (rvq_last_log_term_fld m)"
    by (rule size_int32_opt [OF _ a4]) (simp add: field_number_def)
  show ?thesis
    unfolding RequestVoteRequest_SerializeWithCachedSizes_def RequestVoteRequest_ByteSizeLong_def length_append l1 l2 l3 l4 size_unknown_part
    by (auto simp: RequestVoteRequest_RequiredFieldsByteSizeFallback_def rvq_term_def rvq_candidate_id_def rvq_last_log_index_def rvq_last_log_term_def)
qed

lemma RequestVoteRequest_roundtrip:
  assumes "RequestVoteRequest_fits w m"
  shows "RequestVoteRequest_MergePartialFromCodedStream w (RequestVoteRequest_SerializeWithCachedSizes w m) RequestVoteRequest_new = Some (True, m, [])"
proof -
  from assms have
    a1: "opt_all in_int32 (rvq_term_fld m)"
    and a2: "opt_all in_int32 (rvq_candidate_id_fld m)"
    and a3: "opt_all in_int32 (rvq_last_log_index_fld m)"
    and a4: "opt_all in_int32 (rvq_last_log_term_fld m)"
    and u: "rvq_unknown m = []"
    by (simp_all add: RequestVoteRequest_fits_def)
  let ?loop = "parse_loop w (RequestVoteRequest_field w) (RequestVoteRequest_skip w)"
  let ?m0 = RequestVoteRequest_new
  let ?m1 = "?m0\<lparr>rvq_term_fld := rvq_term_fld m\<rparr>"
  let ?m2 = "?m1\<lparr>rvq_candidate_id_fld := rvq_candidate_id_fld m\<rparr>"
  let ?m3 = "?m2\<lparr>rvq_last_log_index_fld := rvq_last_log_index_fld m\<rparr>"
  let ?m4 = "?m3\<lparr>rvq_last_log_term_fld := rvq_last_log_term_fld m\<rparr>"
  have s1: "?loop (put_opt (WriteInt32 w 1) (rvq_term_fld m) @ rest) ?m0 = ?loop rest ?m1" for rest
    by (rule parse_int32 [where get = rvq_term_fld and upd = "\<lambda>x. rvq_term_fld_update (\<lambda>_. x)"])
      (simp_all add: field_number_def RequestVoteRequest_field_def RequestVoteRequest_reset opt_all_Some [OF a1])
  have s2: "?loop (put_opt (WriteInt32 w 2) (rvq_candidate_id_fld m) @ rest) ?m1 = ?loop rest ?m2" for rest
    by (rule parse_int32 [where get = rvq_candidate_id_fld and upd = "\<lambda>x. rvq_candidate_id_fld_update (\<lambda>_. x)"])
      (simp_all add: field_number_def RequestVoteRequest_field_def RequestVoteRequest_reset opt_all_Some [OF a2])
  have s3: "?loop (put_opt (WriteInt32 w 3) (rvq_last_log_index_fld m) @ rest) ?m2 = ?loop rest ?m3" for rest
    by (rule parse_int32 [where get = rvq_last_log_index_fld and upd = "\<lambda>x. rvq_last_log_index_fld_update (\<lambda>_. x)"])
      (simp_all add: field_number_def RequestVoteRequest_field_def RequestVoteRequest_reset opt_all_Some [OF a3])
  have s4: "?loop (put_opt (WriteInt32 w 4) (rvq_last_log_term_fld m) @ rest) ?m3 = ?loop rest ?m4" for rest
    by (rule parse_int32 [where get = rvq_last_log_term_fld and upd = "\<lambda>x. rvq_last_log_term_fld_update (\<lambda>_. x)"])
      (simp_all add: field_number_def RequestVoteRequest_field_def RequestVoteRequest_reset opt_all_Some [OF a4])
  have "?loop (RequestVoteRequest_SerializeWithCachedSizes w m) ?m0 = ?loop (put_unknown w (rvq_unknown m)) ?m4"
    unfolding RequestVoteRequest_SerializeWithCachedSizes_def s1 s2 s3 s4 by (rule refl)
  moreover have "?m4 = m"
    using u by (cases m) (simp add: RequestVoteRequest_new_def)
  ultimately show ?thesis
    unfolding RequestVoteRequest_MergePartialFromCodedStream_def by (simp only: u parse_no_unknown)
qed

lemma RequestVoteRequest_MergeFrom_new: "RequestVoteRequest_MergeFrom w RequestVoteRequest_new x = x"
  by (cases x) (simp add: RequestVoteRequest_MergeFrom_def RequestVoteRequest_new_def merge_unknown_empty split: option.splits)

lemma RequestVoteRequest_copy: "RequestVoteRequest_CopyFrom w m x = x"
proof -
  have "RequestVoteRequest_Clear m = RequestVoteRequest_new" by (simp add: RequestVoteRequest_Clear_def RequestVoteRequest_new_def)
  then show ?thesis by (simp add: RequestVoteRequest_CopyFrom_def RequestVoteRequest_MergeFrom_new)
qed

lemma RequestVoteRequest_returns: "\<exists>ok m' r'. RequestVoteRequest_MergePartialFromCodedStream w input m = Some (ok, m', r') \<and> length r' \<le> length input"
  unfolding RequestVoteRequest_MergePartialFromCodedStream_def
proof (rule parse_loop_returns)
  show "RequestVoteRequest_field w tag r m \<noteq> Some None" for tag r m
    by (simp add: RequestVoteRequest_field_def)
  show "tag \<noteq> 0 \<and> length r' \<le> length r" if "RequestVoteRequest_field w tag r m = Some (Some (ok, m', r'))" for tag r m ok m' r'
    using that by (auto simp: RequestVoteRequest_field_def split: if_splits prod.splits dest!: read_shrinks)
  show "length r' \<le> length r" if "RequestVoteRequest_skip w tag r m = (ok, m', r')" for tag r m ok m' r'
    using that by (auto simp: RequestVoteRequest_skip_def split: prod.splits dest: skip_shrinks)
qed

lemma RequestVoteResponse_new_simps [simp]:
  "rvs_term_fld RequestVoteResponse_new = None"
  "rvs_vote_result_term_granted_fld RequestVoteResponse_new = None"
  by (simp_all add: RequestVoteResponse_new_def)

lemma RequestVoteResponse_reset:
  "rvs_term_fld m = None \<Longrightarrow> m\<lparr>rvs_term_fld := None\<rparr> = m"
  "rvs_vote_result_term_granted_fld m = None \<Longrightarrow> m\<lparr>rvs_vote_result_term_granted_fld := None\<rparr> = m"
  by (cases m; simp)+

lemma RequestVoteResponse_array [simp]: "RequestVoteResponse_InternalSerializeWithCachedSizesToArray w m = RequestVoteResponse_SerializeWithCachedSizes w m"
  by (simp add: RequestVoteResponse_InternalSerializeWithCachedSizesToArray_def RequestVoteResponse_SerializeWithCachedSizes_def put_unknown_to_array_def put_unknown_def)

lemma RequestVoteResponse_size:
  assumes "RequestVoteResponse_fits w m"
  shows "length (RequestVoteResponse_SerializeWithCachedSizes w m) = RequestVoteResponse_ByteSizeLong w m"
proof -
  from assms have
    a1: "opt_all in_int32 (rvs_term_fld m)"
    and a2: "opt_all in_int32 (rvs_vote_result_term_granted_fld m)"
    and u: "rvs_unknown m = []"
    by (simp_all add: RequestVoteResponse_fits_def)
  have l1: "length (put_opt (WriteInt32 w 1) (rvs_term_fld m)) = size_opt (Int32Size w) (rvs_term_fld m)"
    by (rule size_int32_opt [OF _ a1]) (simp add: field_number_def)
  have l2: "length (put_opt (WriteInt32 w 2) (rvs_vote_result_term_granted_fld m)) = size_opt (Int32Size w) (rvs_vote_result_term_granted_fld m)"
    by (rule size_int32_opt [OF _ a2]) (simp add: field_number_def)
  show ?thesis
    unfolding RequestVoteResponse_SerializeWithCachedSizes_def RequestVoteResponse_ByteSizeLong_def length_append l1 l2 size_unknown_part
    by (auto simp: RequestVoteResponse_RequiredFieldsByteSizeFallback_def rvs_term_def rvs_vote_result_term_granted_def)
qed

lemma RequestVoteResponse_roundtrip:
  assumes "RequestVoteResponse_fits w m"
  shows "RequestVoteResponse_MergePartialFromCodedStream w (RequestVoteResponse_SerializeWithCachedSizes w m) RequestVoteResponse_new = Some (True, m, [])"
proof -
  from assms have
    a1: "opt_all in_int32 (rvs_term_fld m)"
    and a2: "opt_all in_int32 (rvs_vote_result_term_granted_fld m)"
    and u: "rvs_unknown m = []"
    by (simp_all add: RequestVoteResponse_fits_def)
  let ?loop = "parse_loop w (RequestVoteResponse_field w) (RequestVoteResponse_skip w)"
  let ?m0 = RequestVoteResponse_new
  let ?m1 = "?m0\<lparr>rvs_term_fld := rvs_term_fld m\<rparr>"
  let ?m2 = "?m1\<lparr>rvs_vote_result_term_granted_fld := rvs_vote_result_term_granted_fld m\<rparr>"
  have s1: "?loop (put_opt (WriteInt32 w 1) (rvs_term_fld m) @ rest) ?m0 = ?loop rest ?m1" for rest
    by (rule parse_int32 [where get = rvs_term_fld and upd = "\<lambda>x. rvs_term_fld_update (\<lambda>_. x)"])
      (simp_all add: field_number_def RequestVoteResponse_field_def RequestVoteResponse_reset opt_all_Some [OF a1])
  have s2: "?loop (put_opt (WriteInt32 w 2) (rvs_vote_result_term_granted_fld m) @ rest) ?m1 = ?loop rest ?m2" for rest
    by (rule parse_int32 [where get = rvs_vote_result_term_granted_fld and upd = "\<lambda>x. rvs_vote_result_term_granted_fld_update (\<lambda>_. x)"])
      (simp_all add: field_number_def RequestVoteResponse_field_def RequestVoteResponse_reset opt_all_Some [OF a2])
  have "?loop (RequestVoteResponse_SerializeWithCachedSizes w m) ?m0 = ?loop (put_unknown w (rvs_unknown m)) ?m2"
    unfolding RequestVoteResponse_SerializeWithCachedSizes_def s1 s2 by (rule refl)
  moreover have "?m2 = m"
    using u by (cases m) (simp add: RequestVoteResponse_new_def)
  ultimately show ?thesis
    unfolding RequestVoteResponse_MergePartialFromCodedStream_def by (simp only: u parse_no_unknown)
qed

lemma RequestVoteResponse_MergeFrom_new: "RequestVoteResponse_MergeFrom w RequestVoteResponse_new x = x"
  by (cases x) (simp add: RequestVoteResponse_MergeFrom_def RequestVoteResponse_new_def merge_unknown_empty split: option.splits)

lemma RequestVoteResponse_copy: "RequestVoteResponse_CopyFrom w m x = x"
proof -
  have "RequestVoteResponse_Clear m = RequestVoteResponse_new" by (simp add: RequestVoteResponse_Clear_def RequestVoteResponse_new_def)
  then show ?thesis by (simp add: RequestVoteResponse_CopyFrom_def RequestVoteResponse_MergeFrom_new)
qed

lemma RequestVoteResponse_returns: "\<exists>ok m' r'. RequestVoteResponse_MergePartialFromCodedStream w input m = Some (ok, m', r') \<and> length r' \<le> length input"
  unfolding RequestVoteResponse_MergePartialFromCodedStream_def
proof (rule parse_loop_returns)
  show "RequestVoteResponse_field w tag r m \<noteq> Some None" for tag r m
    by (simp add: RequestVoteResponse_field_def)
  show "tag \<noteq> 0 \<and> length r' \<le> length r" if "RequestVoteResponse_field w tag r m = Some (Some (ok, m', r'))" for tag r m ok m' r'
    using that by (auto simp: RequestVoteResponse_field_def split: if_splits prod.splits dest!: read_shrinks)
  show "length r' \<le> length r" if "RequestVoteResponse_skip w tag r m = (ok, m', r')" for tag r m ok m' r'
    using that by (auto simp: RequestVoteResponse_skip_def split: prod.splits dest: skip_shrinks)
qed

lemma AppendEntriesRequest_new_simps [simp]:
  "aeq_term_fld AppendEntriesRequest_new = None"
  "aeq_leader_id_fld AppendEntriesRequest_new = None"
  "aeq_prev_log_index_fld AppendEntriesRequest_new = None"
  "aeq_prev_log_term_fld AppendEntriesRequest_new = None"
  "aeq_entries AppendEntriesRequest_new = []"
  "aeq_leader_commit_fld AppendEntriesRequest_new = None"
  by (simp_all add: AppendEntriesRequest_new_def)

lemma AppendEntriesRequest_reset:
  "aeq_term_fld m = None \<Longrightarrow> m\<lparr>aeq_term_fld := None\<rparr> = m"
  "aeq_leader_id_fld m = None \<Longrightarrow> m\<lparr>aeq_leader_id_fld := None\<rparr> = m"
  "aeq_prev_log_index_fld m = None \<Longrightarrow> m\<lparr>aeq_prev_log_index_fld := None\<rparr> = m"
  "aeq_prev_log_term_fld m = None \<Longrightarrow> m\<lparr>aeq_prev_log_term_fld := None\<rparr> = m"
  "aeq_leader_commit_fld m = None \<Longrightarrow> m\<lparr>aeq_leader_commit_fld := None\<rparr> = m"
  by (cases m; simp)+

lemma AppendEntriesRequest_array [simp]: "AppendEntriesRequest_InternalSerializeWithCachedSizesToArray w m = AppendEntriesRequest_SerializeWithCachedSizes w m"
  by (simp add: AppendEntriesRequest_InternalSerializeWithCachedSizesToArray_def AppendEntriesRequest_SerializeWithCachedSizes_def put_unknown_to_array_def put_unknown_def)

lemma AppendEntriesRequest_size:
  assumes "AppendEntriesRequest_fits w m"
  shows "length (AppendEntriesRequest_SerializeWithCachedSizes w m) = AppendEntriesRequest_ByteSizeLong w m"
proof -
  from assms have
    a1: "opt_all in_int32 (aeq_term_fld m)"
    and a2: "opt_all in_int32 (aeq_leader_id_fld m)"
    and a3: "opt_all in_int32 (aeq_prev_log_index_fld m)"
    and a4: "opt_all in_int32 (aeq_prev_log_term_fld m)"
    and a5: "list_all (\<lambda>x. LogEntry_fits w x \<and> LogEntry_ByteSizeLong w x < 2 ^ 31) (aeq_entries m)"
    and a6: "opt_all in_int32 (aeq_leader_commit_fld m)"
    and u: "aeq_unknown m = []"
    by (simp_all add: AppendEntriesRequest_fits_def)
  have l1: "length (put_opt (WriteInt32 w 1) (aeq_term_fld m)) = size_opt (Int32Size w) (aeq_term_fld m)"
    by (rule size_int32_opt [OF _ a1]) (simp add: field_number_def)
  have l2: "length (put_opt (WriteInt32 w 2) (aeq_leader_id_fld m)) = size_opt (Int32Size w) (aeq_leader_id_fld m)"
    by (rule size_int32_opt [OF _ a2]) (simp add: field_number_def)
  have l3: "length (put_opt (WriteInt32 w 3) (aeq_prev_log_index_fld m)) = size_opt (Int32Size w) (aeq_prev_log_index_fld m)"
    by (rule size_int32_opt [OF _ a3]) (simp add: field_number_def)
  have l4: "length (put_opt (WriteInt32 w 4) (aeq_prev_log_term_fld m)) = size_opt (Int32Size w) (aeq_prev_log_term_fld m)"
    by (rule size_int32_opt [OF _ a4]) (simp add: field_number_def)
  have l5: "length (put_all (\<lambda>x. WriteMessage w 5 (LogEntry_SerializeWithCachedSizes w x)) (aeq_entries m)) = size_all (\<lambda>x. LengthDelimitedSize w (LogEntry_ByteSizeLong w x)) (aeq_entries m)"
    by (rule size_message_all) (use a5 in \<open>simp_all add: field_number_def list_all_iff LogEntry_size\<close>)
  have l6: "length (put_opt (WriteInt32 w 6) (aeq_leader_commit_fld m)) = size_opt (Int32Size w) (aeq_leader_commit_fld m)"
    by (rule size_int32_opt [OF _ a6]) (simp add: field_number_def)
  show ?thesis
    unfolding AppendEntriesRequest_SerializeWithCachedSizes_def AppendEntriesRequest_ByteSizeLong_def length_append l1 l2 l3 l4 l5 l6 size_unknown_part
    by (auto simp: AppendEntriesRequest_RequiredFieldsByteSizeFallback_def aeq_term_def aeq_leader_id_def aeq_prev_log_index_def aeq_prev_log_term_def aeq_leader_commit_def)
qed

lemma AppendEntriesRequest_roundtrip:
  assumes "AppendEntriesRequest_fits w m"
  shows "AppendEntriesRequest_MergePartialFromCodedStream w (AppendEntriesRequest_SerializeWithCachedSizes w m) AppendEntriesRequest_new = Some (True, m, [])"
proof -
  from assms have
    a1: "opt_all in_int32 (aeq_term_fld m)"
    and a2: "opt_all in_int32 (aeq_leader_id_fld m)"
    and a3: "opt_all in_int32 (aeq_prev_log_index_fld m)"
    and a4: "opt_all in_int32 (aeq_prev_log_term_fld m)"
    and a5: "list_all (\<lambda>x. LogEntry_fits w x \<and> LogEntry_ByteSizeLong w x < 2 ^ 31) (aeq_entries m)"
    and a6: "opt_all in_int32 (aeq_leader_commit_fld m)"
    and u: "aeq_unknown m = []"
    by (simp_all add: AppendEntriesRequest_fits_def)
  let ?loop = "parse_loop w (AppendEntriesRequest_field w) (AppendEntriesRequest_skip w)"
  let ?m0 = AppendEntriesRequest_new
  let ?m1 = "?m0\<lparr>aeq_term_fld := aeq_term_fld m\<rparr>"
  let ?m2 = "?m1\<lparr>aeq_leader_id_fld := aeq_leader_id_fld m\<rparr>"
  let ?m3 = "?m2\<lparr>aeq_prev_log_index_fld := aeq_prev_log_index_fld m\<rparr>"
  let ?m4 = "?m3\<lparr>aeq_prev_log_term_fld := aeq_prev_log_term_fld m\<rparr>"
  let ?m5 = "?m4\<lparr>aeq_entries := aeq_entries m\<rparr>"
  let ?m6 = "?m5\<lparr>aeq_leader_commit_fld := aeq_leader_commit_fld m\<rparr>"
  have s1: "?loop (put_opt (WriteInt32 w 1) (aeq_term_fld m) @ rest) ?m0 = ?loop rest ?m1" for rest
    by (rule parse_int32 [where get = aeq_term_fld and upd = "\<lambda>x. aeq_term_fld_update (\<lambda>_. x)"])
      (simp_all add: field_number_def AppendEntriesRequest_field_def AppendEntriesRequest_reset opt_all_Some [OF a1])
  have s2: "?loop (put_opt (WriteInt32 w 2) (aeq_leader_id_fld m) @ rest) ?m1 = ?loop rest ?m2" for rest
    by (rule parse_int32 [where get = aeq_leader_id_fld and upd = "\<lambda>x. aeq_leader_id_fld_update (\<lambda>_. x)"])
      (simp_all add: field_number_def AppendEntriesRequest_field_def AppendEntriesRequest_reset opt_all_Some [OF a2])
  have s3: "?loop (put_opt (WriteInt32 w 3) (aeq_prev_log_index_fld m) @ rest) ?m2 = ?loop rest ?m3" for rest
    by (rule parse_int32 [where get = aeq_prev_log_index_fld and upd = "\<lambda>x. aeq_prev_log_index_fld_update (\<lambda>_. x)"])
      (simp_all add: field_number_def AppendEntriesRequest_field_def AppendEntriesRequest_reset opt_all_Some [OF a3])
  have s4: "?loop (put_opt (WriteInt32 w 4) (aeq_prev_log_term_fld m) @ rest) ?m3 = ?loop rest ?m4" for rest
    by (rule parse_int32 [where get = aeq_prev_log_term_fld and upd = "\<lambda>x. aeq_prev_log_term_fld_update (\<lambda>_. x)"])
      (simp_all add: field_number_def AppendEntriesRequest_field_def AppendEntriesRequest_reset opt_all_Some [OF a4])
  have s5: "?loop (put_all (\<lambda>x. WriteMessage w 5 (LogEntry_SerializeWithCachedSizes w x)) (aeq_entries m) @ rest) ?m4 = ?loop rest ?m5" for rest
    using parse_repeated [where n = 5 and ys = "aeq_entries m" and ser = "LogEntry_SerializeWithCachedSizes w" and parse = "LogEntry_MergePartialFromCodedStream w"
        and new = LogEntry_new and field = "AppendEntriesRequest_field w" and skip = "AppendEntriesRequest_skip w" and rest = rest and xs = "[]" and m = ?m4
        and app = "\<lambda>xs. aeq_entries_update (\<lambda>_. xs)"] a5
    by (simp add: AppendEntriesRequest_new_def AppendEntriesRequest_field_def field_number_def list_all_iff LogEntry_roundtrip LogEntry_size)
  have s6: "?loop (put_opt (WriteInt32 w 6) (aeq_leader_commit_fld m) @ rest) ?m5 = ?loop rest ?m6" for rest
    by (rule parse_int32 [where get = aeq_leader_commit_fld and upd = "\<lambda>x. aeq_leader_commit_fld_update (\<lambda>_. x)"])
      (simp_all add: field_number_def AppendEntriesRequest_field_def AppendEntriesRequest_reset opt_all_Some [OF a6])
  have "?loop (AppendEntriesRequest_SerializeWithCachedSizes w m) ?m0 = ?loop (put_unknown w (aeq_unknown m)) ?m6"
    unfolding AppendEntriesRequest_SerializeWithCachedSizes_def s1 s2 s3 s4 s5 s6 by (rule refl)
  moreover have "?m6 = m"
    using u by (cases m) (simp add: AppendEntriesRequest_new_def)
  ultimately show ?thesis
    unfolding AppendEntriesRequest_MergePartialFromCodedStream_def by (simp only: u parse_no_unknown)
qed

lemma AppendEntriesRequest_MergeFrom_new: "AppendEntriesRequest_MergeFrom w AppendEntriesRequest_new x = x"
  by (cases x) (simp add: AppendEntriesRequest_MergeFrom_def AppendEntriesRequest_new_def merge_unknown_empty LogEntry_MergeFrom_new split: option.splits)

lemma AppendEntriesRequest_copy: "AppendEntriesRequest_CopyFrom w m x = x"
proof -
  have "AppendEntriesRequest_Clear m = AppendEntriesRequest_new" by (simp add: AppendEntriesRequest_Clear_def AppendEntriesRequest_new_def)
  then show ?thesis by (simp add: AppendEntriesRequest_CopyFrom_def AppendEntriesRequest_MergeFrom_new)
qed

lemma AppendEntriesRequest_returns: "\<exists>ok m' r'. AppendEntriesRequest_MergePartialFromCodedStream w input m = Some (ok, m', r') \<and> length r' \<le> length input"
  unfolding AppendEntriesRequest_MergePartialFromCodedStream_def
proof (rule parse_loop_returns)
  show "AppendEntriesRequest_field w tag r m \<noteq> Some None" for tag r m
    by (simp add: AppendEntriesRequest_field_def ReadMessage_total [OF LogEntry_returns, simplified])
  show "tag \<noteq> 0 \<and> length r' \<le> length r" if "AppendEntriesRequest_field w tag r m = Some (Some (ok, m', r'))" for tag r m ok m' r'
    using that by (auto simp: AppendEntriesRequest_field_def split: if_splits prod.splits dest!: read_shrinks dest: ReadMessage_shrinks [OF LogEntry_returns])
  show "length r' \<le> length r" if "AppendEntriesRequest_skip w tag r m = (ok, m', r')" for tag r m ok m' r'
    using that by (auto simp: AppendEntriesRequest_skip_def split: prod.splits dest: skip_shrinks)
qed

lemma AppendEntriesResponse_new_simps [simp]:
  "aes_term_fld AppendEntriesResponse_new = None"
  "aes_follower_id_fld AppendEntriesResponse_new = None"
  "aes_append_result_success_fld AppendEntriesResponse_new = None"
  "aes_last_index_synced_fld AppendEntriesResponse_new = None"
  by (simp_all add: AppendEntriesResponse_new_def)

lemma AppendEntriesResponse_reset:
  "aes_term_fld m = None \<Longrightarrow> m\<lparr>aes_term_fld := None\<rparr> = m"
  "aes_follower_id_fld m = None \<Longrightarrow> m\<lparr>aes_follower_id_fld := None\<rparr> = m"
  "aes_append_result_success_fld m = None \<Longrightarrow> m\<lparr>aes_append_result_success_fld := None\<rparr> = m"
  "aes_last_index_synced_fld m = None \<Longrightarrow> m\<lparr>aes_last_index_synced_fld := None\<rparr> = m"
  by (cases m; simp)+

lemma AppendEntriesResponse_array [simp]: "AppendEntriesResponse_InternalSerializeWithCachedSizesToArray w m = AppendEntriesResponse_SerializeWithCachedSizes w m"
  by (simp add: AppendEntriesResponse_InternalSerializeWithCachedSizesToArray_def AppendEntriesResponse_SerializeWithCachedSizes_def put_unknown_to_array_def put_unknown_def)

lemma AppendEntriesResponse_size:
  assumes "AppendEntriesResponse_fits w m"
  shows "length (AppendEntriesResponse_SerializeWithCachedSizes w m) = AppendEntriesResponse_ByteSizeLong w m"
proof -
  from assms have
    a1: "opt_all in_int32 (aes_term_fld m)"
    and a2: "opt_all in_int32 (aes_follower_id_fld m)"
    and a3: "opt_all in_int32 (aes_append_result_success_fld m)"
    and a4: "opt_all in_int32 (aes_last_index_synced_fld m)"
    and u: "aes_unknown m = []"
    by (simp_all add: AppendEntriesResponse_fits_def)
  have l1: "length (put_opt (WriteInt32 w 1) (aes_term_fld m)) = size_opt (Int32Size w) (aes_term_fld m)"
    by (rule size_int32_opt [OF _ a1]) (simp add: field_number_def)
  have l2: "length (put_opt (WriteInt32 w 2) (aes_follower_id_fld m)) = size_opt (Int32Size w) (aes_follower_id_fld m)"
    by (rule size_int32_opt [OF _ a2]) (simp add: field_number_def)
  have l3: "length (put_opt (WriteInt32 w 3) (aes_append_result_success_fld m)) = size_opt (Int32Size w) (aes_append_result_success_fld m)"
    by (rule size_int32_opt [OF _ a3]) (simp add: field_number_def)
  have l4: "length (put_opt (WriteInt32 w 4) (aes_last_index_synced_fld m)) = size_opt (Int32Size w) (aes_last_index_synced_fld m)"
    by (rule size_int32_opt [OF _ a4]) (simp add: field_number_def)
  show ?thesis
    unfolding AppendEntriesResponse_SerializeWithCachedSizes_def AppendEntriesResponse_ByteSizeLong_def length_append l1 l2 l3 l4 size_unknown_part
    by (auto simp: AppendEntriesResponse_RequiredFieldsByteSizeFallback_def aes_term_def aes_follower_id_def aes_append_result_success_def aes_last_index_synced_def)
qed

lemma AppendEntriesResponse_roundtrip:
  assumes "AppendEntriesResponse_fits w m"
  shows "AppendEntriesResponse_MergePartialFromCodedStream w (AppendEntriesResponse_SerializeWithCachedSizes w m) AppendEntriesResponse_new = Some (True, m, [])"
proof -
  from assms have
    a1: "opt_all in_int32 (aes_term_fld m)"
    and a2: "opt_all in_int32 (aes_follower_id_fld m)"
    and a3: "opt_all in_int32 (aes_append_result_success_fld m)"
    and a4: "opt_all in_int32 (aes_last_index_synced_fld m)"
    and u: "aes_unknown m = []"
    by (simp_all add: AppendEntriesResponse_fits_def)
  let ?loop = "parse_loop w (AppendEntriesResponse_field w) (AppendEntriesResponse_skip w)"
  let ?m0 = AppendEntriesResponse_new
  let ?m1 = "?m0\<lparr>aes_term_fld := aes_term_fld m\<rparr>"
  let ?m2 = "?m1\<lparr>aes_follower_id_fld := aes_follower_id_fld m\<rparr>"
  let ?m3 = "?m2\<lparr>aes_append_result_success_fld := aes_append_result_success_fld m\<rparr>"
  let ?m4 = "?m3\<lparr>aes_last_index_synced_fld := aes_last_index_synced_fld m\<rparr>"
  have s1: "?loop (put_opt (WriteInt32 w 1) (aes_term_fld m) @ rest) ?m0 = ?loop rest ?m1" for rest
    by (rule parse_int32 [where get = aes_term_fld and upd = "\<lambda>x. aes_term_fld_update (\<lambda>_. x)"])
      (simp_all add: field_number_def AppendEntriesResponse_field_def AppendEntriesResponse_reset opt_all_Some [OF a1])
  have s2: "?loop (put_opt (WriteInt32 w 2) (aes_follower_id_fld m) @ rest) ?m1 = ?loop rest ?m2" for rest
    by (rule parse_int32 [where get = aes_follower_id_fld and upd = "\<lambda>x. aes_follower_id_fld_update (\<lambda>_. x)"])
      (simp_all add: field_number_def AppendEntriesResponse_field_def AppendEntriesResponse_reset opt_all_Some [OF a2])
  have s3: "?loop (put_opt (WriteInt32 w 3) (aes_append_result_success_fld m) @ rest) ?m2 = ?loop rest ?m3" for rest
    by (rule parse_int32 [where get = aes_append_result_success_fld and upd = "\<lambda>x. aes_append_result_success_fld_update (\<lambda>_. x)"])
      (simp_all add: field_number_def AppendEntriesResponse_field_def AppendEntriesResponse_reset opt_all_Some [OF a3])
  have s4: "?loop (put_opt (WriteInt32 w 4) (aes_last_index_synced_fld m) @ rest) ?m3 = ?loop rest ?m4" for rest
    by (rule parse_int32 [where get = aes_last_index_synced_fld and upd = "\<lambda>x. aes_last_index_synced_fld_update (\<lambda>_. x)"])
      (simp_all add: field_number_def AppendEntriesResponse_field_def AppendEntriesResponse_reset opt_all_Some [OF a4])
  have "?loop (AppendEntriesResponse_SerializeWithCachedSizes w m) ?m0 = ?loop (put_unknown w (aes_unknown m)) ?m4"
    unfolding AppendEntriesResponse_SerializeWithCachedSizes_def s1 s2 s3 s4 by (rule refl)
  moreover have "?m4 = m"
    using u by (cases m) (simp add: AppendEntriesResponse_new_def)
  ultimately show ?thesis
    unfolding AppendEntriesResponse_MergePartialFromCodedStream_def by (simp only: u parse_no_unknown)
qed

lemma AppendEntriesResponse_MergeFrom_new: "AppendEntriesResponse_MergeFrom w AppendEntriesResponse_new x = x"
  by (cases x) (simp add: AppendEntriesResponse_MergeFrom_def AppendEntriesResponse_new_def merge_unknown_empty split: option.splits)

lemma AppendEntriesResponse_copy: "AppendEntriesResponse_CopyFrom w m x = x"
proof -
  have "AppendEntriesResponse_Clear m = AppendEntriesResponse_new" by (simp add: AppendEntriesResponse_Clear_def AppendEntriesResponse_new_def)
  then show ?thesis by (simp add: AppendEntriesResponse_CopyFrom_def AppendEntriesResponse_MergeFrom_new)
qed

lemma AppendEntriesResponse_returns: "\<exists>ok m' r'. AppendEntriesResponse_MergePartialFromCodedStream w input m = Some (ok, m', r') \<and> length r' \<le> length input"
  unfolding AppendEntriesResponse_MergePartialFromCodedStream_def
proof (rule parse_loop_returns)
  show "AppendEntriesResponse_field w tag r m \<noteq> Some None" for tag r m
    by (simp add: AppendEntriesResponse_field_def)
  show "tag \<noteq> 0 \<and> length r' \<le> length r" if "AppendEntriesResponse_field w tag r m = Some (Some (ok, m', r'))" for tag r m ok m' r'
    using that by (auto simp: AppendEntriesResponse_field_def split: if_splits prod.splits dest!: read_shrinks)
  show "length r' \<le> length r" if "AppendEntriesResponse_skip w tag r m = (ok, m', r')" for tag r m ok m' r'
    using that by (auto simp: AppendEntriesResponse_skip_def split: prod.splits dest: skip_shrinks)
qed

lemma ClientPutMessage_new_simps [simp]:
  "cpm_message_fld ClientPutMessage_new = None"
  "cpm_message_id_fld ClientPutMessage_new = None"
  by (simp_all add: ClientPutMessage_new_def)

lemma ClientPutMessage_reset:
  "cpm_message_fld m = None \<Longrightarrow> m\<lparr>cpm_message_fld := None\<rparr> = m"
  "cpm_message_id_fld m = None \<Longrightarrow> m\<lparr>cpm_message_id_fld := None\<rparr> = m"
  by (cases m; simp)+

lemma ClientPutMessage_array [simp]: "ClientPutMessage_InternalSerializeWithCachedSizesToArray w m = ClientPutMessage_SerializeWithCachedSizes w m"
  by (simp add: ClientPutMessage_InternalSerializeWithCachedSizesToArray_def ClientPutMessage_SerializeWithCachedSizes_def put_unknown_to_array_def put_unknown_def)

lemma ClientPutMessage_size:
  assumes "ClientPutMessage_fits w m"
  shows "length (ClientPutMessage_SerializeWithCachedSizes w m) = ClientPutMessage_ByteSizeLong w m"
proof -
  from assms have
    a1: "opt_all (\<lambda>s. length s < 2 ^ 31) (cpm_message_fld m)"
    and a2: "opt_all in_int64 (cpm_message_id_fld m)"
    and u: "cpm_unknown m = []"
    by (simp_all add: ClientPutMessage_fits_def)
  have l1: "length (put_opt (WriteString w 1) (cpm_message_fld m)) = size_opt (\<lambda>s. LengthDelimitedSize w (length s)) (cpm_message_fld m)"
    by (rule size_string_opt) (simp add: field_number_def)
  have l2: "length (put_opt (WriteInt64 w 2) (cpm_message_id_fld m)) = size_opt (Int64Size w) (cpm_message_id_fld m)"
    by (rule size_int64_opt [OF _ a2]) (simp add: field_number_def)
  show ?thesis
    unfolding ClientPutMessage_SerializeWithCachedSizes_def ClientPutMessage_ByteSizeLong_def length_append l1 l2 size_unknown_part
    by simp
qed

lemma ClientPutMessage_roundtrip:
  assumes "ClientPutMessage_fits w m"
  shows "ClientPutMessage_MergePartialFromCodedStream w (ClientPutMessage_SerializeWithCachedSizes w m) ClientPutMessage_new = Some (True, m, [])"
proof -
  from assms have
    a1: "opt_all (\<lambda>s. length s < 2 ^ 31) (cpm_message_fld m)"
    and a2: "opt_all in_int64 (cpm_message_id_fld m)"
    and u: "cpm_unknown m = []"
    by (simp_all add: ClientPutMessage_fits_def)
  let ?loop = "parse_loop w (ClientPutMessage_field w) (ClientPutMessage_skip w)"
  let ?m0 = ClientPutMessage_new
  let ?m1 = "?m0\<lparr>cpm_message_fld := cpm_message_fld m\<rparr>"
  let ?m2 = "?m1\<lparr>cpm_message_id_fld := cpm_message_id_fld m\<rparr>"
  have s1: "?loop (put_opt (WriteString w 1) (cpm_message_fld m) @ rest) ?m0 = ?loop rest ?m1" for rest
    by (rule parse_string [where get = cpm_message_fld and upd = "\<lambda>x. cpm_message_fld_update (\<lambda>_. x)"])
      (simp_all add: field_number_def ClientPutMessage_field_def ClientPutMessage_reset, use opt_all_Some [OF a1] in simp)
  have s2: "?loop (put_opt (WriteInt64 w 2) (cpm_message_id_fld m) @ rest) ?m1 = ?loop rest ?m2" for rest
    by (rule parse_int64 [where get = cpm_message_id_fld and upd = "\<lambda>x. cpm_message_id_fld_update (\<lambda>_. x)"])
      (simp_all add: field_number_def ClientPutMessage_field_def ClientPutMessage_reset opt_all_Some [OF a2])
  have "?loop (ClientPutMessage_SerializeWithCachedSizes w m) ?m0 = ?loop (put_unknown w (cpm_unknown m)) ?m2"
    unfolding ClientPutMessage_SerializeWithCachedSizes_def s1 s2 by (rule refl)
  moreover have "?m2 = m"
    using u by (cases m) (simp add: ClientPutMessage_new_def)
  ultimately show ?thesis
    unfolding ClientPutMessage_MergePartialFromCodedStream_def by (simp only: u parse_no_unknown)
qed

lemma ClientPutMessage_MergeFrom_new: "ClientPutMessage_MergeFrom w ClientPutMessage_new x = x"
  by (cases x) (simp add: ClientPutMessage_MergeFrom_def ClientPutMessage_new_def merge_unknown_empty split: option.splits)

lemma ClientPutMessage_copy: "ClientPutMessage_CopyFrom w m x = x"
proof -
  have "ClientPutMessage_Clear m = ClientPutMessage_new" by (simp add: ClientPutMessage_Clear_def ClientPutMessage_new_def)
  then show ?thesis by (simp add: ClientPutMessage_CopyFrom_def ClientPutMessage_MergeFrom_new)
qed

lemma ClientPutMessage_returns: "\<exists>ok m' r'. ClientPutMessage_MergePartialFromCodedStream w input m = Some (ok, m', r') \<and> length r' \<le> length input"
  unfolding ClientPutMessage_MergePartialFromCodedStream_def
proof (rule parse_loop_returns)
  show "ClientPutMessage_field w tag r m \<noteq> Some None" for tag r m
    by (simp add: ClientPutMessage_field_def)
  show "tag \<noteq> 0 \<and> length r' \<le> length r" if "ClientPutMessage_field w tag r m = Some (Some (ok, m', r'))" for tag r m ok m' r'
    using that by (auto simp: ClientPutMessage_field_def split: if_splits prod.splits dest!: read_shrinks)
  show "length r' \<le> length r" if "ClientPutMessage_skip w tag r m = (ok, m', r')" for tag r m ok m' r'
    using that by (auto simp: ClientPutMessage_skip_def split: prod.splits dest: skip_shrinks)
qed

lemma ClientPutMessageResponse_new_simps [simp]:
  "cpr_message_id_fld ClientPutMessageResponse_new = None"
  "cpr_status_fld ClientPutMessageResponse_new = None"
  "cpr_error_message_fld ClientPutMessageResponse_new = None"
  by (simp_all add: ClientPutMessageResponse_new_def)

lemma ClientPutMessageResponse_reset:
  "cpr_message_id_fld m = None \<Longrightarrow> m\<lparr>cpr_message_id_fld := None\<rparr> = m"
  "cpr_status_fld m = None \<Longrightarrow> m\<lparr>cpr_status_fld := None\<rparr> = m"
  "cpr_error_message_fld m = None \<Longrightarrow> m\<lparr>cpr_error_message_fld := None\<rparr> = m"
  by (cases m; simp)+

lemma ClientPutMessageResponse_array [simp]: "ClientPutMessageResponse_InternalSerializeWithCachedSizesToArray w m = ClientPutMessageResponse_SerializeWithCachedSizes w m"
  by (simp add: ClientPutMessageResponse_InternalSerializeWithCachedSizesToArray_def ClientPutMessageResponse_SerializeWithCachedSizes_def put_unknown_to_array_def put_unknown_def)

lemma ClientPutMessageResponse_size:
  assumes "ClientPutMessageResponse_fits w m"
  shows "length (ClientPutMessageResponse_SerializeWithCachedSizes w m) = ClientPutMessageResponse_ByteSizeLong w m"
proof -
  from assms have
    a1: "opt_all in_int64 (cpr_message_id_fld m)"
    and a2: "opt_all Status_IsValid (cpr_status_fld m)"
    and a3: "opt_all (\<lambda>s. length s < 2 ^ 31) (cpr_error_message_fld m)"
    and u: "cpr_unknown m = []"
    by (simp_all add: ClientPutMessageResponse_fits_def)
  have l1: "length (put_opt (WriteInt64 w 1) (cpr_message_id_fld m)) = size_opt (Int64Size w) (cpr_message_id_fld m)"
    by (rule size_int64_opt [OF _ a1]) (simp add: field_number_def)
  have l2: "length (put_opt (WriteEnum w 2) (cpr_status_fld m)) = size_opt (EnumSize w) (cpr_status_fld m)"
    by (rule size_enum_opt) (simp_all add: field_number_def a2)
  have l3: "length (put_opt (WriteString w 3) (cpr_error_message_fld m)) = size_opt (\<lambda>s. LengthDelimitedSize w (length s)) (cpr_error_message_fld m)"
    by (rule size_string_opt) (simp add: field_number_def)
  show ?thesis
    unfolding ClientPutMessageResponse_SerializeWithCachedSizes_def ClientPutMessageResponse_ByteSizeLong_def length_append l1 l2 l3 size_unknown_part
    by (auto simp: ClientPutMessageResponse_RequiredFieldsByteSizeFallback_def cpr_message_id_def cpr_status_def cpr_error_message_def)
qed

lemma ClientPutMessageResponse_roundtrip:
  assumes "ClientPutMessageResponse_fits w m"
  shows "ClientPutMessageResponse_MergePartialFromCodedStream w (ClientPutMessageResponse_SerializeWithCachedSizes w m) ClientPutMessageResponse_new = Some (True, m, [])"
proof -
  from assms have
    a1: "opt_all in_int64 (cpr_message_id_fld m)"
    and a2: "opt_all Status_IsValid (cpr_status_fld m)"
    and a3: "opt_all (\<lambda>s. length s < 2 ^ 31) (cpr_error_message_fld m)"
    and u: "cpr_unknown m = []"
    by (simp_all add: ClientPutMessageResponse_fits_def)
  let ?loop = "parse_loop w (ClientPutMessageResponse_field w) (ClientPutMessageResponse_skip w)"
  let ?m0 = ClientPutMessageResponse_new
  let ?m1 = "?m0\<lparr>cpr_message_id_fld := cpr_message_id_fld m\<rparr>"
  let ?m2 = "?m1\<lparr>cpr_status_fld := cpr_status_fld m\<rparr>"
  let ?m3 = "?m2\<lparr>cpr_error_message_fld := cpr_error_message_fld m\<rparr>"
  have s1: "?loop (put_opt (WriteInt64 w 1) (cpr_message_id_fld m) @ rest) ?m0 = ?loop rest ?m1" for rest
    by (rule parse_int64 [where get = cpr_message_id_fld and upd = "\<lambda>x. cpr_message_id_fld_update (\<lambda>_. x)"])
      (simp_all add: field_number_def ClientPutMessageResponse_field_def ClientPutMessageResponse_reset opt_all_Some [OF a1])
  have s2: "?loop (put_opt (WriteEnum w 2) (cpr_status_fld m) @ rest) ?m1 = ?loop rest ?m2" for rest
    by (rule parse_enum [where valid = Status_IsValid and upd = "\<lambda>x. cpr_status_fld_update (\<lambda>_. x)" and other = "\<lambda>v m. m\<lparr>cpr_unknown := AddVarint w 2 v (cpr_unknown m)\<rparr>"])
      (simp_all add: field_number_def ClientPutMessageResponse_field_def ClientPutMessageResponse_reset opt_all_Some [OF a2] enum_in_int32 cong: if_cong)
  have s3: "?loop (put_opt (WriteString w 3) (cpr_error_message_fld m) @ rest) ?m2 = ?loop rest ?m3" for rest
    by (rule parse_string [where get = cpr_error_message_fld and upd = "\<lambda>x. cpr_error_message_fld_update (\<lambda>_. x)"])
      (simp_all add: field_number_def ClientPutMessageResponse_field_def ClientPutMessageResponse_reset, use opt_all_Some [OF a3] in simp)
  have "?loop (ClientPutMessageResponse_SerializeWithCachedSizes w m) ?m0 = ?loop (put_unknown w (cpr_unknown m)) ?m3"
    unfolding ClientPutMessageResponse_SerializeWithCachedSizes_def s1 s2 s3 by (rule refl)
  moreover have "?m3 = m"
    using u by (cases m) (simp add: ClientPutMessageResponse_new_def)
  ultimately show ?thesis
    unfolding ClientPutMessageResponse_MergePartialFromCodedStream_def by (simp only: u parse_no_unknown)
qed

lemma ClientPutMessageResponse_MergeFrom_new: "ClientPutMessageResponse_MergeFrom w ClientPutMessageResponse_new x = x"
  by (cases x) (simp add: ClientPutMessageResponse_MergeFrom_def ClientPutMessageResponse_new_def merge_unknown_empty split: option.splits)

lemma ClientPutMessageResponse_copy: "ClientPutMessageResponse_CopyFrom w m x = x"
proof -
  have "ClientPutMessageResponse_Clear m = ClientPutMessageResponse_new" by (simp add: ClientPutMessageResponse_Clear_def ClientPutMessageResponse_new_def)
  then show ?thesis by (simp add: ClientPutMessageResponse_CopyFrom_def ClientPutMessageResponse_MergeFrom_new)
qed

lemma ClientPutMessageResponse_returns: "\<exists>ok m' r'. ClientPutMessageResponse_MergePartialFromCodedStream w input m = Some (ok, m', r') \<and> length r' \<le> length input"
  unfolding ClientPutMessageResponse_MergePartialFromCodedStream_def
proof (rule parse_loop_returns)
  show "ClientPutMessageResponse_field w tag r m \<noteq> Some None" for tag r m
    by (simp add: ClientPutMessageResponse_field_def)
  show "tag \<noteq> 0 \<and> length r' \<le> length r" if "ClientPutMessageResponse_field w tag r m = Some (Some (ok, m', r'))" for tag r m ok m' r'
    using that by (auto simp: ClientPutMessageResponse_field_def split: if_splits prod.splits dest!: read_shrinks)
  show "length r' \<le> length r" if "ClientPutMessageResponse_skip w tag r m = (ok, m', r')" for tag r m ok m' r'
    using that by (auto simp: ClientPutMessageResponse_skip_def split: prod.splits dest: skip_shrinks)
qed

lemma ClientCommitMessage_new_simps [simp]:
  "ccm_message_id_fld ClientCommitMessage_new = None"
  by (simp_all add: ClientCommitMessage_new_def)

lemma ClientCommitMessage_reset:
  "ccm_message_id_fld m = None \<Longrightarrow> m\<lparr>ccm_message_id_fld := None\<rparr> = m"
  by (cases m; simp)+

lemma ClientCommitMessage_array [simp]: "ClientCommitMessage_InternalSerializeWithCachedSizesToArray w m = ClientCommitMessage_SerializeWithCachedSizes w m"
  by (simp add: ClientCommitMessage_InternalSerializeWithCachedSizesToArray_def ClientCommitMessage_SerializeWithCachedSizes_def put_unknown_to_array_def put_unknown_def)

lemma ClientCommitMessage_size:
  assumes "ClientCommitMessage_fits w m"
  shows "length (ClientCommitMessage_SerializeWithCachedSizes w m) = ClientCommitMessage_ByteSizeLong w m"
proof -
  from assms have
    a1: "opt_all in_int64 (ccm_message_id_fld m)"
    and u: "ccm_unknown m = []"
    by (simp_all add: ClientCommitMessage_fits_def)
  have l1: "length (put_opt (WriteInt64 w 1) (ccm_message_id_fld m)) = size_opt (Int64Size w) (ccm_message_id_fld m)"
    by (rule size_int64_opt [OF _ a1]) (simp add: field_number_def)
  show ?thesis
    unfolding ClientCommitMessage_SerializeWithCachedSizes_def ClientCommitMessage_ByteSizeLong_def length_append l1 size_unknown_part
    by simp
qed

lemma ClientCommitMessage_roundtrip:
  assumes "ClientCommitMessage_fits w m"
  shows "ClientCommitMessage_MergePartialFromCodedStream w (ClientCommitMessage_SerializeWithCachedSizes w m) ClientCommitMessage_new = Some (True, m, [])"
proof -
  from assms have
    a1: "opt_all in_int64 (ccm_message_id_fld m)"
    and u: "ccm_unknown m = []"
    by (simp_all add: ClientCommitMessage_fits_def)
  let ?loop = "parse_loop w (ClientCommitMessage_field w) (ClientCommitMessage_skip w)"
  let ?m0 = ClientCommitMessage_new
  let ?m1 = "?m0\<lparr>ccm_message_id_fld := ccm_message_id_fld m\<rparr>"
  have s1: "?loop (put_opt (WriteInt64 w 1) (ccm_message_id_fld m) @ rest) ?m0 = ?loop rest ?m1" for rest
    by (rule parse_int64 [where get = ccm_message_id_fld and upd = "\<lambda>x. ccm_message_id_fld_update (\<lambda>_. x)"])
      (simp_all add: field_number_def ClientCommitMessage_field_def ClientCommitMessage_reset opt_all_Some [OF a1])
  have "?loop (ClientCommitMessage_SerializeWithCachedSizes w m) ?m0 = ?loop (put_unknown w (ccm_unknown m)) ?m1"
    unfolding ClientCommitMessage_SerializeWithCachedSizes_def s1 by (rule refl)
  moreover have "?m1 = m"
    using u by (cases m) (simp add: ClientCommitMessage_new_def)
  ultimately show ?thesis
    unfolding ClientCommitMessage_MergePartialFromCodedStream_def by (simp only: u parse_no_unknown)
qed

lemma ClientCommitMessage_MergeFrom_new: "ClientCommitMessage_MergeFrom w ClientCommitMessage_new x = x"
  by (cases x) (simp add: ClientCommitMessage_MergeFrom_def ClientCommitMessage_new_def merge_unknown_empty split: option.splits)

lemma ClientCommitMessage_copy: "ClientCommitMessage_CopyFrom w m x = x"
proof -
  have "ClientCommitMessage_Clear m = ClientCommitMessage_new" by (simp add: ClientCommitMessage_Clear_def ClientCommitMessage_new_def)
  then show ?thesis by (simp add: ClientCommitMessage_CopyFrom_def ClientCommitMessage_MergeFrom_new)
qed

lemma ClientCommitMessage_returns: "\<exists>ok m' r'. ClientCommitMessage_MergePartialFromCodedStream w input m = Some (ok, m', r') \<and> length r' \<le> length input"
  unfolding ClientCommitMessage_MergePartialFromCodedStream_def
proof (rule parse_loop_returns)
  show "ClientCommitMessage_field w tag r m \<noteq> Some None" for tag r m
    by (simp add: ClientCommitMessage_field_def)
  show "tag \<noteq> 0 \<and> length r' \<le> length r" if "ClientCommitMessage_field w tag r m = Some (Some (ok, m', r'))" for tag r m ok m' r'
    using that by (auto simp: ClientCommitMessage_field_def split: if_splits prod.splits dest!: read_shrinks)
  show "length r' \<le> length r" if "ClientCommitMessage_skip w tag r m = (ok, m', r')" for tag r m ok m' r'
    using that by (auto simp: ClientCommitMessage_skip_def split: prod.splits dest: skip_shrinks)
qed

lemma ServerSendMessage_new_simps [simp]:
  "ssm_message_id_fld ServerSendMessage_new = None"
  "ssm_message_fld ServerSendMessage_new = None"
  by (simp_all add: ServerSendMessage_new_def)

lemma ServerSendMessage_reset:
  "ssm_message_id_fld m = None \<Longrightarrow> m\<lparr>ssm_message_id_fld := None\<rparr> = m"
  "ssm_message_fld m = None \<Longrightarrow> m\<lparr>ssm_message_fld := None\<rparr> = m"
  by (cases m; simp)+

lemma ServerSendMessage_array [simp]: "ServerSendMessage_InternalSerializeWithCachedSizesToArray w m = ServerSendMessage_SerializeWithCachedSizes w m"
  by (simp add: ServerSendMessage_InternalSerializeWithCachedSizesToArray_def ServerSendMessage_SerializeWithCachedSizes_def put_unknown_to_array_def put_unknown_def)

lemma ServerSendMessage_size:
  assumes "ServerSendMessage_fits w m"
  shows "length (ServerSendMessage_SerializeWithCachedSizes w m) = ServerSendMessage_ByteSizeLong w m"
proof -
  from assms have
    a1: "opt_all in_int64 (ssm_message_id_fld m)"
    and a2: "opt_all (\<lambda>s. length s < 2 ^ 31) (ssm_message_fld m)"
    and u: "ssm_unknown m = []"
    by (simp_all add: ServerSendMessage_fits_def)
  have l1: "length (put_opt (WriteInt64 w 1) (ssm_message_id_fld m)) = size_opt (Int64Size w) (ssm_message_id_fld m)"
    by (rule size_int64_opt [OF _ a1]) (simp add: field_number_def)
  have l2: "length (put_opt (WriteString w 2) (ssm_message_fld m)) = size_opt (\<lambda>s. LengthDelimitedSize w (length s)) (ssm_message_fld m)"
    by (rule size_string_opt) (simp add: field_number_def)
  show ?thesis
    unfolding ServerSendMessage_SerializeWithCachedSizes_def ServerSendMessage_ByteSizeLong_def length_append l1 l2 size_unknown_part
    by (auto simp: ServerSendMessage_RequiredFieldsByteSizeFallback_def ssm_message_id_def ssm_message_def)
qed

lemma ServerSendMessage_roundtrip:
  assumes "ServerSendMessage_fits w m"
  shows "ServerSendMessage_MergePartialFromCodedStream w (ServerSendMessage_SerializeWithCachedSizes w m) ServerSendMessage_new = Some (True, m, [])"
proof -
  from assms have
    a1: "opt_all in_int64 (ssm_message_id_fld m)"
    and a2: "opt_all (\<lambda>s. length s < 2 ^ 31) (ssm_message_fld m)"
    and u: "ssm_unknown m = []"
    by (simp_all add: ServerSendMessage_fits_def)
  let ?loop = "parse_loop w (ServerSendMessage_field w) (ServerSendMessage_skip w)"
  let ?m0 = ServerSendMessage_new
  let ?m1 = "?m0\<lparr>ssm_message_id_fld := ssm_message_id_fld m\<rparr>"
  let ?m2 = "?m1\<lparr>ssm_message_fld := ssm_message_fld m\<rparr>"
  have s1: "?loop (put_opt (WriteInt64 w 1) (ssm_message_id_fld m) @ rest) ?m0 = ?loop rest ?m1" for rest
    by (rule parse_int64 [where get = ssm_message_id_fld and upd = "\<lambda>x. ssm_message_id_fld_update (\<lambda>_. x)"])
      (simp_all add: field_number_def ServerSendMessage_field_def ServerSendMessage_reset opt_all_Some [OF a1])
  have s2: "?loop (put_opt (WriteString w 2) (ssm_message_fld m) @ rest) ?m1 = ?loop rest ?m2" for rest
    by (rule parse_string [where get = ssm_message_fld and upd = "\<lambda>x. ssm_message_fld_update (\<lambda>_. x)"])
      (simp_all add: field_number_def ServerSendMessage_field_def ServerSendMessage_reset, use opt_all_Some [OF a2] in simp)
  have "?loop (ServerSendMessage_SerializeWithCachedSizes w m) ?m0 = ?loop (put_unknown w (ssm_unknown m)) ?m2"
    unfolding ServerSendMessage_SerializeWithCachedSizes_def s1 s2 by (rule refl)
  moreover have "?m2 = m"
    using u by (cases m) (simp add: ServerSendMessage_new_def)
  ultimately show ?thesis
    unfolding ServerSendMessage_MergePartialFromCodedStream_def by (simp only: u parse_no_unknown)
qed

lemma ServerSendMessage_MergeFrom_new: "ServerSendMessage_MergeFrom w ServerSendMessage_new x = x"
  by (cases x) (simp add: ServerSendMessage_MergeFrom_def ServerSendMessage_new_def merge_unknown_empty split: option.splits)

lemma ServerSendMessage_copy: "ServerSendMessage_CopyFrom w m x = x"
proof -
  have "ServerSendMessage_Clear m = ServerSendMessage_new" by (simp add: ServerSendMessage_Clear_def ServerSendMessage_new_def)
  then show ?thesis by (simp add: ServerSendMessage_CopyFrom_def ServerSendMessage_MergeFrom_new)
qed

lemma ServerSendMessage_returns: "\<exists>ok m' r'. ServerSendMessage_MergePartialFromCodedStream w input m = Some (ok, m', r') \<and> length r' \<le> length input"
  unfolding ServerSendMessage_MergePartialFromCodedStream_def
proof (rule parse_loop_returns)
  show "ServerSendMessage_field w tag r m \<noteq> Some None" for tag r m
    by (simp add: ServerSendMessage_field_def)
  show "tag \<noteq> 0 \<and> length r' \<le> length r" if "ServerSendMessage_field w tag r m = Some (Some (ok, m', r'))" for tag r m ok m' r'
    using that by (auto simp: ServerSendMessage_field_def split: if_splits prod.splits dest!: read_shrinks)
  show "length r' \<le> length r" if "ServerSendMessage_skip w tag r m = (ok, m', r')" for tag r m ok m' r'
    using that by (auto simp: ServerSendMessage_skip_def split: prod.splits dest: skip_shrinks)
qed

lemma ClientOpenQueue_new_simps [simp]:
  "coq_open_mode_fld ClientOpenQueue_new = None"
  "coq_queue_name_fld ClientOpenQueue_new = None"
  by (simp_all add: ClientOpenQueue_new_def)

lemma ClientOpenQueue_reset:
  "coq_open_mode_fld m = None \<Longrightarrow> m\<lparr>coq_open_mode_fld := None\<rparr> = m"
  "coq_queue_name_fld m = None \<Longrightarrow> m\<lparr>coq_queue_name_fld := None\<rparr> = m"
  by (cases m; simp)+

lemma ClientOpenQueue_array [simp]: "ClientOpenQueue_InternalSerializeWithCachedSizesToArray w m = ClientOpenQueue_SerializeWithCachedSizes w m"
  by (simp add: ClientOpenQueue_InternalSerializeWithCachedSizesToArray_def ClientOpenQueue_SerializeWithCachedSizes_def put_unknown_to_array_def put_unknown_def)

lemma ClientOpenQueue_size:
  assumes "ClientOpenQueue_fits w m"
  shows "length (ClientOpenQueue_SerializeWithCachedSizes w m) = ClientOpenQueue_ByteSizeLong w m"
proof -
  from assms have
    a1: "opt_all in_int32 (coq_open_mode_fld m)"
    and a2: "opt_all (\<lambda>s. length s < 2 ^ 31) (coq_queue_name_fld m)"
    and u: "coq_unknown m = []"
    by (simp_all add: ClientOpenQueue_fits_def)
  have l1: "length (put_opt (WriteInt32 w 1) (coq_open_mode_fld m)) = size_opt (Int32Size w) (coq_open_mode_fld m)"
    by (rule size_int32_opt [OF _ a1]) (simp add: field_number_def)
  have l2: "length (put_opt (WriteString w 2) (coq_queue_name_fld m)) = size_opt (\<lambda>s. LengthDelimitedSize w (length s)) (coq_queue_name_fld m)"
    by (rule size_string_opt) (simp add: field_number_def)
  show ?thesis
    unfolding ClientOpenQueue_SerializeWithCachedSizes_def ClientOpenQueue_ByteSizeLong_def length_append l1 l2 size_unknown_part
    by (auto simp: ClientOpenQueue_RequiredFieldsByteSizeFallback_def coq_open_mode_def coq_queue_name_def)
qed

lemma ClientOpenQueue_roundtrip:
  assumes "ClientOpenQueue_fits w m"
  shows "ClientOpenQueue_MergePartialFromCodedStream w (ClientOpenQueue_SerializeWithCachedSizes w m) ClientOpenQueue_new = Some (True, m, [])"
proof -
  from assms have
    a1: "opt_all in_int32 (coq_open_mode_fld m)"
    and a2: "opt_all (\<lambda>s. length s < 2 ^ 31) (coq_queue_name_fld m)"
    and u: "coq_unknown m = []"
    by (simp_all add: ClientOpenQueue_fits_def)
  let ?loop = "parse_loop w (ClientOpenQueue_field w) (ClientOpenQueue_skip w)"
  let ?m0 = ClientOpenQueue_new
  let ?m1 = "?m0\<lparr>coq_open_mode_fld := coq_open_mode_fld m\<rparr>"
  let ?m2 = "?m1\<lparr>coq_queue_name_fld := coq_queue_name_fld m\<rparr>"
  have s1: "?loop (put_opt (WriteInt32 w 1) (coq_open_mode_fld m) @ rest) ?m0 = ?loop rest ?m1" for rest
    by (rule parse_int32 [where get = coq_open_mode_fld and upd = "\<lambda>x. coq_open_mode_fld_update (\<lambda>_. x)"])
      (simp_all add: field_number_def ClientOpenQueue_field_def ClientOpenQueue_reset opt_all_Some [OF a1])
  have s2: "?loop (put_opt (WriteString w 2) (coq_queue_name_fld m) @ rest) ?m1 = ?loop rest ?m2" for rest
    by (rule parse_string [where get = coq_queue_name_fld and upd = "\<lambda>x. coq_queue_name_fld_update (\<lambda>_. x)"])
      (simp_all add: field_number_def ClientOpenQueue_field_def ClientOpenQueue_reset, use opt_all_Some [OF a2] in simp)
  have "?loop (ClientOpenQueue_SerializeWithCachedSizes w m) ?m0 = ?loop (put_unknown w (coq_unknown m)) ?m2"
    unfolding ClientOpenQueue_SerializeWithCachedSizes_def s1 s2 by (rule refl)
  moreover have "?m2 = m"
    using u by (cases m) (simp add: ClientOpenQueue_new_def)
  ultimately show ?thesis
    unfolding ClientOpenQueue_MergePartialFromCodedStream_def by (simp only: u parse_no_unknown)
qed

lemma ClientOpenQueue_MergeFrom_new: "ClientOpenQueue_MergeFrom w ClientOpenQueue_new x = x"
  by (cases x) (simp add: ClientOpenQueue_MergeFrom_def ClientOpenQueue_new_def merge_unknown_empty split: option.splits)

lemma ClientOpenQueue_copy: "ClientOpenQueue_CopyFrom w m x = x"
proof -
  have "ClientOpenQueue_Clear m = ClientOpenQueue_new" by (simp add: ClientOpenQueue_Clear_def ClientOpenQueue_new_def)
  then show ?thesis by (simp add: ClientOpenQueue_CopyFrom_def ClientOpenQueue_MergeFrom_new)
qed

lemma ClientOpenQueue_returns: "\<exists>ok m' r'. ClientOpenQueue_MergePartialFromCodedStream w input m = Some (ok, m', r') \<and> length r' \<le> length input"
  unfolding ClientOpenQueue_MergePartialFromCodedStream_def
proof (rule parse_loop_returns)
  show "ClientOpenQueue_field w tag r m \<noteq> Some None" for tag r m
    by (simp add: ClientOpenQueue_field_def)
  show "tag \<noteq> 0 \<and> length r' \<le> length r" if "ClientOpenQueue_field w tag r m = Some (Some (ok, m', r'))" for tag r m ok m' r'
    using that by (auto simp: ClientOpenQueue_field_def split: if_splits prod.splits dest!: read_shrinks)
  show "length r' \<le> length r" if "ClientOpenQueue_skip w tag r m = (ok, m', r')" for tag r m ok m' r'
    using that by (auto simp: ClientOpenQueue_skip_def split: prod.splits dest: skip_shrinks)
qed

lemma ClientOpenQueueResponse_new_simps [simp]:
  "cor_status_fld ClientOpenQueueResponse_new = None"
  "cor_error_message_fld ClientOpenQueueResponse_new = None"
  "cor_leader_ip_fld ClientOpenQueueResponse_new = None"
  "cor_leader_port_fld ClientOpenQueueResponse_new = None"
  by (simp_all add: ClientOpenQueueResponse_new_def)

lemma ClientOpenQueueResponse_reset:
  "cor_status_fld m = None \<Longrightarrow> m\<lparr>cor_status_fld := None\<rparr> = m"
  "cor_error_message_fld m = None \<Longrightarrow> m\<lparr>cor_error_message_fld := None\<rparr> = m"
  "cor_leader_ip_fld m = None \<Longrightarrow> m\<lparr>cor_leader_ip_fld := None\<rparr> = m"
  "cor_leader_port_fld m = None \<Longrightarrow> m\<lparr>cor_leader_port_fld := None\<rparr> = m"
  by (cases m; simp)+

lemma ClientOpenQueueResponse_array [simp]: "ClientOpenQueueResponse_InternalSerializeWithCachedSizesToArray w m = ClientOpenQueueResponse_SerializeWithCachedSizes w m"
  by (simp add: ClientOpenQueueResponse_InternalSerializeWithCachedSizesToArray_def ClientOpenQueueResponse_SerializeWithCachedSizes_def put_unknown_to_array_def put_unknown_def)

lemma ClientOpenQueueResponse_size:
  assumes "ClientOpenQueueResponse_fits w m"
  shows "length (ClientOpenQueueResponse_SerializeWithCachedSizes w m) = ClientOpenQueueResponse_ByteSizeLong w m"
proof -
  from assms have
    a1: "opt_all Status_IsValid (cor_status_fld m)"
    and a2: "opt_all (\<lambda>s. length s < 2 ^ 31) (cor_error_message_fld m)"
    and a3: "opt_all (\<lambda>s. length s < 2 ^ 31) (cor_leader_ip_fld m)"
    and a4: "opt_all (\<lambda>s. length s < 2 ^ 31) (cor_leader_port_fld m)"
    and u: "cor_unknown m = []"
    by (simp_all add: ClientOpenQueueResponse_fits_def)
  have l1: "length (put_opt (WriteEnum w 1) (cor_status_fld m)) = size_opt (EnumSize w) (cor_status_fld m)"
    by (rule size_enum_opt) (simp_all add: field_number_def a1)
  have l2: "length (put_opt (WriteString w 2) (cor_error_message_fld m)) = size_opt (\<lambda>s. LengthDelimitedSize w (length s)) (cor_error_message_fld m)"
    by (rule size_string_opt) (simp add: field_number_def)
  have l3: "length (put_opt (WriteString w 3) (cor_leader_ip_fld m)) = size_opt (\<lambda>s. LengthDelimitedSize w (length s)) (cor_leader_ip_fld m)"
    by (rule size_string_opt) (simp add: field_number_def)
  have l4: "length (put_opt (WriteString w 4) (cor_leader_port_fld m)) = size_opt (\<lambda>s. LengthDelimitedSize w (length s)) (cor_leader_port_fld m)"
    by (rule size_string_opt) (simp add: field_number_def)
  show ?thesis
    unfolding ClientOpenQueueResponse_SerializeWithCachedSizes_def ClientOpenQueueResponse_ByteSizeLong_def length_append l1 l2 l3 l4 size_unknown_part
    by (auto simp: ClientOpenQueueResponse_RequiredFieldsByteSizeFallback_def cor_status_def cor_error_message_def)
qed

lemma ClientOpenQueueResponse_roundtrip:
  assumes "ClientOpenQueueResponse_fits w m"
  shows "ClientOpenQueueResponse_MergePartialFromCodedStream w (ClientOpenQueueResponse_SerializeWithCachedSizes w m) ClientOpenQueueResponse_new = Some (True, m, [])"
proof -
  from assms have
    a1: "opt_all Status_IsValid (cor_status_fld m)"
    and a2: "opt_all (\<lambda>s. length s < 2 ^ 31) (cor_error_message_fld m)"
    and a3: "opt_all (\<lambda>s. length s < 2 ^ 31) (cor_leader_ip_fld m)"
    and a4: "opt_all (\<lambda>s. length s < 2 ^ 31) (cor_leader_port_fld m)"
    and u: "cor_unknown m = []"
    by (simp_all add: ClientOpenQueueResponse_fits_def)
  let ?loop = "parse_loop w (ClientOpenQueueResponse_field w) (ClientOpenQueueResponse_skip w)"
  let ?m0 = ClientOpenQueueResponse_new
  let ?m1 = "?m0\<lparr>cor_status_fld := cor_status_fld m\<rparr>"
  let ?m2 = "?m1\<lparr>cor_error_message_fld := cor_error_message_fld m\<rparr>"
  let ?m3 = "?m2\<lparr>cor_leader_ip_fld := cor_leader_ip_fld m\<rparr>"
  let ?m4 = "?m3\<lparr>cor_leader_port_fld := cor_leader_port_fld m\<rparr>"
  have s1: "?loop (put_opt (WriteEnum w 1) (cor_status_fld m) @ rest) ?m0 = ?loop rest ?m1" for rest
    by (rule parse_enum [where valid = Status_IsValid and upd = "\<lambda>x. cor_status_fld_update (\<lambda>_. x)" and other = "\<lambda>v m. m\<lparr>cor_unknown := AddVarint w 1 v (cor_unknown m)\<rparr>"])
      (simp_all add: field_number_def ClientOpenQueueResponse_field_def ClientOpenQueueResponse_reset opt_all_Some [OF a1] enum_in_int32 cong: if_cong)
  have s2: "?loop (put_opt (WriteString w 2) (cor_error_message_fld m) @ rest) ?m1 = ?loop rest ?m2" for rest
    by (rule parse_string [where get = cor_error_message_fld and upd = "\<lambda>x. cor_error_message_fld_update (\<lambda>_. x)"])
      (simp_all add: field_number_def ClientOpenQueueResponse_field_def ClientOpenQueueResponse_reset, use opt_all_Some [OF a2] in simp)
  have s3: "?loop (put_opt (WriteString w 3) (cor_leader_ip_fld m) @ rest) ?m2 = ?loop rest ?m3" for rest
    by (rule parse_string [where get = cor_leader_ip_fld and upd = "\<lambda>x. cor_leader_ip_fld_update (\<lambda>_. x)"])
      (simp_all add: field_number_def ClientOpenQueueResponse_field_def ClientOpenQueueResponse_reset, use opt_all_Some [OF a3] in simp)
  have s4: "?loop (put_opt (WriteString w 4) (cor_leader_port_fld m) @ rest) ?m3 = ?loop rest ?m4" for rest
    by (rule parse_string [where get = cor_leader_port_fld and upd = "\<lambda>x. cor_leader_port_fld_update (\<lambda>_. x)"])
      (simp_all add: field_number_def ClientOpenQueueResponse_field_def ClientOpenQueueResponse_reset, use opt_all_Some [OF a4] in simp)
  have "?loop (ClientOpenQueueResponse_SerializeWithCachedSizes w m) ?m0 = ?loop (put_unknown w (cor_unknown m)) ?m4"
    unfolding ClientOpenQueueResponse_SerializeWithCachedSizes_def s1 s2 s3 s4 by (rule refl)
  moreover have "?m4 = m"
    using u by (cases m) (simp add: ClientOpenQueueResponse_new_def)
  ultimately show ?thesis
    unfolding ClientOpenQueueResponse_MergePartialFromCodedStream_def by (simp only: u parse_no_unknown)
qed

lemma ClientOpenQueueResponse_MergeFrom_new: "ClientOpenQueueResponse_MergeFrom w ClientOpenQueueResponse_new x = x"
  by (cases x) (simp add: ClientOpenQueueResponse_MergeFrom_def ClientOpenQueueResponse_new_def merge_unknown_empty split: option.splits)

lemma ClientOpenQueueResponse_copy: "ClientOpenQueueResponse_CopyFrom w m x = x"
proof -
  have "ClientOpenQueueResponse_Clear m = ClientOpenQueueResponse_new" by (simp add: ClientOpenQueueResponse_Clear_def ClientOpenQueueResponse_new_def)
  then show ?thesis by (simp add: ClientOpenQueueResponse_CopyFrom_def ClientOpenQueueResponse_MergeFrom_new)
qed

lemma ClientOpenQueueResponse_returns: "\<exists>ok m' r'. ClientOpenQueueResponse_MergePartialFromCodedStream w input m = Some (ok, m', r') \<and> length r' \<le> length input"
  unfolding ClientOpenQueueResponse_MergePartialFromCodedStream_def
proof (rule parse_loop_returns)
  show "ClientOpenQueueResponse_field w tag r m \<noteq> Some None" for tag r m
    by (simp add: ClientOpenQueueResponse_field_def)
  show "tag \<noteq> 0 \<and> length r' \<le> length r" if "ClientOpenQueueResponse_field w tag r m = Some (Some (ok, m', r'))" for tag r m ok m' r'
    using that by (auto simp: ClientOpenQueueResponse_field_def split: if_splits prod.splits dest!: read_shrinks)
  show "length r' \<le> length r" if "ClientOpenQueueResponse_skip w tag r m = (ok, m', r')" for tag r m ok m' r'
    using that by (auto simp: ClientOpenQueueResponse_skip_def split: prod.splits dest: skip_shrinks)
qed

lemma ConsumerDisconnected_new_simps [simp]:
  "cdc_client_id_fld ConsumerDisconnected_new = None"
  by (simp_all add: ConsumerDisconnected_new_def)

lemma ConsumerDisconnected_reset:
  "cdc_client_id_fld m = None \<Longrightarrow> m\<lparr>cdc_client_id_fld := None\<rparr> = m"
  by (cases m; simp)+

lemma ConsumerDisconnected_array [simp]: "ConsumerDisconnected_InternalSerializeWithCachedSizesToArray w m = ConsumerDisconnected_SerializeWithCachedSizes w m"
  by (simp add: ConsumerDisconnected_InternalSerializeWithCachedSizesToArray_def ConsumerDisconnected_SerializeWithCachedSizes_def put_unknown_to_array_def put_unknown_def)

lemma ConsumerDisconnected_size:
  assumes "ConsumerDisconnected_fits w m"
  shows "length (ConsumerDisconnected_SerializeWithCachedSizes w m) = ConsumerDisconnected_ByteSizeLong w m"
proof -
  from assms have
    a1: "opt_all in_int32 (cdc_client_id_fld m)"
    and u: "cdc_unknown m = []"
    by (simp_all add: ConsumerDisconnected_fits_def)
  have l1: "length (put_opt (WriteInt32 w 1) (cdc_client_id_fld m)) = size_opt (Int32Size w) (cdc_client_id_fld m)"
    by (rule size_int32_opt [OF _ a1]) (simp add: field_number_def)
  show ?thesis
    unfolding ConsumerDisconnected_SerializeWithCachedSizes_def ConsumerDisconnected_ByteSizeLong_def length_append l1 size_unknown_part
    by simp
qed

lemma ConsumerDisconnected_roundtrip:
  assumes "ConsumerDisconnected_fits w m"
  shows "ConsumerDisconnected_MergePartialFromCodedStream w (ConsumerDisconnected_SerializeWithCachedSizes w m) ConsumerDisconnected_new = Some (True, m, [])"
proof -
  from assms have
    a1: "opt_all in_int32 (cdc_client_id_fld m)"
    and u: "cdc_unknown m = []"
    by (simp_all add: ConsumerDisconnected_fits_def)
  let ?loop = "parse_loop w (ConsumerDisconnected_field w) (ConsumerDisconnected_skip w)"
  let ?m0 = ConsumerDisconnected_new
  let ?m1 = "?m0\<lparr>cdc_client_id_fld := cdc_client_id_fld m\<rparr>"
  have s1: "?loop (put_opt (WriteInt32 w 1) (cdc_client_id_fld m) @ rest) ?m0 = ?loop rest ?m1" for rest
    by (rule parse_int32 [where get = cdc_client_id_fld and upd = "\<lambda>x. cdc_client_id_fld_update (\<lambda>_. x)"])
      (simp_all add: field_number_def ConsumerDisconnected_field_def ConsumerDisconnected_reset opt_all_Some [OF a1])
  have "?loop (ConsumerDisconnected_SerializeWithCachedSizes w m) ?m0 = ?loop (put_unknown w (cdc_unknown m)) ?m1"
    unfolding ConsumerDisconnected_SerializeWithCachedSizes_def s1 by (rule refl)
  moreover have "?m1 = m"
    using u by (cases m) (simp add: ConsumerDisconnected_new_def)
  ultimately show ?thesis
    unfolding ConsumerDisconnected_MergePartialFromCodedStream_def by (simp only: u parse_no_unknown)
qed

lemma ConsumerDisconnected_MergeFrom_new: "ConsumerDisconnected_MergeFrom w ConsumerDisconnected_new x = x"
  by (cases x) (simp add: ConsumerDisconnected_MergeFrom_def ConsumerDisconnected_new_def merge_unknown_empty split: option.splits)

lemma ConsumerDisconnected_copy: "ConsumerDisconnected_CopyFrom w m x = x"
proof -
  have "ConsumerDisconnected_Clear m = ConsumerDisconnected_new" by (simp add: ConsumerDisconnected_Clear_def ConsumerDisconnected_new_def)
  then show ?thesis by (simp add: ConsumerDisconnected_CopyFrom_def ConsumerDisconnected_MergeFrom_new)
qed

lemma ConsumerDisconnected_returns: "\<exists>ok m' r'. ConsumerDisconnected_MergePartialFromCodedStream w input m = Some (ok, m', r') \<and> length r' \<le> length input"
  unfolding ConsumerDisconnected_MergePartialFromCodedStream_def
proof (rule parse_loop_returns)
  show "ConsumerDisconnected_field w tag r m \<noteq> Some None" for tag r m
    by (simp add: ConsumerDisconnected_field_def)
  show "tag \<noteq> 0 \<and> length r' \<le> length r" if "ConsumerDisconnected_field w tag r m = Some (Some (ok, m', r'))" for tag r m ok m' r'
    using that by (auto simp: ConsumerDisconnected_field_def split: if_splits prod.splits dest!: read_shrinks)
  show "length r' \<le> length r" if "ConsumerDisconnected_skip w tag r m = (ok, m', r')" for tag r m ok m' r'
    using that by (auto simp: ConsumerDisconnected_skip_def split: prod.splits dest: skip_shrinks)
qed

lemma FlowMessage_new_simps [simp]:
  "fm_type_fld FlowMessage_new = None"
  "fm_partition_id_fld FlowMessage_new = None"
  "fm_request_vote_request_fld FlowMessage_new = None"
  "fm_request_vote_response_fld FlowMessage_new = None"
  "fm_append_entries_request_fld FlowMessage_new = None"
  "fm_append_entries_response_fld FlowMessage_new = None"
  "fm_client_put_message_fld FlowMessage_new = None"
  "fm_client_commit_message_fld FlowMessage_new = None"
  "fm_server_send_message_fld FlowMessage_new = None"
  "fm_client_open_queue_fld FlowMessage_new = None"
  "fm_consumer_disconnected_fld FlowMessage_new = None"
  "fm_client_open_queue_response_fld FlowMessage_new = None"
  "fm_client_put_message_response_fld FlowMessage_new = None"
  by (simp_all add: FlowMessage_new_def)

lemma FlowMessage_reset:
  "fm_type_fld m = None \<Longrightarrow> m\<lparr>fm_type_fld := None\<rparr> = m"
  "fm_partition_id_fld m = None \<Longrightarrow> m\<lparr>fm_partition_id_fld := None\<rparr> = m"
  "fm_request_vote_request_fld m = None \<Longrightarrow> m\<lparr>fm_request_vote_request_fld := None\<rparr> = m"
  "fm_request_vote_response_fld m = None \<Longrightarrow> m\<lparr>fm_request_vote_response_fld := None\<rparr> = m"
  "fm_append_entries_request_fld m = None \<Longrightarrow> m\<lparr>fm_append_entries_request_fld := None\<rparr> = m"
  "fm_append_entries_response_fld m = None \<Longrightarrow> m\<lparr>fm_append_entries_response_fld := None\<rparr> = m"
  "fm_client_put_message_fld m = None \<Longrightarrow> m\<lparr>fm_client_put_message_fld := None\<rparr> = m"
  "fm_client_commit_message_fld m = None \<Longrightarrow> m\<lparr>fm_client_commit_message_fld := None\<rparr> = m"
  "fm_server_send_message_fld m = None \<Longrightarrow> m\<lparr>fm_server_send_message_fld := None\<rparr> = m"
  "fm_client_open_queue_fld m = None \<Longrightarrow> m\<lparr>fm_client_open_queue_fld := None\<rparr> = m"
  "fm_consumer_disconnected_fld m = None \<Longrightarrow> m\<lparr>fm_consumer_disconnected_fld := None\<rparr> = m"
  "fm_client_open_queue_response_fld m = None \<Longrightarrow> m\<lparr>fm_client_open_queue_response_fld := None\<rparr> = m"
  "fm_client_put_message_response_fld m = None \<Longrightarrow> m\<lparr>fm_client_put_message_response_fld := None\<rparr> = m"
  by (cases m; simp)+

lemma FlowMessage_array [simp]: "FlowMessage_InternalSerializeWithCachedSizesToArray w m = FlowMessage_SerializeWithCachedSizes w m"
  by (simp add: FlowMessage_InternalSerializeWithCachedSizesToArray_def FlowMessage_SerializeWithCachedSizes_def put_unknown_to_array_def put_unknown_def)

lemma FlowMessage_fitsD:
  assumes "FlowMessage_fits w m"
  shows "opt_all MessageType_IsValid (fm_type_fld m)"
    and "opt_all in_int64 (fm_partition_id_fld m)"
    and "opt_all (\<lambda>x. RequestVoteRequest_fits w x \<and> RequestVoteRequest_ByteSizeLong w x < 2 ^ 31) (fm_request_vote_request_fld m)"
    and "opt_all (\<lambda>x. RequestVoteResponse_fits w x \<and> RequestVoteResponse_ByteSizeLong w x < 2 ^ 31) (fm_request_vote_response_fld m)"
    and "opt_all (\<lambda>x. AppendEntriesRequest_fits w x \<and> AppendEntriesRequest_ByteSizeLong w x < 2 ^ 31) (fm_append_entries_request_fld m)"
    and "opt_all (\<lambda>x. AppendEntriesResponse_fits w x \<and> AppendEntriesResponse_ByteSizeLong w x < 2 ^ 31) (fm_append_entries_response_fld m)"
    and "opt_all (\<lambda>x. ClientPutMessage_fits w x \<and> ClientPutMessage_ByteSizeLong w x < 2 ^ 31) (fm_client_put_message_fld m)"
    and "opt_all (\<lambda>x. ClientCommitMessage_fits w x \<and> ClientCommitMessage_ByteSizeLong w x < 2 ^ 31) (fm_client_commit_message_fld m)"
    and "opt_all (\<lambda>x. ServerSendMessage_fits w x \<and> ServerSendMessage_ByteSizeLong w x < 2 ^ 31) (fm_server_send_message_fld m)"
    and "opt_all (\<lambda>x. ClientOpenQueue_fits w x \<and> ClientOpenQueue_ByteSizeLong w x < 2 ^ 31) (fm_client_open_queue_fld m)"
    and "opt_all (\<lambda>x. ConsumerDisconnected_fits w x \<and> ConsumerDisconnected_ByteSizeLong w x < 2 ^ 31) (fm_consumer_disconnected_fld m)"
    and "opt_all (\<lambda>x. ClientOpenQueueResponse_fits w x \<and> ClientOpenQueueResponse_ByteSizeLong w x < 2 ^ 31) (fm_client_open_queue_response_fld m)"
    and "opt_all (\<lambda>x. ClientPutMessageResponse_fits w x \<and> ClientPutMessageResponse_ByteSizeLong w x < 2 ^ 31) (fm_client_put_message_response_fld m)"
    and "fm_unknown m = []"
  using assms by (simp_all add: FlowMessage_fits_def)

lemma FlowMessage_size:
  assumes "FlowMessage_fits w m"
  shows "length (FlowMessage_SerializeWithCachedSizes w m) = FlowMessage_ByteSizeLong w m"
proof -
  note a = FlowMessage_fitsD [OF assms]
  have l1: "length (put_opt (WriteEnum w 1) (fm_type_fld m)) = size_opt (EnumSize w) (fm_type_fld m)"
    by (rule size_enum_opt) (simp_all add: field_number_def a(1))
  have l2: "length (put_opt (WriteInt64 w 2) (fm_partition_id_fld m)) = size_opt (Int64Size w) (fm_partition_id_fld m)"
    by (rule size_int64_opt [OF _ a(2)]) (simp add: field_number_def)
  have l3: "length (put_opt (\<lambda>x. WriteMessage w 3 (RequestVoteRequest_SerializeWithCachedSizes w x)) (fm_request_vote_request_fld m)) = size_opt (\<lambda>x. LengthDelimitedSize w (RequestVoteRequest_ByteSizeLong w x)) (fm_request_vote_request_fld m)"
    by (rule size_message_opt) (use opt_all_Some [OF a(3)] in \<open>simp_all add: field_number_def RequestVoteRequest_size\<close>)
  have l4: "length (put_opt (\<lambda>x. WriteMessage w 4 (RequestVoteResponse_SerializeWithCachedSizes w x)) (fm_request_vote_response_fld m)) = size_opt (\<lambda>x. LengthDelimitedSize w (RequestVoteResponse_ByteSizeLong w x)) (fm_request_vote_response_fld m)"
    by (rule size_message_opt) (use opt_all_Some [OF a(4)] in \<open>simp_all add: field_number_def RequestVoteResponse_size\<close>)
  have l5: "length (put_opt (\<lambda>x. WriteMessage w 5 (AppendEntriesRequest_SerializeWithCachedSizes w x)) (fm_append_entries_request_fld m)) = size_opt (\<lambda>x. LengthDelimitedSize w (AppendEntriesRequest_ByteSizeLong w x)) (fm_append_entries_request_fld m)"
    by (rule size_message_opt) (use opt_all_Some [OF a(5)] in \<open>simp_all add: field_number_def AppendEntriesRequest_size\<close>)
  have l6: "length (put_opt (\<lambda>x. WriteMessage w 6 (AppendEntriesResponse_SerializeWithCachedSizes w x)) (fm_append_entries_response_fld m)) = size_opt (\<lambda>x. LengthDelimitedSize w (AppendEntriesResponse_ByteSizeLong w x)) (fm_append_entries_response_fld m)"
    by (rule size_message_opt) (use opt_all_Some [OF a(6)] in \<open>simp_all add: field_number_def AppendEntriesResponse_size\<close>)
  have l7: "length (put_opt (\<lambda>x. WriteMessage w 7 (ClientPutMessage_SerializeWithCachedSizes w x)) (fm_client_put_message_fld m)) = size_opt (\<lambda>x. LengthDelimitedSize w (ClientPutMessage_ByteSizeLong w x)) (fm_client_put_message_fld m)"
    by (rule size_message_opt) (use opt_all_Some [OF a(7)] in \<open>simp_all add: field_number_def ClientPutMessage_size\<close>)
  have l8: "length (put_opt (\<lambda>x. WriteMessage w 8 (ClientCommitMessage_SerializeWithCachedSizes w x)) (fm_client_commit_message_fld m)) = size_opt (\<lambda>x. LengthDelimitedSize w (ClientCommitMessage_ByteSizeLong w x)) (fm_client_commit_message_fld m)"
    by (rule size_message_opt) (use opt_all_Some [OF a(8)] in \<open>simp_all add: field_number_def ClientCommitMessage_size\<close>)
  have l9: "length (put_opt (\<lambda>x. WriteMessage w 9 (ServerSendMessage_SerializeWithCachedSizes w x)) (fm_server_send_message_fld m)) = size_opt (\<lambda>x. LengthDelimitedSize w (ServerSendMessage_ByteSizeLong w x)) (fm_server_send_message_fld m)"
    by (rule size_message_opt) (use opt_all_Some [OF a(9)] in \<open>simp_all add: field_number_def ServerSendMessage_size\<close>)
  have l10: "length (put_opt (\<lambda>x. WriteMessage w 10 (ClientOpenQueue_SerializeWithCachedSizes w x)) (fm_client_open_queue_fld m)) = size_opt (\<lambda>x. LengthDelimitedSize w (ClientOpenQueue_ByteSizeLong w x)) (fm_client_open_queue_fld m)"
    by (rule size_message_opt) (use opt_all_Some [OF a(10)] in \<open>simp_all add: field_number_def ClientOpenQueue_size\<close>)
  have l11: "length (put_opt (\<lambda>x. WriteMessage w 11 (ConsumerDisconnected_SerializeWithCachedSizes w x)) (fm_consumer_disconnected_fld m)) = size_opt (\<lambda>x. LengthDelimitedSize w (ConsumerDisconnected_ByteSizeLong w x)) (fm_consumer_disconnected_fld m)"
    by (rule size_message_opt) (use opt_all_Some [OF a(11)] in \<open>simp_all add: field_number_def ConsumerDisconnected_size\<close>)
  have l12: "length (put_opt (\<lambda>x. WriteMessage w 12 (ClientOpenQueueResponse_SerializeWithCachedSizes w x)) (fm_client_open_queue_response_fld m)) = size_opt (\<lambda>x. LengthDelimitedSize w (ClientOpenQueueResponse_ByteSizeLong w x)) (fm_client_open_queue_response_fld m)"
    by (rule size_message_opt) (use opt_all_Some [OF a(12)] in \<open>simp_all add: field_number_def ClientOpenQueueResponse_size\<close>)
  have l13: "length (put_opt (\<lambda>x. WriteMessage w 13 (ClientPutMessageResponse_SerializeWithCachedSizes w x)) (fm_client_put_message_response_fld m)) = size_opt (\<lambda>x. LengthDelimitedSize w (ClientPutMessageResponse_ByteSizeLong w x)) (fm_client_put_message_response_fld m)"
    by (rule size_message_opt) (use opt_all_Some [OF a(13)] in \<open>simp_all add: field_number_def ClientPutMessageResponse_size\<close>)
  show ?thesis
    unfolding FlowMessage_SerializeWithCachedSizes_def FlowMessage_ByteSizeLong_def length_append l1 l2 l3 l4 l5 l6 l7 l8 l9 l10 l11 l12 l13 size_unknown_part
    by simp
qed

text \<open>Each field is read back into a message in which it is not set.\<close>

lemma FlowMessage_parse:
  assumes "FlowMessage_fits w m"
  shows "fm_type_fld acc = None \<Longrightarrow> parse_loop w (FlowMessage_field w) (FlowMessage_skip w) (put_opt (WriteEnum w 1) (fm_type_fld m) @ rest) acc = parse_loop w (FlowMessage_field w) (FlowMessage_skip w) rest (acc\<lparr>fm_type_fld := fm_type_fld m\<rparr>)"
    and "fm_partition_id_fld acc = None \<Longrightarrow> parse_loop w (FlowMessage_field w) (FlowMessage_skip w) (put_opt (WriteInt64 w 2) (fm_partition_id_fld m) @ rest) acc = parse_loop w (FlowMessage_field w) (FlowMessage_skip w) rest (acc\<lparr>fm_partition_id_fld := fm_partition_id_fld m\<rparr>)"
    and "fm_request_vote_request_fld acc = None \<Longrightarrow> parse_loop w (FlowMessage_field w) (FlowMessage_skip w) (put_opt (\<lambda>x. WriteMessage w 3 (RequestVoteRequest_SerializeWithCachedSizes w x)) (fm_request_vote_request_fld m) @ rest) acc = parse_loop w (FlowMessage_field w) (FlowMessage_skip w) rest (acc\<lparr>fm_request_vote_request_fld := fm_request_vote_request_fld m\<rparr>)"
    and "fm_request_vote_response_fld acc = None \<Longrightarrow> parse_loop w (FlowMessage_field w) (FlowMessage_skip w) (put_opt (\<lambda>x. WriteMessage w 4 (RequestVoteResponse_SerializeWithCachedSizes w x)) (fm_request_vote_response_fld m) @ rest) acc = parse_loop w (FlowMessage_field w) (FlowMessage_skip w) rest (acc\<lparr>fm_request_vote_response_fld := fm_request_vote_response_fld m\<rparr>)"
    and "fm_append_entries_request_fld acc = None \<Longrightarrow> parse_loop w (FlowMessage_field w) (FlowMessage_skip w) (put_opt (\<lambda>x. WriteMessage w 5 (AppendEntriesRequest_SerializeWithCachedSizes w x)) (fm_append_entries_request_fld m) @ rest) acc = parse_loop w (FlowMessage_field w) (FlowMessage_skip w) rest (acc\<lparr>fm_append_entries_request_fld := fm_append_entries_request_fld m\<rparr>)"
    and "fm_append_entries_response_fld acc = None \<Longrightarrow> parse_loop w (FlowMessage_field w) (FlowMessage_skip w) (put_opt (\<lambda>x. WriteMessage w 6 (AppendEntriesResponse_SerializeWithCachedSizes w x)) (fm_append_entries_response_fld m) @ rest) acc = parse_loop w (FlowMessage_field w) (FlowMessage_skip w) rest (acc\<lparr>fm_append_entries_response_fld := fm_append_entries_response_fld m\<rparr>)"
    and "fm_client_put_message_fld acc = None \<Longrightarrow> parse_loop w (FlowMessage_field w) (FlowMessage_skip w) (put_opt (\<lambda>x. WriteMessage w 7 (ClientPutMessage_SerializeWithCachedSizes w x)) (fm_client_put_message_fld m) @ rest) acc = parse_loop w (FlowMessage_field w) (FlowMessage_skip w) rest (acc\<lparr>fm_client_put_message_fld := fm_client_put_message_fld m\<rparr>)"
    and "fm_client_commit_message_fld acc = None \<Longrightarrow> parse_loop w (FlowMessage_field w) (FlowMessage_skip w) (put_opt (\<lambda>x. WriteMessage w 8 (ClientCommitMessage_SerializeWithCachedSizes w x)) (fm_client_commit_message_fld m) @ rest) acc = parse_loop w (FlowMessage_field w) (FlowMessage_skip w) rest (acc\<lparr>fm_client_commit_message_fld := fm_client_commit_message_fld m\<rparr>)"
    and "fm_server_send_message_fld acc = None \<Longrightarrow> parse_loop w (FlowMessage_field w) (FlowMessage_skip w) (put_opt (\<lambda>x. WriteMessage w 9 (ServerSendMessage_SerializeWithCachedSizes w x)) (fm_server_send_message_fld m) @ rest) acc = parse_loop w (FlowMessage_field w) (FlowMessage_skip w) rest (acc\<lparr>fm_server_send_message_fld := fm_server_send_message_fld m\<rparr>)"
    and "fm_client_open_queue_fld acc = None \<Longrightarrow> parse_loop w (FlowMessage_field w) (FlowMessage_skip w) (put_opt (\<lambda>x. WriteMessage w 10 (ClientOpenQueue_SerializeWithCachedSizes w x)) (fm_client_open_queue_fld m) @ rest) acc = parse_loop w (FlowMessage_field w) (FlowMessage_skip w) rest (acc\<lparr>fm_client_open_queue_fld := fm_client_open_queue_fld m\<rparr>)"
    and "fm_consumer_disconnected_fld acc = None \<Longrightarrow> parse_loop w (FlowMessage_field w) (FlowMessage_skip w) (put_opt (\<lambda>x. WriteMessage w 11 (ConsumerDisconnected_SerializeWithCachedSizes w x)) (fm_consumer_disconnected_fld m) @ rest) acc = parse_loop w (FlowMessage_field w) (FlowMessage_skip w) rest (acc\<lparr>fm_consumer_disconnected_fld := fm_consumer_disconnected_fld m\<rparr>)"
    and "fm_client_open_queue_response_fld acc = None \<Longrightarrow> parse_loop w (FlowMessage_field w) (FlowMessage_skip w) (put_opt (\<lambda>x. WriteMessage w 12 (ClientOpenQueueResponse_SerializeWithCachedSizes w x)) (fm_client_open_queue_response_fld m) @ rest) acc = parse_loop w (FlowMessage_field w) (FlowMessage_skip w) rest (acc\<lparr>fm_client_open_queue_response_fld := fm_client_open_queue_response_fld m\<rparr>)"
    and "fm_client_put_message_response_fld acc = None \<Longrightarrow> parse_loop w (FlowMessage_field w) (FlowMessage_skip w) (put_opt (\<lambda>x. WriteMessage w 13 (ClientPutMessageResponse_SerializeWithCachedSizes w x)) (fm_client_put_message_response_fld m) @ rest) acc = parse_loop w (FlowMessage_field w) (FlowMessage_skip w) rest (acc\<lparr>fm_client_put_message_response_fld := fm_client_put_message_response_fld m\<rparr>)"
proof -
  note a = FlowMessage_fitsD [OF assms]
  show "parse_loop w (FlowMessage_field w) (FlowMessage_skip w) (put_opt (WriteEnum w 1) (fm_type_fld m) @ rest) acc = parse_loop w (FlowMessage_field w) (FlowMessage_skip w) rest (acc\<lparr>fm_type_fld := fm_type_fld m\<rparr>)" if "fm_type_fld acc = None"
    by (rule parse_enum [where valid = MessageType_IsValid and upd = "\<lambda>x. fm_type_fld_update (\<lambda>_. x)" and other = "\<lambda>v m. m\<lparr>fm_unknown := AddVarint w 1 v (fm_unknown m)\<rparr>"])
      (simp_all add: that field_number_def FlowMessage_field_def FlowMessage_reset opt_all_Some [OF a(1)] enum_in_int32 cong: if_cong)
  show "parse_loop w (FlowMessage_field w) (FlowMessage_skip w) (put_opt (WriteInt64 w 2) (fm_partition_id_fld m) @ rest) acc = parse_loop w (FlowMessage_field w) (FlowMessage_skip w) rest (acc\<lparr>fm_partition_id_fld := fm_partition_id_fld m\<rparr>)" if "fm_partition_id_fld acc = None"
    by (rule parse_int64 [where get = fm_partition_id_fld and upd = "\<lambda>x. fm_partition_id_fld_update (\<lambda>_. x)"])
      (simp_all add: that field_number_def FlowMessage_field_def FlowMessage_reset opt_all_Some [OF a(2)])
  show "parse_loop w (FlowMessage_field w) (FlowMessage_skip w) (put_opt (\<lambda>x. WriteMessage w 3 (RequestVoteRequest_SerializeWithCachedSizes w x)) (fm_request_vote_request_fld m) @ rest) acc = parse_loop w (FlowMessage_field w) (FlowMessage_skip w) rest (acc\<lparr>fm_request_vote_request_fld := fm_request_vote_request_fld m\<rparr>)" if "fm_request_vote_request_fld acc = None"
    by (rule parse_message [where parse = "RequestVoteRequest_MergePartialFromCodedStream w" and old = RequestVoteRequest_new and upd = "\<lambda>x. fm_request_vote_request_fld_update (\<lambda>_. x)"])
      (simp_all add: that field_number_def FlowMessage_field_def FlowMessage_reset, use opt_all_Some [OF a(3)] in \<open>simp add: RequestVoteRequest_roundtrip RequestVoteRequest_size\<close>)
  show "parse_loop w (FlowMessage_field w) (FlowMessage_skip w) (put_opt (\<lambda>x. WriteMessage w 4 (RequestVoteResponse_SerializeWithCachedSizes w x)) (fm_request_vote_response_fld m) @ rest) acc = parse_loop w (FlowMessage_field w) (FlowMessage_skip w) rest (acc\<lparr>fm_request_vote_response_fld := fm_request_vote_response_fld m\<rparr>)" if "fm_request_vote_response_fld acc = None"
    by (rule parse_message [where parse = "RequestVoteResponse_MergePartialFromCodedStream w" and old = RequestVoteResponse_new and upd = "\<lambda>x. fm_request_vote_response_fld_update (\<lambda>_. x)"])
      (simp_all add: that field_number_def FlowMessage_field_def FlowMessage_reset, use opt_all_Some [OF a(4)] in \<open>simp add: RequestVoteResponse_roundtrip RequestVoteResponse_size\<close>)
  show "parse_loop w (FlowMessage_field w) (FlowMessage_skip w) (put_opt (\<lambda>x. WriteMessage w 5 (AppendEntriesRequest_SerializeWithCachedSizes w x)) (fm_append_entries_request_fld m) @ rest) acc = parse_loop w (FlowMessage_field w) (FlowMessage_skip w) rest (acc\<lparr>fm_append_entries_request_fld := fm_append_entries_request_fld m\<rparr>)" if "fm_append_entries_request_fld acc = None"
    by (rule parse_message [where parse = "AppendEntriesRequest_MergePartialFromCodedStream w" and old = AppendEntriesRequest_new and upd = "\<lambda>x. fm_append_entries_request_fld_update (\<lambda>_. x)"])
      (simp_all add: that field_number_def FlowMessage_field_def FlowMessage_reset, use opt_all_Some [OF a(5)] in \<open>simp add: AppendEntriesRequest_roundtrip AppendEntriesRequest_size\<close>)
  show "parse_loop w (FlowMessage_field w) (FlowMessage_skip w) (put_opt (\<lambda>x. WriteMessage w 6 (AppendEntriesResponse_SerializeWithCachedSizes w x)) (fm_append_entries_response_fld m) @ rest) acc = parse_loop w (FlowMessage_field w) (FlowMessage_skip w) rest (acc\<lparr>fm_append_entries_response_fld := fm_append_entries_response_fld m\<rparr>)" if "fm_append_entries_response_fld acc = None"
    by (rule parse_message [where parse = "AppendEntriesResponse_MergePartialFromCodedStream w" and old = AppendEntriesResponse_new and upd = "\<lambda>x. fm_append_entries_response_fld_update (\<lambda>_. x)"])
      (simp_all add: that field_number_def FlowMessage_field_def FlowMessage_reset, use opt_all_Some [OF a(6)] in \<open>simp add: AppendEntriesResponse_roundtrip AppendEntriesResponse_size\<close>)
  show "parse_loop w (FlowMessage_field w) (FlowMessage_skip w) (put_opt (\<lambda>x. WriteMessage w 7 (ClientPutMessage_SerializeWithCachedSizes w x)) (fm_client_put_message_fld m) @ rest) acc = parse_loop w (FlowMessage_field w) (FlowMessage_skip w) rest (acc\<lparr>fm_client_put_message_fld := fm_client_put_message_fld m\<rparr>)" if "fm_client_put_message_fld acc = None"
    by (rule parse_message [where parse = "ClientPutMessage_MergePartialFromCodedStream w" and old = ClientPutMessage_new and upd = "\<lambda>x. fm_client_put_message_fld_update (\<lambda>_. x)"])
      (simp_all add: that field_number_def FlowMessage_field_def FlowMessage_reset, use opt_all_Some [OF a(7)] in \<open>simp add: ClientPutMessage_roundtrip ClientPutMessage_size\<close>)
  show "parse_loop w (FlowMessage_field w) (FlowMessage_skip w) (put_opt (\<lambda>x. WriteMessage w 8 (ClientCommitMessage_SerializeWithCachedSizes w x)) (fm_client_commit_message_fld m) @ rest) acc = parse_loop w (FlowMessage_field w) (FlowMessage_skip w) rest (acc\<lparr>fm_client_commit_message_fld := fm_client_commit_message_fld m\<rparr>)" if "fm_client_commit_message_fld acc = None"
    by (rule parse_message [where parse = "ClientCommitMessage_MergePartialFromCodedStream w" and old = ClientCommitMessage_new and upd = "\<lambda>x. fm_client_commit_message_fld_update (\<lambda>_. x)"])
      (simp_all add: that field_number_def FlowMessage_field_def FlowMessage_reset, use opt_all_Some [OF a(8)] in \<open>simp add: ClientCommitMessage_roundtrip ClientCommitMessage_size\<close>)
  show "parse_loop w (FlowMessage_field w) (FlowMessage_skip w) (put_opt (\<lambda>x. WriteMessage w 9 (ServerSendMessage_SerializeWithCachedSizes w x)) (fm_server_send_message_fld m) @ rest) acc = parse_loop w (FlowMessage_field w) (FlowMessage_skip w) rest (acc\<lparr>fm_server_send_message_fld := fm_server_send_message_fld m\<rparr>)" if "fm_server_send_message_fld acc = None"
    by (rule parse_message [where parse = "ServerSendMessage_MergePartialFromCodedStream w" and old = ServerSendMessage_new and upd = "\<lambda>x. fm_server_send_message_fld_update (\<lambda>_. x)"])
      (simp_all add: that field_number_def FlowMessage_field_def FlowMessage_reset, use opt_all_Some [OF a(9)] in \<open>simp add: ServerSendMessage_roundtrip ServerSendMessage_size\<close>)
  show "parse_loop w (FlowMessage_field w) (FlowMessage_skip w) (put_opt (\<lambda>x. WriteMessage w 10 (ClientOpenQueue_SerializeWithCachedSizes w x)) (fm_client_open_queue_fld m) @ rest) acc = parse_loop w (FlowMessage_field w) (FlowMessage_skip w) rest (acc\<lparr>fm_client_open_queue_fld := fm_client_open_queue_fld m\<rparr>)" if "fm_client_open_queue_fld acc = None"
    by (rule parse_message [where parse = "ClientOpenQueue_MergePartialFromCodedStream w" and old = ClientOpenQueue_new and upd = "\<lambda>x. fm_client_open_queue_fld_update (\<lambda>_. x)"])
      (simp_all add: that field_number_def FlowMessage_field_def FlowMessage_reset, use opt_all_Some [OF a(10)] in \<open>simp add: ClientOpenQueue_roundtrip ClientOpenQueue_size\<close>)
  show "parse_loop w (FlowMessage_field w) (FlowMessage_skip w) (put_opt (\<lambda>x. WriteMessage w 11 (ConsumerDisconnected_SerializeWithCachedSizes w x)) (fm_consumer_disconnected_fld m) @ rest) acc = parse_loop w (FlowMessage_field w) (FlowMessage_skip w) rest (acc\<lparr>fm_consumer_disconnected_fld := fm_consumer_disconnected_fld m\<rparr>)" if "fm_consumer_disconnected_fld acc = None"
    by (rule parse_message [where parse = "ConsumerDisconnected_MergePartialFromCodedStream w" and old = ConsumerDisconnected_new and upd = "\<lambda>x. fm_consumer_disconnected_fld_update (\<lambda>_. x)"])
      (simp_all add: that field_number_def FlowMessage_field_def FlowMessage_reset, use opt_all_Some [OF a(11)] in \<open>simp add: ConsumerDisconnected_roundtrip ConsumerDisconnected_size\<close>)
  show "parse_loop w (FlowMessage_field w) (FlowMessage_skip w) (put_opt (\<lambda>x. WriteMessage w 12 (ClientOpenQueueResponse_SerializeWithCachedSizes w x)) (fm_client_open_queue_response_fld m) @ rest) acc = parse_loop w (FlowMessage_field w) (FlowMessage_skip w) rest (acc\<lparr>fm_client_open_queue_response_fld := fm_client_open_queue_response_fld m\<rparr>)" if "fm_client_open_queue_response_fld acc = None"
    by (rule parse_message [where parse = "ClientOpenQueueResponse_MergePartialFromCodedStream w" and old = ClientOpenQueueResponse_new and upd = "\<lambda>x. fm_client_open_queue_response_fld_update (\<lambda>_. x)"])
      (simp_all add: that field_number_def FlowMessage_field_def FlowMessage_reset, use opt_all_Some [OF a(12)] in \<open>simp add: ClientOpenQueueResponse_roundtrip ClientOpenQueueResponse_size\<close>)
  show "parse_loop w (FlowMessage_field w) (FlowMessage_skip w) (put_opt (\<lambda>x. WriteMessage w 13 (ClientPutMessageResponse_SerializeWithCachedSizes w x)) (fm_client_put_message_response_fld m) @ rest) acc = parse_loop w (FlowMessage_field w) (FlowMessage_skip w) rest (acc\<lparr>fm_client_put_message_response_fld := fm_client_put_message_response_fld m\<rparr>)" if "fm_client_put_message_response_fld acc = None"
    by (rule parse_message [where parse = "ClientPutMessageResponse_MergePartialFromCodedStream w" and old = ClientPutMessageResponse_new and upd = "\<lambda>x. fm_client_put_message_response_fld_update (\<lambda>_. x)"])
      (simp_all add: that field_number_def FlowMessage_field_def FlowMessage_reset, use opt_all_Some [OF a(13)] in \<open>simp add: ClientPutMessageResponse_roundtrip ClientPutMessageResponse_size\<close>)
qed

lemma FlowMessage_roundtrip:
  assumes "FlowMessage_fits w m"
  shows "FlowMessage_MergePartialFromCodedStream w (FlowMessage_SerializeWithCachedSizes w m) FlowMessage_new = Some (True, m, [])"
proof -
  let ?loop = "parse_loop w (FlowMessage_field w) (FlowMessage_skip w)"
  let ?m0 = FlowMessage_new
  let ?m1 = "?m0\<lparr>fm_type_fld := fm_type_fld m\<rparr>"
  let ?m2 = "?m1\<lparr>fm_partition_id_fld := fm_partition_id_fld m\<rparr>"
  let ?m3 = "?m2\<lparr>fm_request_vote_request_fld := fm_request_vote_request_fld m\<rparr>"
  let ?m4 = "?m3\<lparr>fm_request_vote_response_fld := fm_request_vote_response_fld m\<rparr>"
  let ?m5 = "?m4\<lparr>fm_append_entries_request_fld := fm_append_entries_request_fld m\<rparr>"
  let ?m6 = "?m5\<lparr>fm_append_entries_response_fld := fm_append_entries_response_fld m\<rparr>"
  let ?m7 = "?m6\<lparr>fm_client_put_message_fld := fm_client_put_message_fld m\<rparr>"
  let ?m8 = "?m7\<lparr>fm_client_commit_message_fld := fm_client_commit_message_fld m\<rparr>"
  let ?m9 = "?m8\<lparr>fm_server_send_message_fld := fm_server_send_message_fld m\<rparr>"
  let ?m10 = "?m9\<lparr>fm_client_open_queue_fld := fm_client_open_queue_fld m\<rparr>"
  let ?m11 = "?m10\<lparr>fm_consumer_disconnected_fld := fm_consumer_disconnected_fld m\<rparr>"
  let ?m12 = "?m11\<lparr>fm_client_open_queue_response_fld := fm_client_open_queue_response_fld m\<rparr>"
  let ?m13 = "?m12\<lparr>fm_client_put_message_response_fld := fm_client_put_message_response_fld m\<rparr>"
  have "?loop (FlowMessage_SerializeWithCachedSizes w m) ?m0 = ?loop (put_unknown w (fm_unknown m)) ?m13"
    unfolding FlowMessage_SerializeWithCachedSizes_def FlowMessage_new_def by (simp only: FlowMessage_parse [OF assms] FlowMessage.select_convs FlowMessage.update_convs)
  moreover have "?m13 = m"
    using FlowMessage_fitsD(14) [OF assms] by (cases m) (simp add: FlowMessage_new_def)
  ultimately show ?thesis
    unfolding FlowMessage_MergePartialFromCodedStream_def by (simp only: FlowMessage_fitsD(14) [OF assms] parse_no_unknown)
qed

lemma FlowMessage_MergeFrom_new: "FlowMessage_MergeFrom w FlowMessage_new x = x"
  by (cases x) (simp add: FlowMessage_MergeFrom_def FlowMessage_new_def merge_unknown_empty AppendEntriesRequest_MergeFrom_new AppendEntriesResponse_MergeFrom_new ClientCommitMessage_MergeFrom_new ClientOpenQueue_MergeFrom_new ClientOpenQueueResponse_MergeFrom_new ClientPutMessage_MergeFrom_new ClientPutMessageResponse_MergeFrom_new ConsumerDisconnected_MergeFrom_new RequestVoteRequest_MergeFrom_new RequestVoteResponse_MergeFrom_new ServerSendMessage_MergeFrom_new split: option.splits)

lemma FlowMessage_copy: "FlowMessage_CopyFrom w m x = x"
proof -
  have "FlowMessage_Clear m = FlowMessage_new" by (simp add: FlowMessage_Clear_def FlowMessage_new_def)
  then show ?thesis by (simp add: FlowMessage_CopyFrom_def FlowMessage_MergeFrom_new)
qed

lemma FlowMessage_returns: "\<exists>ok m' r'. FlowMessage_MergePartialFromCodedStream w input m = Some (ok, m', r') \<and> length r' \<le> length input"
  unfolding FlowMessage_MergePartialFromCodedStream_def
proof (rule parse_loop_returns)
  show "FlowMessage_field w tag r m \<noteq> Some None" for tag r m
    by (simp add: FlowMessage_field_def ReadMessage_total [OF AppendEntriesRequest_returns, simplified] ReadMessage_total [OF AppendEntriesResponse_returns, simplified] ReadMessage_total [OF ClientCommitMessage_returns, simplified] ReadMessage_total [OF ClientOpenQueue_returns, simplified] ReadMessage_total [OF ClientOpenQueueResponse_returns, simplified] ReadMessage_total [OF ClientPutMessage_returns, simplified] ReadMessage_total [OF ClientPutMessageResponse_returns, simplified] ReadMessage_total [OF ConsumerDisconnected_returns, simplified] ReadMessage_total [OF RequestVoteRequest_returns, simplified] ReadMessage_total [OF RequestVoteResponse_returns, simplified] ReadMessage_total [OF ServerSendMessage_returns, simplified])
  show "tag \<noteq> 0 \<and> length r' \<le> length r" if "FlowMessage_field w tag r m = Some (Some (ok, m', r'))" for tag r m ok m' r'
    using that by (auto simp: FlowMessage_field_def split: if_splits prod.splits dest!: read_shrinks dest: ReadMessage_shrinks [OF AppendEntriesRequest_returns] ReadMessage_shrinks [OF AppendEntriesResponse_returns] ReadMessage_shrinks [OF ClientCommitMessage_returns] ReadMessage_shrinks [OF ClientOpenQueue_returns] ReadMessage_shrinks [OF ClientOpenQueueResponse_returns] ReadMessage_shrinks [OF ClientPutMessage_returns] ReadMessage_shrinks [OF ClientPutMessageResponse_returns] ReadMessage_shrinks [OF ConsumerDisconnected_returns] ReadMessage_shrinks [OF RequestVoteRequest_returns] ReadMessage_shrinks [OF RequestVoteResponse_returns] ReadMessage_shrinks [OF ServerSendMessage_returns])
  show "length r' \<le> length r" if "FlowMessage_skip w tag r m = (ok, m', r')" for tag r m ok m' r'
    using that by (auto simp: FlowMessage_skip_def split: prod.splits dest: skip_shrinks)
qed

end

end
