(* ===== verification/Decimal.thy ===== *)
theory Decimal
  imports Prelude
begin

text \<open>
  The conversions between integers and decimal text of the C and C++ standard libraries that the
  sources use: \<open>std::to_string\<close>, \<open>atoi\<close>, \<open>stoi\<close>, \<open>stoll\<close>, and reading from a stream (\<open>f >> i\<close>, \<open>f.read\<close>).
\<close>

section \<open>Digits\<close>

definition is_digit :: "char \<Rightarrow> bool" where
  "is_digit c \<longleftrightarrow> 48 \<le> (of_char c :: nat) \<and> of_char c \<le> (57 :: nat)"

definition digit_value :: "char \<Rightarrow> nat" where
  "digit_value c = of_char c - 48"

definition is_space :: "char \<Rightarrow> bool" where
  "is_space c \<longleftrightarrow> of_char c = (32 :: nat) \<or> 9 \<le> (of_char c :: nat) \<and> of_char c \<le> (13 :: nat)"

fun digits_of :: "nat \<Rightarrow> string" where
  "digits_of n = (if n < 10 then [char_of (48 + n)] else digits_of (n div 10) @ [char_of (48 + n mod 10)])"

declare digits_of.simps [simp del]

definition digits_value :: "string \<Rightarrow> nat" where
  "digits_value ds = foldl (\<lambda>acc c. 10 * acc + digit_value c) 0 ds"

section \<open>Conversions\<close>

definition to_string :: "int \<Rightarrow> string" where
  "to_string v = (if v < 0 then CHR ''-'' # digits_of (nat (- v)) else digits_of (nat v))"

text \<open>A sign and the digits after it; \<open>None\<close> when there is no digit. The rest of the text is returned.\<close>

definition scan_int :: "string \<Rightarrow> (int \<times> string) option" where
  "scan_int s =
     (let neg = (s \<noteq> [] \<and> hd s = CHR ''-'');
          t = (if s \<noteq> [] \<and> (hd s = CHR ''-'' \<or> hd s = CHR ''+'') then tl s else s);
          ds = takeWhile is_digit t;
          v = int (digits_value ds)
      in if ds = [] then None else Some (if neg then - v else v, dropWhile is_digit t))"

definition atoi :: "string \<Rightarrow> int" where
  "atoi s = (case scan_int (dropWhile is_space s) of None \<Rightarrow> 0 | Some (v, _) \<Rightarrow> v)"

definition stoi :: "string \<Rightarrow> cpp_error + int" where
  "stoi s = (case scan_int (dropWhile is_space s) of
       None \<Rightarrow> Inl InvalidArgument
     | Some (v, _) \<Rightarrow> if in_int32 v then Inr v else Inl OutOfRange)"

definition stoll :: "string \<Rightarrow> cpp_error + int" where
  "stoll s = (case scan_int (dropWhile is_space s) of
       None \<Rightarrow> Inl InvalidArgument
     | Some (v, _) \<Rightarrow> if in_int64 v then Inr v else Inl OutOfRange)"

section \<open>Input streams\<close>

text \<open>A \<open>std::ifstream\<close>: the unread characters and its state bits. A file that could not be opened has \<open>failbit\<close> set.\<close>

record istream =
  in_rest :: string
  in_eof :: bool
  in_fail :: bool

definition good :: "istream \<Rightarrow> bool" where
  "good f \<longleftrightarrow> \<not> in_eof f \<and> \<not> in_fail f"

definition open_stream :: "string option \<Rightarrow> istream" where
  "open_stream file =
     (case file of None \<Rightarrow> \<lparr>in_rest = [], in_eof = False, in_fail = True\<rparr>
      | Some s \<Rightarrow> \<lparr>in_rest = s, in_eof = False, in_fail = False\<rparr>)"

text \<open>
  \<open>f >> v\<close> for an \<open>int\<close>: the value of \<open>v\<close> after it, and the stream. Nothing is read from a stream that is not
  good; without a digit \<open>v\<close> becomes 0 and a number out of range becomes the nearest \<open>int\<close>, both with \<open>failbit\<close>.
\<close>

definition clamp_int32 :: "int \<Rightarrow> int" where
  "clamp_int32 v = max (- (2 ^ 31)) (min (2 ^ 31 - 1) v)"

definition read_int :: "int \<Rightarrow> istream \<Rightarrow> int \<times> istream" where
  "read_int old f =
     (if \<not> good f then (old, f\<lparr>in_fail := True\<rparr>)
      else let s = dropWhile is_space (in_rest f) in
        if s = [] then (old, f\<lparr>in_rest := [], in_eof := True, in_fail := True\<rparr>)
        else case scan_int s of
          None \<Rightarrow> (0, f\<lparr>in_rest := s, in_fail := True\<rparr>)
        | Some (v, r) \<Rightarrow> (clamp_int32 v, f\<lparr>in_rest := r, in_eof := (r = []), in_fail := \<not> in_int32 v\<rparr>))"

text \<open>\<open>f.read(buf, n)\<close>: the characters stored in the buffer, and the stream.\<close>

definition read_chars :: "nat \<Rightarrow> istream \<Rightarrow> string \<times> istream" where
  "read_chars n f =
     (if \<not> good f then ([], f\<lparr>in_fail := True\<rparr>)
      else if n \<le> length (in_rest f) then (take n (in_rest f), f\<lparr>in_rest := drop n (in_rest f)\<rparr>)
      else (in_rest f, f\<lparr>in_rest := [], in_eof := True, in_fail := True\<rparr>))"

section \<open>Reading back what was written\<close>

lemma digit_char: "n < 10 \<Longrightarrow> is_digit (char_of (48 + n)) \<and> digit_value (char_of (48 + n)) = n"
  by (simp add: is_digit_def digit_value_def)

lemma digits_of_digit: "list_all is_digit (digits_of n)"
  by (induction n rule: digits_of.induct) (subst digits_of.simps, simp add: digit_char)

lemma digits_of_value [simp]: "digits_value (digits_of n) = n"
  by (induction n rule: digits_of.induct) (subst digits_of.simps, auto simp: digits_value_def digit_char)

lemma digits_of_not_Nil [simp]: "digits_of n \<noteq> []"
  by (subst digits_of.simps) simp

lemma digits_of_length: "n < 10 ^ Suc k \<Longrightarrow> length (digits_of n) \<le> Suc k"
proof (induction n arbitrary: k rule: digits_of.induct)
  case (1 n)
  show ?case
  proof (cases "n < 10")
    case True
    then show ?thesis by (subst digits_of.simps) simp
  next
    case False
    with "1.prems" obtain j where k: "k = Suc j" by (cases k) auto
    with "1.prems" have "n div 10 < 10 ^ Suc j" by (simp add: div_less_iff_less_mult mult.commute)
    with "1.IH" False k have "length (digits_of (n div 10)) \<le> Suc j" by blast
    then show ?thesis using False k by (subst digits_of.simps) simp
  qed
qed

lemma hd_digits_of: "is_digit (hd (digits_of n))"
  using digits_of_digit [of n] by (cases "digits_of n") auto

lemma digit_not_space: "is_digit c \<Longrightarrow> \<not> is_space c"
  by (auto simp: is_digit_def is_space_def)

lemma sign_not_digit: "is_digit c \<Longrightarrow> c \<noteq> CHR ''-'' \<and> c \<noteq> CHR ''+''"
  by (auto simp: is_digit_def)

lemma take_digits:
  assumes "rest = [] \<or> \<not> is_digit (hd rest)"
  shows "takeWhile is_digit (digits_of n @ rest) = digits_of n" "dropWhile is_digit (digits_of n @ rest) = rest"
  using assms digits_of_digit [of n]
  by (cases rest; simp add: takeWhile_append2 dropWhile_append2 list_all_iff takeWhile_eq_all_conv)+

lemma scan_to_string:
  assumes "rest = [] \<or> \<not> is_digit (hd rest)"
  shows "scan_int (to_string v @ rest) = Some (v, rest)"
proof -
  have "hd (digits_of (nat v) @ rest) = hd (digits_of (nat v))" by simp
  then show ?thesis
    using sign_not_digit [OF hd_digits_of, of "nat v"]
    by (simp add: scan_int_def to_string_def take_digits [OF assms])
qed

lemma to_string_no_space: "dropWhile is_space (to_string v @ rest) = to_string v @ rest"
proof -
  have "\<not> is_space (hd (to_string v))"
    using digit_not_space [OF hd_digits_of] by (simp add: to_string_def is_space_def)
  moreover have "to_string v \<noteq> []" by (simp add: to_string_def)
  ultimately show ?thesis by (cases "to_string v") simp_all
qed

lemma atoi_to_string: "rest = [] \<or> \<not> is_digit (hd rest) \<Longrightarrow> atoi (to_string v @ rest) = v"
  by (simp add: atoi_def to_string_no_space scan_to_string)

lemma stoi_to_string: "in_int32 v \<Longrightarrow> stoi (to_string v) = Inr v"
  using to_string_no_space [of v "[]"] scan_to_string [of "[]" v] by (simp add: stoi_def)

lemma stoll_to_string: "in_int64 v \<Longrightarrow> stoll (to_string v) = Inr v"
  using to_string_no_space [of v "[]"] scan_to_string [of "[]" v] by (simp add: stoll_def)

lemma read_int_to_string:
  assumes "good f" and "in_rest f = to_string v @ rest" and "in_int32 v" and "rest = [] \<or> \<not> is_digit (hd rest)"
  shows "read_int old f = (v, f\<lparr>in_rest := rest, in_eof := (rest = []), in_fail := False\<rparr>)"
proof -
  have "to_string v \<noteq> []" by (simp add: to_string_def)
  with assms show ?thesis
    by (simp add: read_int_def to_string_no_space scan_to_string clamp_int32_def in_int32_def)
qed

lemma read_int_end: "good f \<Longrightarrow> in_rest f = [] \<Longrightarrow> read_int old f = (old, f\<lparr>in_eof := True, in_fail := True\<rparr>)"
  by (simp add: read_int_def)

section \<open>Reading consumes the input\<close>

lemma scan_int_shrinks: "scan_int s = Some (v, r) \<Longrightarrow> length r < length s"
proof -
  assume *: "scan_int s = Some (v, r)"
  define t where "t = (if s \<noteq> [] \<and> (hd s = CHR ''-'' \<or> hd s = CHR ''+'') then tl s else s)"
  from * have "takeWhile is_digit t \<noteq> []" and r: "r = dropWhile is_digit t"
    by (auto simp: scan_int_def t_def Let_def split: if_splits)
  then obtain c t' where "t = c # t'" "is_digit c" by (cases t) (auto split: if_splits)
  with r have "length r < length t" using length_dropWhile_le [of is_digit t'] by simp
  moreover have "length t \<le> length s" by (simp add: t_def)
  ultimately show ?thesis by simp
qed

lemma read_int_shrinks:
  assumes "read_int old f = (v, f')" and "good f'"
  shows "length (in_rest f') < length (in_rest f)"
proof -
  let ?s = "dropWhile is_space (in_rest f)"
  from assms obtain r where "scan_int ?s = Some (v, r) \<or> (\<exists>u. scan_int ?s = Some (u, r))" and "in_rest f' = r"
    by (auto simp: read_int_def good_def Let_def split: if_splits option.splits)
  then show ?thesis
    using scan_int_shrinks [of ?s _ r] length_dropWhile_le [of is_space "in_rest f"] by fastforce
qed

lemma read_chars_shrinks: "read_chars n f = (bs, f') \<Longrightarrow> length (in_rest f') \<le> length (in_rest f)"
  by (auto simp: read_chars_def split: if_splits)

end
