(* ===== verification/Message.thy ===== *)
theory Message
  imports Decimal
begin

text \<open>
  \<open>class Message\<close> (message.hpp): the buffer of one frame, a 20 byte header that holds the body length in
  decimal, filled up with zero bytes, and a body of at most 1000 bytes. \<open>frame\<close> is what a session writes to
  its socket. The buffer always has its full size, so an access beyond it is an error of the model.
\<close>

definition HEADER_LENGTH :: nat where
  "HEADER_LENGTH = 20"

definition MAX_BODY_LENGTH :: nat where
  "MAX_BODY_LENGTH = 1000"

lemmas message_lengths = HEADER_LENGTH_def MAX_BODY_LENGTH_def

record message =
  body_length :: int
  data_buffer :: string

definition Message_new :: message where
  "Message_new = \<lparr>body_length = 0, data_buffer = replicate (HEADER_LENGTH + MAX_BODY_LENGTH) (CHR 0x00)\<rparr>"

text \<open>The moved-to message and what is left of the source.\<close>

definition Message_move :: "message \<Rightarrow> message \<times> message" where
  "Message_move msg = (msg, \<lparr>body_length = 0, data_buffer = []\<rparr>)"

definition header :: "message \<Rightarrow> string" where
  "header msg = data_buffer msg"

definition body :: "message \<Rightarrow> string" where
  "body msg = drop HEADER_LENGTH (data_buffer msg)"

definition decode_length :: "message \<Rightarrow> message" where
  "decode_length msg = msg\<lparr>body_length := atoi (header msg)\<rparr>"

definition set_body_length :: "int \<Rightarrow> message \<Rightarrow> cpp_error + message" where
  "set_body_length len msg =
     (if \<not> 0 \<le> len then Inl AssertFailed
      else if \<not> len \<le> int MAX_BODY_LENGTH then Inl AssertFailed
      else let header_length_str = to_string len;
               zeroed = replicate HEADER_LENGTH (CHR 0x00) @ drop HEADER_LENGTH (data_buffer msg)
           in Inr \<lparr>body_length = len,
                   data_buffer = header_length_str @ drop (length header_length_str) zeroed\<rparr>)"

text \<open>Writing bytes at the start of the header or of the body.\<close>

definition write_header :: "string \<Rightarrow> message \<Rightarrow> message" where
  "write_header bs msg = msg\<lparr>data_buffer := bs @ drop (length bs) (data_buffer msg)\<rparr>"

definition write_body :: "string \<Rightarrow> message \<Rightarrow> cpp_error + message" where
  "write_body bs msg =
     (if HEADER_LENGTH + length bs \<le> length (data_buffer msg)
      then Inr (msg\<lparr>data_buffer := take HEADER_LENGTH (data_buffer msg) @ bs @
                    drop (HEADER_LENGTH + length bs) (data_buffer msg)\<rparr>)
      else Inl OutOfBounds)"

text \<open>The bytes of the body that carry the message, and the bytes of the frame.\<close>

definition payload :: "message \<Rightarrow> string" where
  "payload msg = take (nat (body_length msg)) (body msg)"

definition frame :: "message \<Rightarrow> string" where
  "frame msg = take (HEADER_LENGTH + nat (body_length msg)) (header msg)"

section \<open>Well-formed messages\<close>

text \<open>What \<open>set_body_length\<close> establishes: the buffer has its size and the header says the length of the body.\<close>

definition header_of :: "int \<Rightarrow> string" where
  "header_of len = to_string len @ replicate (HEADER_LENGTH - length (to_string len)) (CHR 0x00)"

definition buffer_ok :: "message \<Rightarrow> bool" where
  "buffer_ok msg \<longleftrightarrow> length (data_buffer msg) = HEADER_LENGTH + MAX_BODY_LENGTH"

definition message_ok :: "message \<Rightarrow> bool" where
  "message_ok msg \<longleftrightarrow> buffer_ok msg \<and> 0 \<le> body_length msg \<and> body_length msg \<le> int MAX_BODY_LENGTH \<and>
     take HEADER_LENGTH (header msg) = header_of (body_length msg)"

lemma buffer_ok_new [simp]: "buffer_ok Message_new"
  by (simp add: buffer_ok_def Message_new_def)

lemma length_text:
  assumes "0 \<le> len" and "len \<le> int MAX_BODY_LENGTH"
  shows "length (to_string len) \<le> 4"
  using digits_of_length [of "nat len" 3] assms by (simp add: to_string_def message_lengths)

lemma length_header_of:
  "0 \<le> len \<Longrightarrow> len \<le> int MAX_BODY_LENGTH \<Longrightarrow> length (header_of len) = HEADER_LENGTH"
  using length_text [of len] by (simp add: header_of_def HEADER_LENGTH_def)

lemma atoi_header_of:
  assumes "0 \<le> len" and "len \<le> int MAX_BODY_LENGTH"
  shows "atoi (header_of len @ rest) = len"
  unfolding header_of_def append_assoc
  by (rule atoi_to_string) (use length_text [OF assms] in \<open>simp add: HEADER_LENGTH_def is_digit_def hd_append\<close>)

lemma set_body_length_ok:
  assumes "buffer_ok msg" and "0 \<le> len" and "len \<le> int MAX_BODY_LENGTH"
  shows "set_body_length len msg =
    Inr \<lparr>body_length = len, data_buffer = header_of len @ drop HEADER_LENGTH (data_buffer msg)\<rparr>"
  using assms length_text [OF assms(2,3)] by (simp add: set_body_length_def header_of_def Let_def HEADER_LENGTH_def)

lemma set_body_length_error:
  "set_body_length len msg = Inl e \<longleftrightarrow> e = AssertFailed \<and> \<not> (0 \<le> len \<and> len \<le> int MAX_BODY_LENGTH)"
  by (auto simp: set_body_length_def Let_def)

lemma message_with_body:
  assumes "length bs \<le> MAX_BODY_LENGTH"
  shows "\<exists>msg. andThen (set_body_length (int (length bs)) Message_new) (write_body bs) = Inr msg \<and>
    message_ok msg \<and> payload msg = bs \<and> body_length msg = int (length bs)"
proof -
  let ?h = "header_of (int (length bs))"
  have h: "length ?h = HEADER_LENGTH" using assms by (intro length_header_of) auto
  have "set_body_length (int (length bs)) Message_new =
      Inr \<lparr>body_length = int (length bs), data_buffer = ?h @ replicate MAX_BODY_LENGTH (CHR 0x00)\<rparr>"
    using assms by (subst set_body_length_ok) (auto, simp add: Message_new_def)
  then show ?thesis
    using assms h by (simp add: write_body_def message_ok_def buffer_ok_def payload_def body_def header_def)
qed

lemma frame_message_ok:
  assumes "message_ok msg"
  shows "frame msg = header_of (body_length msg) @ payload msg"
  using assms by (simp add: message_ok_def frame_def payload_def body_def header_def take_add)

lemma length_payload: "message_ok msg \<Longrightarrow> length (payload msg) = nat (body_length msg)"
  by (auto simp: message_ok_def buffer_ok_def payload_def body_def message_lengths min_def)

end
