(* ===== verification/Raft_Message.thy ===== *)
theory Raft_Message
  imports Flow_Codec_Laws Message
begin

text \<open>
  \<open>class RaftMessage\<close> (raft_message.hpp): the wrapper of \<open>FlowMessage\<close> that loads one kind of request or
  response, and its conversion to and from the buffer of a frame. \<open>DebugString\<close> and \<open>serialize\<close>, which produce text for the log, are a parameter.
  The results of \<open>ParseFromArray\<close> and \<open>ParseFromString\<close> are ignored by the sources, so parsing a damaged buffer gives what
  was merged before the damage.
\<close>

type_synonym raft_message = FlowMessage

definition RaftMessage_new :: raft_message where
  "RaftMessage_new = FlowMessage_new"

section \<open>Loading and reading\<close>

definition loadVoteRequest :: "RequestVoteRequest \<Rightarrow> raft_message \<Rightarrow> raft_message" where
  "loadVoteRequest req msg = msg\<lparr>fm_type_fld := Some REQUEST_VOTE_REQUEST, fm_request_vote_request_fld := Some req\<rparr>"

definition loadVoteResult :: "RequestVoteResponse \<Rightarrow> raft_message \<Rightarrow> raft_message" where
  "loadVoteResult resp msg = msg\<lparr>fm_type_fld := Some REQUEST_VOTE_RESPONSE, fm_request_vote_response_fld := Some resp\<rparr>"

definition loadAppendEntriesRequest :: "AppendEntriesRequest \<Rightarrow> raft_message \<Rightarrow> raft_message" where
  "loadAppendEntriesRequest req msg = msg\<lparr>fm_type_fld := Some APPEND_ENTRIES_REQUEST, fm_append_entries_request_fld := Some req\<rparr>"

definition loadAppendEntriesResponse :: "AppendEntriesResponse \<Rightarrow> raft_message \<Rightarrow> raft_message" where
  "loadAppendEntriesResponse resp msg = msg\<lparr>fm_type_fld := Some APPEND_ENTRIES_RESPONSE, fm_append_entries_response_fld := Some resp\<rparr>"

definition loadClientPutMessageRequest :: "ClientPutMessage \<Rightarrow> raft_message \<Rightarrow> raft_message" where
  "loadClientPutMessageRequest req msg = msg\<lparr>fm_type_fld := Some CLIENT_PUT_MESSAGE, fm_client_put_message_fld := Some req\<rparr>"

definition loadClientPutMessageResponse :: "ClientPutMessageResponse \<Rightarrow> raft_message \<Rightarrow> raft_message" where
  "loadClientPutMessageResponse resp msg = msg\<lparr>fm_type_fld := Some CLIENT_PUT_MESSAGE_RESPONSE, fm_client_put_message_response_fld := Some resp\<rparr>"

definition loadClientCommitMessageRequest :: "ClientCommitMessage \<Rightarrow> raft_message \<Rightarrow> raft_message" where
  "loadClientCommitMessageRequest req msg = msg\<lparr>fm_type_fld := Some CLIENT_COMMIT_MESSAGE, fm_client_commit_message_fld := Some req\<rparr>"

definition loadClientOpenQueueRequest :: "ClientOpenQueue \<Rightarrow> raft_message \<Rightarrow> raft_message" where
  "loadClientOpenQueueRequest req msg = msg\<lparr>fm_type_fld := Some CLIENT_OPEN_QUEUE, fm_client_open_queue_fld := Some req\<rparr>"

definition loadClientOpenQueueResponse :: "ClientOpenQueueResponse \<Rightarrow> raft_message \<Rightarrow> raft_message" where
  "loadClientOpenQueueResponse resp msg = msg\<lparr>fm_type_fld := Some CLIENT_OPEN_QUEUE_RESPONSE, fm_client_open_queue_response_fld := Some resp\<rparr>"

definition loadServerSendMessageRequest :: "ServerSendMessage \<Rightarrow> raft_message \<Rightarrow> raft_message" where
  "loadServerSendMessageRequest req msg = msg\<lparr>fm_type_fld := Some SERVER_SEND_MESSAGE, fm_server_send_message_fld := Some req\<rparr>"

definition get_append_request :: "raft_message \<Rightarrow> AppendEntriesRequest" where
  "get_append_request msg = fm_append_entries_request msg"

definition get_append_response :: "raft_message \<Rightarrow> AppendEntriesResponse" where
  "get_append_response msg = fm_append_entries_response msg"

definition get_vote_request :: "raft_message \<Rightarrow> RequestVoteRequest" where
  "get_vote_request msg = fm_request_vote_request msg"

definition get_vote_response :: "raft_message \<Rightarrow> RequestVoteResponse" where
  "get_vote_response msg = fm_request_vote_response msg"

definition get_put_message_request :: "raft_message \<Rightarrow> ClientPutMessage" where
  "get_put_message_request msg = fm_client_put_message msg"

definition get_put_message_response :: "raft_message \<Rightarrow> ClientPutMessageResponse" where
  "get_put_message_response msg = fm_client_put_message_response msg"

definition get_commit_message_request :: "raft_message \<Rightarrow> ClientCommitMessage" where
  "get_commit_message_request msg = fm_client_commit_message msg"

definition get_open_queue_request :: "raft_message \<Rightarrow> ClientOpenQueue" where
  "get_open_queue_request msg = fm_client_open_queue msg"

definition get_open_queue_response :: "raft_message \<Rightarrow> ClientOpenQueueResponse" where
  "get_open_queue_response msg = fm_client_open_queue_response msg"

definition get_server_send_essage :: "raft_message \<Rightarrow> ServerSendMessage" where
  "get_server_send_essage msg = fm_server_send_message msg"

definition msg_type :: "raft_message \<Rightarrow> int" where
  "msg_type msg = fm_type msg"

definition msg_partition_id :: "raft_message \<Rightarrow> int" where
  "msg_partition_id msg = fm_partition_id msg"

definition set_partition_id :: "int \<Rightarrow> raft_message \<Rightarrow> raft_message" where
  "set_partition_id p msg = msg\<lparr>fm_partition_id_fld := Some p\<rparr>"

lemmas load_defs = loadVoteRequest_def loadVoteResult_def loadAppendEntriesRequest_def
  loadAppendEntriesResponse_def loadClientPutMessageRequest_def loadClientPutMessageResponse_def
  loadClientCommitMessageRequest_def loadClientOpenQueueRequest_def loadClientOpenQueueResponse_def
  loadServerSendMessageRequest_def set_partition_id_def RaftMessage_new_def

lemmas get_defs = get_append_request_def get_append_response_def get_vote_request_def
  get_vote_response_def get_put_message_request_def get_put_message_response_def
  get_commit_message_request_def get_open_queue_request_def get_open_queue_response_def
  get_server_send_essage_def msg_type_def msg_partition_id_def
  fm_append_entries_request_def fm_append_entries_response_def fm_request_vote_request_def
  fm_request_vote_response_def fm_client_put_message_def fm_client_put_message_response_def
  fm_client_commit_message_def fm_client_open_queue_def fm_client_open_queue_response_def
  fm_server_send_message_def fm_type_def fm_partition_id_def

section \<open>Text for the log\<close>

definition serialize :: "(raft_message \<Rightarrow> string) \<Rightarrow> raft_message \<Rightarrow> cpp_error + string" where
  "serialize debug_string msg = (if msg_type msg = UNKNOWN then Inl RuntimeError else Inr (debug_string msg))"

section \<open>Frames\<close>

text \<open>\<open>ParseFromArray\<close> and \<open>ParseFromString\<close>: clear the message and merge the bytes into it.\<close>

definition parsed :: "'m parsed option \<Rightarrow> cpp_error + 'm" where
  "parsed r = (case r of None \<Rightarrow> Inl Diverges | Some (ok, m, rest) \<Rightarrow> Inr m)"

definition deserialize :: "wire \<Rightarrow> string \<Rightarrow> cpp_error + raft_message" where
  "deserialize w str = parsed (FlowMessage_MergePartialFromCodedStream w str (FlowMessage_Clear RaftMessage_new))"

definition serialize_to_message :: "wire \<Rightarrow> raft_message \<Rightarrow> message \<Rightarrow> cpp_error + message" where
  "serialize_to_message w raft_msg msg =
     andThen (set_body_length (int (FlowMessage_ByteSizeLong w raft_msg)) msg)
       (write_body (FlowMessage_InternalSerializeWithCachedSizesToArray w raft_msg))"

definition serialize_as_message :: "wire \<Rightarrow> raft_message \<Rightarrow> cpp_error + message" where
  "serialize_as_message w raft_msg = serialize_to_message w raft_msg Message_new"

definition deserialize_from_message :: "wire \<Rightarrow> message \<Rightarrow> cpp_error + raft_message" where
  "deserialize_from_message w msg =
     parsed (FlowMessage_MergePartialFromCodedStream w (payload msg) (FlowMessage_Clear RaftMessage_new))"

lemma clear_new [simp]: "FlowMessage_Clear RaftMessage_new = FlowMessage_new"
  by (simp add: FlowMessage_Clear_def RaftMessage_new_def FlowMessage_new_def)

text \<open>A message that can be sent: its fields are in the range of their types and it is not longer than a frame.\<close>

definition fits_frame :: "wire \<Rightarrow> raft_message \<Rightarrow> bool" where
  "fits_frame w m \<longleftrightarrow> FlowMessage_fits w m \<and> FlowMessage_ByteSizeLong w m \<le> MAX_BODY_LENGTH"

context wire_format
begin

lemma serialize_as_message_ok:
  assumes "FlowMessage_fits w m" and "FlowMessage_ByteSizeLong w m \<le> MAX_BODY_LENGTH"
  shows "\<exists>msg. serialize_as_message w m = Inr msg \<and> message_ok msg \<and>
    payload msg = FlowMessage_SerializeWithCachedSizes w m"
proof -
  from message_with_body [of "FlowMessage_SerializeWithCachedSizes w m"] assms
  obtain msg where "andThen (set_body_length (int (FlowMessage_ByteSizeLong w m)) Message_new)
      (write_body (FlowMessage_SerializeWithCachedSizes w m)) = Inr msg"
    and "message_ok msg" and "payload msg = FlowMessage_SerializeWithCachedSizes w m"
    by (auto simp only: FlowMessage_size)
  then show ?thesis
    by (auto simp only: serialize_as_message_def serialize_to_message_def FlowMessage_array)
qed

lemma serialize_as_message_error:
  assumes "FlowMessage_ByteSizeLong w m > MAX_BODY_LENGTH"
  shows "serialize_as_message w m = Inl AssertFailed"
  using assms by (simp add: serialize_as_message_def serialize_to_message_def set_body_length_def)

lemma deserialize_payload:
  assumes "FlowMessage_fits w m" and "payload msg = FlowMessage_SerializeWithCachedSizes w m"
  shows "deserialize_from_message w msg = Inr m"
  using assms by (simp add: deserialize_from_message_def FlowMessage_roundtrip parsed_def)

lemma deserialize_returns: "\<exists>m. deserialize_from_message w msg = Inr m"
  using FlowMessage_returns [of "payload msg" FlowMessage_new]
  by (auto simp: deserialize_from_message_def parsed_def)

lemma deserialize_same: "deserialize w (payload msg) = deserialize_from_message w msg"
  by (simp add: deserialize_def deserialize_from_message_def)

lemma fits_frame_decodes:
  assumes "fits_frame w m"
  shows "\<exists>msg. serialize_as_message w m = Inr msg \<and> message_ok msg \<and> (\<forall>msg'. payload msg' = payload msg \<longrightarrow> deserialize_from_message w msg' = Inr m)"
proof -
  from assms have "FlowMessage_fits w m" "FlowMessage_ByteSizeLong w m \<le> MAX_BODY_LENGTH" by (simp_all add: fits_frame_def)
  from serialize_as_message_ok [OF this] deserialize_payload [OF this(1)] show ?thesis by metis
qed

lemma small_length: "k \<le> MAX_BODY_LENGTH \<Longrightarrow> LengthDelimitedSize w k \<le> k + 5"
  using length_sizes(2) [of k] by (simp add: MAX_BODY_LENGTH_def)

end

section \<open>Properties of the wire messages\<close>

text \<open>A vote request and an append request with one entry, for the concrete instances.\<close>

definition sample_entry :: LogEntry where
  "sample_entry = LogEntry_new\<lparr>le_index_fld := Some 1, le_term_fld := Some 3, le_message_id_fld := Some (- 7),
     le_operation_fld := Some LogEntry_ADD, le_message_fld := Some ''hi''\<rparr>"

definition sample_append :: raft_message where
  "sample_append = set_partition_id 0 (loadAppendEntriesRequest
     (AppendEntriesRequest_new\<lparr>aeq_term_fld := Some 3, aeq_leader_id_fld := Some 2, aeq_prev_log_index_fld := Some 0,
        aeq_prev_log_term_fld := Some 0, aeq_entries := [sample_entry], aeq_leader_commit_fld := Some 0\<rparr>) RaftMessage_new)"

lemmas varint_size = varint_wire_def to_uint64_def varint.simps

lemma sample_entry_size: "LogEntry_ByteSizeLong varint_wire sample_entry = 21"
  by (simp add: byte_size_defs message_getter_defs sample_entry_def LogEntry_new_def LogEntry_ADD_def varint_size)

lemma sample_append_sizes:
  "AppendEntriesRequest_ByteSizeLong varint_wire (get_append_request sample_append) = 33"
  "FlowMessage_ByteSizeLong varint_wire sample_append = 39"
  using sample_entry_size
  by (simp_all add: FlowMessage_ByteSizeLong_def AppendEntriesRequest_ByteSizeLong_def size_all_def message_getter_defs
      get_append_request_def sample_append_def load_defs message_new_defs message_types)
    (simp_all add: varint_size)

lemma sample_append_fits: "FlowMessage_fits varint_wire sample_append"
  using sample_append_sizes(1) sample_entry_size
  by (simp add: fits_defs get_defs sample_append_def sample_entry_def load_defs message_new_defs
      MessageType_IsValid_def message_types LogEntry_ADD_def in_int32_def in_int64_def)

text \<open>
  C22: a message whose fields fit their types and that takes at most 1000 bytes is sent and received unchanged: \<open>serialize_as_message\<close>
  succeeds and \<open>deserialize_from_message\<close> on the receiver's side gives the same message, whatever
  library meets the laws of \<open>wire_format\<close>.
\<close>

theorem message_roundtrip:
  assumes "wire_format w" and "FlowMessage_fits w m" and "FlowMessage_ByteSizeLong w m \<le> MAX_BODY_LENGTH"
  shows "\<exists>msg. serialize_as_message w m = Inr msg \<and> length (payload msg) = FlowMessage_ByteSizeLong w m \<and>
    deserialize_from_message w msg = Inr m"
proof -
  from wire_format.serialize_as_message_ok [OF assms] obtain msg where
    "serialize_as_message w m = Inr msg" and p: "payload msg = FlowMessage_SerializeWithCachedSizes w m" by blast
  moreover have "deserialize_from_message w msg = Inr m"
    by (rule wire_format.deserialize_payload [OF assms(1,2) p])
  ultimately show ?thesis
    using p by (simp add: wire_format.FlowMessage_size [OF assms(1,2)])
qed

theorem message_roundtrip_witness:
  "\<exists>msg. serialize_as_message varint_wire sample_append = Inr msg \<and> length (payload msg) = 39 \<and>
    deserialize_from_message varint_wire msg = Inr sample_append"
  using message_roundtrip [OF varint.wire_format_axioms sample_append_fits]
  by (simp add: sample_append_sizes(2) MAX_BODY_LENGTH_def)

text \<open>
  C31: parsing a frame always returns, whatever bytes a peer sent.
\<close>

theorem deserialize_total:
  assumes "wire_format w"
  shows "\<exists>m. deserialize_from_message w msg = Inr m"
  by (rule wire_format.deserialize_returns [OF assms])

theorem deserialize_total_witness:
  "wire_format varint_wire \<and> (\<exists>m. deserialize_from_message varint_wire (Message_new\<lparr>body_length := 3\<rparr>) = Inr m)"
  using deserialize_total [OF varint.wire_format_axioms] varint.wire_format_axioms by blast

end
