(* ===== verification/Client_Manager.thy ===== *)
theory Client_Manager
  imports Std_Containers Raft_Message
begin

text \<open>
  \<open>class ClientManager\<close> (client_manager.hpp, client_manager.cpp): the sessions of the clients of one server
  and, for each partition, the clients that opened its queue. A session is the list of the messages written to it, of any type \<open>'m\<close>.
  Accepting a connection, a message of a client and the loss of a connection are steps on the manager; the mutex makes each
  of them atomic. \<open>round_robin\<close> is the contract of the delivery.
\<close>

record 'm client_manager =
  client_sessions :: "(int, 'm list) smap"
  consumer_client_id_array :: "(int, int list) smap"
  deliver_count :: "(int, int) smap"

definition ClientManager_new :: "'m client_manager" where
  "ClientManager_new = \<lparr>client_sessions = [], consumer_client_id_array = [], deliver_count = []\<rparr>"

section \<open>Operations\<close>

text \<open>\<open>client_sessions_[client_id]->write_message(msg)\<close>: a missing key gives a null session.\<close>

definition session_write :: "int \<Rightarrow> 'm \<Rightarrow> 'm client_manager \<Rightarrow> cpp_error + 'm client_manager" where
  "session_write client_id msg cm =
     (case map_find (client_sessions cm) client_id of
        None \<Rightarrow> Inl NullPointer
      | Some written \<Rightarrow> Inr (cm\<lparr>client_sessions := map_set client_id (written @ [msg]) (client_sessions cm)\<rparr>))"

definition deliver_one_message_round_robin ::
  "int \<Rightarrow> 'm \<Rightarrow> 'm client_manager \<Rightarrow> cpp_error + int \<times> 'm client_manager" where
  "deliver_one_message_round_robin partition_id msg cm =
     (if map_count (consumer_client_id_array cm) partition_id = 0 then Inr (1, cm)
      else let (ids, arrays) = map_index [] partition_id (consumer_client_id_array cm);
               cm = cm\<lparr>consumer_client_id_array := arrays\<rparr>
           in if length ids = 0 then Inr (- 1, cm)
              else let (count, counts) = map_index 0 partition_id (deliver_count cm);
                       cm = cm\<lparr>deliver_count := counts\<rparr>;
                       client_id = ids ! nat (count mod int (length ids))
                   in andThen (session_write client_id msg cm) (\<lambda>cm.
                        Inr (client_id, cm\<lparr>deliver_count := map_set partition_id (count + 1) (deliver_count cm)\<rparr>)))"

definition has_consumers :: "'m client_manager \<Rightarrow> bool" where
  "has_consumers cm \<longleftrightarrow> length (consumer_client_id_array cm) > 0"

text \<open>The handler of \<open>async_accept\<close>; \<open>client_id\<close> is the value of \<open>std::rand()\<close>.\<close>

definition accept_new_connection :: "int \<Rightarrow> 'm client_manager \<Rightarrow> 'm client_manager" where
  "accept_new_connection client_id cm = cm\<lparr>client_sessions := map_set client_id [] (client_sessions cm)\<rparr>"

text \<open>The disconnect handler of a session: the client whose disconnection it reports, and the manager.\<close>

definition remove_consumer :: "int \<Rightarrow> 'm client_manager \<Rightarrow> 'm client_manager" where
  "remove_consumer client_id cm =
     cm\<lparr>consumer_client_id_array := map (\<lambda>(p, ids). (p, remove1 client_id ids)) (consumer_client_id_array cm)\<rparr>"

definition session_disconnected :: "int \<Rightarrow> 'm client_manager \<Rightarrow> int \<times> 'm client_manager" where
  "session_disconnected client_id cm =
     (client_id, remove_consumer client_id (if map_find (client_sessions cm) client_id \<noteq> None
            then cm\<lparr>client_sessions := map_erase client_id (client_sessions cm)\<rparr> else cm))"

definition open_partition :: "int \<Rightarrow> int \<Rightarrow> 'm client_manager \<Rightarrow> 'm client_manager" where
  "open_partition partition_id client_id cm =
     (let (ids, arrays) = map_index [] partition_id (consumer_client_id_array cm)
      in cm\<lparr>consumer_client_id_array := map_set partition_id (ids @ [client_id]) arrays\<rparr>)"

text \<open>\<open>handle_message\<close> returns the messages it passes to the handler of the cluster master.\<close>

definition handle_message ::
  "wire \<Rightarrow> message \<Rightarrow> int \<Rightarrow> 'm client_manager \<Rightarrow> cpp_error + message list \<times> 'm client_manager" where
  "handle_message w msg client_id cm =
     andThen (deserialize_from_message w msg) (\<lambda>raft_msg.
       if msg_type raft_msg = CLIENT_OPEN_QUEUE
       then Inr ([msg], open_partition (msg_partition_id raft_msg) client_id cm)
       else if msg_type raft_msg = CLIENT_PUT_MESSAGE \<or> msg_type raft_msg = CLIENT_COMMIT_MESSAGE
       then Inr ([msg], cm)
       else Inl RuntimeError)"

section \<open>Consumers of a partition\<close>

definition consumers :: "int \<Rightarrow> 'm client_manager \<Rightarrow> int list" where
  "consumers p cm = opt_get [] (map_find (consumer_client_id_array cm) p)"

definition delivered_count :: "int \<Rightarrow> 'm client_manager \<Rightarrow> int" where
  "delivered_count p cm = opt_get 0 (map_find (deliver_count cm) p)"

definition inbox :: "'m client_manager \<Rightarrow> int \<Rightarrow> 'm list" where
  "inbox cm c = opt_get [] (map_find (client_sessions cm) c)"

text \<open>
  Every consumer has a session, and a client appears at most once in a partition (it did not open the queue twice).
\<close>

definition manager_ok :: "'m client_manager \<Rightarrow> bool" where
  "manager_ok cm \<longleftrightarrow>
     map_ok (consumer_client_id_array cm) \<and>
     (\<forall>p. \<forall>c \<in> set (consumers p cm). map_find (client_sessions cm) c \<noteq> None) \<and>
     (\<forall>p. distinct (consumers p cm)) \<and> (\<forall>p. 0 \<le> delivered_count p cm)"

text \<open>A partition that can be delivered to.\<close>

definition active :: "int \<Rightarrow> 'm client_manager \<Rightarrow> bool" where
  "active p cm \<longleftrightarrow> manager_ok cm \<and> consumers p cm \<noteq> []"

lemma deliver_active:
  assumes "active p cm"
  shows "\<exists>cm'. deliver_one_message_round_robin p m cm =
      Inr (consumers p cm ! nat (delivered_count p cm mod int (length (consumers p cm))), cm') \<and>
    active p cm' \<and> (\<forall>q. consumers q cm' = consumers q cm) \<and> delivered_count p cm' = delivered_count p cm + 1 \<and>
    inbox cm' = (inbox cm)(consumers p cm ! nat (delivered_count p cm mod int (length (consumers p cm))) :=
      inbox cm (consumers p cm ! nat (delivered_count p cm mod int (length (consumers p cm)))) @ [m])"
proof -
  let ?ids = "consumers p cm" and ?count = "delivered_count p cm"
  let ?c = "?ids ! nat (?count mod int (length ?ids))"
  from assms have ids: "map_find (consumer_client_id_array cm) p = Some ?ids" and ne: "?ids \<noteq> []"
    by (auto simp: active_def consumers_def split: option.splits) (metis opt_get.simps option.exhaust)
  have "0 \<le> ?count mod int (length ?ids)" and "?count mod int (length ?ids) < int (length ?ids)" using ne by simp_all
  then have "?c \<in> set ?ids" by (intro nth_mem) linarith
  with assms obtain out where out: "map_find (client_sessions cm) ?c = Some out"
    unfolding active_def manager_ok_def by (metis option.exhaust)
  let ?cm = "cm\<lparr>client_sessions := map_set ?c (out @ [m]) (client_sessions cm),
      deliver_count := map_set p (?count + 1) (snd (map_index 0 p (deliver_count cm)))\<rparr>"
  have "deliver_one_message_round_robin p m cm = Inr (?c, ?cm)"
    using ids ne out
    by (cases "map_find (deliver_count cm) p")
      (simp_all add: deliver_one_message_round_robin_def map_count_def map_index_def session_write_def delivered_count_def
        Let_def)
  moreover have "active p ?cm \<and> (\<forall>q. consumers q ?cm = consumers q cm) \<and> delivered_count p ?cm = ?count + 1"
    using assms by (auto simp: active_def manager_ok_def consumers_def delivered_count_def map_find_index)
  moreover have "inbox ?cm = (inbox cm)(?c := inbox cm ?c @ [m])"
    using out by (auto simp: inbox_def)
  ultimately show ?thesis by blast
qed

section \<open>The contract of the delivery\<close>

text \<open>
  Delivering a sequence of messages, one call each: the clients they went to. Each call goes to the consumer after the
  previous one.
\<close>

fun deliver_seq :: "('m \<Rightarrow> 'c \<Rightarrow> 'e + int \<times> 'c) \<Rightarrow> 'm list \<Rightarrow> 'c \<Rightarrow> 'e + int list \<times> 'c" where
  "deliver_seq deliver [] c = Inr ([], c)"
| "deliver_seq deliver (m # ms) c =
     andThen (deliver m c) (\<lambda>(x, c'). andThen (deliver_seq deliver ms c') (\<lambda>(xs, c''). Inr (x # xs, c'')))"

locale round_robin =
  fixes ok :: "'c \<Rightarrow> bool"
    and targets :: "'c \<Rightarrow> int list"
    and count :: "'c \<Rightarrow> int"
    and written :: "'c \<Rightarrow> int \<Rightarrow> 'm list"
    and deliver :: "'m \<Rightarrow> 'c \<Rightarrow> 'e + int \<times> 'c"
  assumes targets_ok: "ok c \<Longrightarrow> targets c \<noteq> [] \<and> 0 \<le> count c"
    and deliver_next: "ok c \<Longrightarrow> \<exists>c'. deliver m c = Inr (targets c ! nat (count c mod int (length (targets c))), c') \<and>
      ok c' \<and> targets c' = targets c \<and> count c' = count c + 1 \<and>
      written c' = (written c)(targets c ! nat (count c mod int (length (targets c))) :=
        written c (targets c ! nat (count c mod int (length (targets c)))) @ [m])"
begin

definition target_at :: "'c \<Rightarrow> nat \<Rightarrow> int" where
  "target_at c i = targets c ! nat ((count c + int i) mod int (length (targets c)))"

lemma deliver_seq_targets:
  assumes "ok c"
  shows "\<exists>c'. deliver_seq deliver ms c = Inr (map (target_at c) [0..<length ms], c') \<and> ok c' \<and>
    targets c' = targets c \<and> count c' = count c + int (length ms) \<and>
    (\<forall>x. written c' x = written c x @ map fst (filter (\<lambda>(m, y). y = x) (zip ms (map (target_at c) [0..<length ms]))))"
  using assms
proof (induction ms arbitrary: c)
  case (Cons m ms)
  from deliver_next [OF Cons.prems, of m] obtain c1 where
    c1: "deliver m c = Inr (target_at c 0, c1)" "ok c1" "targets c1 = targets c" "count c1 = count c + 1"
      "written c1 = (written c)(target_at c 0 := written c (target_at c 0) @ [m])"
    by (auto simp: target_at_def)
  have shift: "target_at c1 i = target_at c (Suc i)" for i
    using c1(3,4) by (simp add: target_at_def ac_simps)
  have seq: "map (target_at c) [0..<length (m # ms)] = target_at c 0 # map (target_at c1) [0..<length ms]"
    using upt_conv_Cons [of 0 "Suc (length ms)"]
    by (simp add: shift comp_def map_Suc_upt [symmetric] del: upt_Suc)
  from Cons.IH [OF c1(2)] obtain c2 where
    "deliver_seq deliver ms c1 = Inr (map (target_at c1) [0..<length ms], c2)" "ok c2"
    "targets c2 = targets c1" "count c2 = count c1 + int (length ms)"
    "\<forall>x. written c2 x = written c1 x @ map fst (filter (\<lambda>(m, y). y = x) (zip ms (map (target_at c1) [0..<length ms])))"
    by blast
  with c1 show ?case unfolding seq by auto
qed simp

text \<open>One delivery for each consumer is one delivery to each consumer.\<close>

lemma full_round:
  assumes "ok c" and "length ms = length (targets c)"
  shows "\<exists>c'. deliver_seq deliver ms c = Inr (rotate (nat (count c)) (targets c), c') \<and> ok c'"
proof -
  from targets_ok [OF assms(1)] have ne: "targets c \<noteq> []" and pos: "0 \<le> count c" by auto
  have "target_at c i = targets c ! ((nat (count c) + i) mod length (targets c))" for i
  proof -
    have "count c + int i = int (nat (count c) + i)" using pos by simp
    then show ?thesis by (simp only: target_at_def flip: zmod_int) simp
  qed
  then have "map (target_at c) [0..<length ms] = rotate (nat (count c)) (targets c)"
    using assms(2) by (intro nth_equalityI) (auto simp: nth_rotate)
  with deliver_seq_targets [OF assms(1), of ms] show ?thesis by auto
qed

end

lemma deliver_contract:
  assumes "active p c"
  shows "\<exists>c'. deliver_one_message_round_robin p m c =
      Inr (consumers p c ! nat (delivered_count p c mod int (length (consumers p c))), c') \<and>
    active p c' \<and> consumers p c' = consumers p c \<and> delivered_count p c' = delivered_count p c + 1 \<and>
    inbox c' = (inbox c)(consumers p c ! nat (delivered_count p c mod int (length (consumers p c))) :=
      inbox c (consumers p c ! nat (delivered_count p c mod int (length (consumers p c)))) @ [m])"
  using deliver_active [OF assms, of m] by (elim exE conjE) (intro exI conjI, assumption+, simp_all)

interpretation cmgr: round_robin "active p" "consumers p" "delivered_count p" inbox "deliver_one_message_round_robin p"
  for p
  by unfold_locales (simp add: active_def manager_ok_def, rule deliver_contract)

section \<open>Connections\<close>

lemma map_find_values: "map_find (map (\<lambda>(k, v). (k, f v)) m) k = map_option f (map_find m k)"
  by (induction m) (auto simp: map_find_def)

lemma map_ok_values [simp]: "map_ok (map (\<lambda>(k, v). (k, f v)) m) = map_ok m"
proof -
  have "map fst (map (\<lambda>(k, v). (k, f v)) m) = map fst m" by (induction m) auto
  then show ?thesis by (simp only: map_ok_def)
qed

lemma consumers_remove: "consumers p (remove_consumer client_id cm) = remove1 client_id (consumers p cm)"
  by (cases "map_find (consumer_client_id_array cm) p")
    (simp_all add: consumers_def remove_consumer_def map_find_values)

lemma consumers_open:
  "consumers q (open_partition p client_id cm) = (if q = p then consumers p cm @ [client_id] else consumers q cm)"
  by (simp add: consumers_def open_partition_def map_index_def split: option.split)

lemma manager_ok_new: "manager_ok ClientManager_new"
  by (simp add: manager_ok_def ClientManager_new_def consumers_def delivered_count_def smap.ok_empty)

lemma accept_ok: "manager_ok cm \<Longrightarrow> manager_ok (accept_new_connection client_id cm)"
  by (auto simp: manager_ok_def accept_new_connection_def consumers_def delivered_count_def)

lemma open_partition_ok:
  assumes "manager_ok cm" and "map_find (client_sessions cm) client_id \<noteq> None" and "client_id \<notin> set (consumers p cm)"
  shows "manager_ok (open_partition p client_id cm)"
proof -
  have "client_sessions (open_partition p client_id cm) = client_sessions cm"
    and "deliver_count (open_partition p client_id cm) = deliver_count cm"
    and "map_ok (consumer_client_id_array (open_partition p client_id cm))"
    using assms(1) by (auto simp: open_partition_def map_index_def manager_ok_def std_ok split: option.split)
  with assms show ?thesis
    by (auto simp: manager_ok_def consumers_open delivered_count_def)
qed

lemma disconnected_ok:
  assumes "manager_ok cm"
  shows "manager_ok (snd (session_disconnected client_id cm)) \<and>
    (\<forall>p. client_id \<notin> set (consumers p (snd (session_disconnected client_id cm))))"
proof -
  let ?after = "snd (session_disconnected client_id cm)"
  have cons: "consumers p ?after = remove1 client_id (consumers p cm)" for p
    unfolding session_disconnected_def snd_conv consumers_remove by (simp add: consumers_def)
  have "map_ok (consumer_client_id_array ?after)"
    using assms by (simp add: session_disconnected_def remove_consumer_def manager_ok_def)
  moreover have "map_find (client_sessions ?after) c = (if c = client_id then None else map_find (client_sessions cm) c)" for c
    by (simp add: session_disconnected_def remove_consumer_def)
  moreover have "delivered_count p ?after = delivered_count p cm" for p
    by (simp add: session_disconnected_def remove_consumer_def delivered_count_def)
  moreover have "set (remove1 client_id (consumers p cm)) = set (consumers p cm) - {client_id}" for p
    using assms by (simp add: manager_ok_def set_remove1_eq)
  moreover have "distinct (remove1 client_id (consumers p cm))" for p
    using assms by (simp add: manager_ok_def)
  ultimately show ?thesis
    using assms unfolding manager_ok_def cons by (simp, blast)
qed

section \<open>Properties of the client manager\<close>

text \<open>A server with clients 7 and 9, both consumers of partition 0.\<close>

definition two_consumers :: "'m client_manager" where
  "two_consumers = open_partition 0 9 (open_partition 0 7 (accept_new_connection 9 (accept_new_connection 7 ClientManager_new)))"

lemma two_consumers_fields [simp]:
  "consumers 0 two_consumers = [7, 9]" "delivered_count 0 two_consumers = 0" "inbox two_consumers c = []"
  by (simp_all add: two_consumers_def open_partition_def accept_new_connection_def ClientManager_new_def consumers_def
      delivered_count_def inbox_def map_index_def map_find_def)

lemma two_consumers_active: "active 0 two_consumers"
  unfolding active_def two_consumers_def
  by (intro conjI open_partition_ok accept_ok manager_ok_new)
    (simp_all add: consumers_open open_partition_def accept_new_connection_def ClientManager_new_def consumers_def map_index_def
      map_find_def)

text \<open>
  While the consumers of a partition stay connected, delivery is round robin: the \<open>i\<close>-th of a sequence of messages goes
  to the consumer \<open>i\<close> places after the current one, every call succeeds, and each client is written exactly the messages
  delivered to it, in their order.
\<close>

lemma delivery_is_round_robin:
  assumes "active p cm"
  shows "\<exists>cm'. let target = (\<lambda>i. consumers p cm ! nat ((delivered_count p cm + int i) mod int (length (consumers p cm))));
      ids = map target [0..<length ms]
    in deliver_seq (deliver_one_message_round_robin p) ms cm = Inr (ids, cm') \<and> active p cm' \<and>
       consumers p cm' = consumers p cm \<and>
       (\<forall>c. inbox cm' c = inbox cm c @ map fst (filter (\<lambda>(m, x). x = c) (zip ms ids)))"
  using cmgr.deliver_seq_targets [OF assms, of ms] unfolding Let_def cmgr.target_at_def by blast

text \<open>
  Delivery is fair: as many messages as there are consumers reach every consumer exactly once, starting with the one whose turn it is.
\<close>

lemma delivery_is_fair:
  assumes "active p cm" and "length ms = length (consumers p cm)"
  shows "\<exists>cm'. deliver_seq (deliver_one_message_round_robin p) ms cm =
      Inr (rotate (nat (delivered_count p cm)) (consumers p cm), cm') \<and> active p cm'"
  by (rule cmgr.full_round [OF assms])

text \<open>
  The manager keeps every consumer connected: a new connection, a client that opens a queue it is not a consumer of, and the
  loss of a connection keep the invariant, and a lost client is a consumer of no partition any more.
\<close>

lemma connections_keep_consumers_live:
  assumes "manager_ok cm"
  shows "manager_ok (accept_new_connection c cm) \<and>
    (map_find (client_sessions cm) c \<noteq> None \<and> c \<notin> set (consumers p cm) \<longrightarrow> manager_ok (open_partition p c cm)) \<and>
    manager_ok (snd (session_disconnected c cm)) \<and>
    (\<forall>q. c \<notin> set (consumers q (snd (session_disconnected c cm))))"
  using assms disconnected_ok [OF assms] accept_ok open_partition_ok by blast

text \<open>
  A client that opens the same queue twice and disconnects stays in the array of consumers, and the next delivery
  dereferences its missing session: the disconnect handler erases one occurrence only.
\<close>

lemma opened_twice_crashes_delivery:
  "deliver_one_message_round_robin 0 m
     (snd (session_disconnected 7 (open_partition 0 7 (open_partition 0 7 (accept_new_connection 7 ClientManager_new))))) =
   Inl NullPointer"
  by (simp add: deliver_one_message_round_robin_def session_disconnected_def remove_consumer_def open_partition_def
      accept_new_connection_def ClientManager_new_def map_index_def map_find_def map_count_def map_erase_def session_write_def)

text \<open>A partition that no client opened: the delivery reports client 1, not the failure value -1, and writes to nobody.\<close>

lemma deliver_unknown_partition:
  "map_find (consumer_client_id_array cm) p = None \<Longrightarrow> deliver_one_message_round_robin p m cm = Inr (1, cm)"
  by (simp add: deliver_one_message_round_robin_def map_count_def)

end
