(* ===== verification/Log_Entry_Storage.thy ===== *)
theory Log_Entry_Storage
  imports Std_Containers Raft_Message
begin

text \<open>
  The files of a partition (log_entry.hpp, log_entry_storage.hpp, log_entry_storage.cpp): the log as a
  sequence of records \<open><size> <bytes>\<close>, and the metadata, the index of the last committed entry in decimal. The file system is
  the contents of the files by name; whether a file can be opened for writing is a parameter of it.
\<close>

record file_system =
  files :: "(string, string) smap"
  writable :: "string \<Rightarrow> bool"

text \<open>\<open>std::ofstream f(filename)\<close>: the file system with the new contents, or \<open>None\<close> when \<open>f.is_open()\<close> is false.\<close>

definition overwrite_file :: "string \<Rightarrow> string \<Rightarrow> file_system \<Rightarrow> file_system option" where
  "overwrite_file filename s fs =
     (if writable fs filename then Some (fs\<lparr>files := map_set filename s (files fs)\<rparr>) else None)"

definition append_file :: "string \<Rightarrow> string \<Rightarrow> file_system \<Rightarrow> file_system option" where
  "append_file filename s fs =
     (if writable fs filename
      then Some (fs\<lparr>files := map_set filename (opt_get [] (map_find (files fs) filename) @ s) (files fs)\<rparr>) else None)"

definition result_of :: "file_system \<Rightarrow> file_system option \<Rightarrow> int \<times> file_system" where
  "result_of fs r = (case r of None \<Rightarrow> (1, fs) | Some fs' \<Rightarrow> (0, fs'))"

section \<open>Metadata\<close>

record log_entry_metadata =
  last_committed :: int

definition metadata_serialize :: "log_entry_metadata \<Rightarrow> string" where
  "metadata_serialize md = to_string (last_committed md)"

definition metadata_deserialize :: "string \<Rightarrow> cpp_error + log_entry_metadata" where
  "metadata_deserialize str = andThen (stoi str) (\<lambda>v. Inr \<lparr>last_committed = v\<rparr>)"

definition save_metadata_to_file :: "string \<Rightarrow> log_entry_metadata \<Rightarrow> file_system \<Rightarrow> int \<times> file_system" where
  "save_metadata_to_file filename md fs = result_of fs (overwrite_file filename (metadata_serialize md @ '' '') fs)"

definition load_metadata_from_file :: "string \<Rightarrow> log_entry_metadata \<Rightarrow> file_system \<Rightarrow> int \<times> log_entry_metadata" where
  "load_metadata_from_file filename md fs =
     (let (v, f) = read_int (last_committed md) (open_stream (map_find (files fs) filename))
      in (0, md\<lparr>last_committed := v\<rparr>))"

section \<open>Log entries\<close>

definition SerializeAsString :: "wire \<Rightarrow> LogEntry \<Rightarrow> string" where
  "SerializeAsString w entry = LogEntry_InternalSerializeWithCachedSizesToArray w entry"

definition ParseFromString :: "wire \<Rightarrow> string \<Rightarrow> LogEntry \<Rightarrow> cpp_error + LogEntry" where
  "ParseFromString w s entry = parsed (LogEntry_MergePartialFromCodedStream w s (LogEntry_Clear entry))"

text \<open>\<open>f << temp.size() << ' ' << temp\<close>\<close>

definition entry_record :: "wire \<Rightarrow> LogEntry \<Rightarrow> string" where
  "entry_record w entry =
     (let temp = SerializeAsString w entry in to_string (int (length temp)) @ '' '' @ temp)"

definition save_log_entry_to_file :: "wire \<Rightarrow> string \<Rightarrow> LogEntry list \<Rightarrow> file_system \<Rightarrow> int \<times> file_system" where
  "save_log_entry_to_file w filename entries fs =
     result_of fs (overwrite_file filename (concat (map (entry_record w) entries)) fs)"

definition append_log_entry_to_file :: "wire \<Rightarrow> string \<Rightarrow> LogEntry list \<Rightarrow> file_system \<Rightarrow> int \<times> file_system" where
  "append_log_entry_to_file w filename entries fs =
     result_of fs (append_file filename (concat (map (entry_record w) entries)) fs)"

definition resize :: "nat \<Rightarrow> string \<Rightarrow> string" where
  "resize n temp = take n temp @ replicate (n - length temp) (CHR 0x00)"

text \<open>The loop of \<open>load_log_entry_from_file\<close>; \<open>entry_size\<close> and \<open>temp\<close> keep their values between its rounds.\<close>

function load_loop ::
  "wire \<Rightarrow> int \<Rightarrow> string \<Rightarrow> istream \<Rightarrow> LogEntry list \<Rightarrow> cpp_error + LogEntry list \<times> istream" where
  "load_loop w entry_size temp f entries =
     (let (entry_size, f1) = read_int entry_size f
      in if \<not> good f1 then Inr (entries, f1)
         else let (c, f2) = read_chars 1 f1
              in if entry_size < 0 then Inl LengthError
                 else let (bs, f3) = read_chars (nat entry_size) f2;
                          temp = bs @ drop (length bs) (resize (nat entry_size) temp)
                      in andThen (ParseFromString w temp LogEntry_new)
                           (\<lambda>temp_entry. load_loop w entry_size temp f3 (entries @ [temp_entry])))"
  by pat_completeness auto

termination
proof (relation "measure (\<lambda>(w, n, temp, f, entries). length (in_rest f))", simp)
  fix w n temp f entries p n' f1 q c f2 q' bs f3 temp' e
  assume p: "p = read_int n f" "(n', f1) = p" and g: "\<not> \<not> good f1"
    and q: "q = read_chars 1 f1" "(c, f2) = q" and q': "q' = read_chars (nat n') f2" "(bs, f3) = q'"
  have "length (in_rest f1) < length (in_rest f)" using read_int_shrinks [of n f n' f1] p g by simp
  moreover have "length (in_rest f2) \<le> length (in_rest f1)" using read_chars_shrinks [of 1 f1 c f2] q by simp
  moreover have "length (in_rest f3) \<le> length (in_rest f2)" using read_chars_shrinks [of "nat n'" f2 bs f3] q' by simp
  ultimately show "((w, n', temp', f3, entries @ [e]), w, n, temp, f, entries)
      \<in> measure (\<lambda>(w, n, temp, f, entries). length (in_rest f))"
    by simp
qed

declare load_loop.simps [simp del]

definition load_log_entry_from_file :: "wire \<Rightarrow> string \<Rightarrow> LogEntry list \<Rightarrow> file_system \<Rightarrow> cpp_error + int \<times> LogEntry list" where
  "load_log_entry_from_file w filename entries fs =
     andThen (load_loop w 0 [] (open_stream (map_find (files fs) filename)) entries)
       (\<lambda>(entries, f). Inr (if in_eof f then 0 else 1, entries))"

section \<open>Reading back what was stored\<close>

text \<open>What a file must hold to be read back: entries that fit the fields and whose size fits an \<open>int\<close>.\<close>

definition entry_ok :: "wire \<Rightarrow> LogEntry \<Rightarrow> bool" where
  "entry_ok w e \<longleftrightarrow> LogEntry_fits w e \<and> LogEntry_ByteSizeLong w e < 2 ^ 31"

definition log_text :: "wire \<Rightarrow> LogEntry list \<Rightarrow> string" where
  "log_text w es = concat (map (entry_record w) es)"

lemma log_text_append: "log_text w (xs @ ys) = log_text w xs @ log_text w ys"
  by (simp add: log_text_def)

lemma load_metadata_saved:
  assumes "map_find (files fs) name = Some (metadata_serialize md @ '' '')" and "in_int32 (last_committed md)"
  shows "load_metadata_from_file name old fs = (0, md)"
proof -
  have "read_int (last_committed old) (open_stream (map_find (files fs) name)) =
      (last_committed md, (open_stream (map_find (files fs) name))\<lparr>in_rest := '' '', in_eof := False, in_fail := False\<rparr>)"
    by (subst read_int_to_string [where rest = "'' ''" and v = "last_committed md"])
      (use assms in \<open>simp_all add: open_stream_def metadata_serialize_def good_def is_digit_def\<close>)
  then show ?thesis
    by (cases old; cases md) (simp add: load_metadata_from_file_def)
qed

context wire_format
begin

lemma parse_entry:
  assumes "entry_ok w e"
  shows "ParseFromString w (SerializeAsString w e) LogEntry_new = Inr e"
proof -
  have "LogEntry_Clear LogEntry_new = LogEntry_new" by (simp add: LogEntry_Clear_def LogEntry_new_def)
  with assms show ?thesis
    by (simp add: ParseFromString_def SerializeAsString_def entry_ok_def LogEntry_roundtrip parsed_def)
qed

lemma load_one:
  assumes "entry_ok w e" and "good f" and "in_rest f = entry_record w e @ rest"
  shows "\<exists>n temp'. load_loop w k temp f entries = load_loop w n temp' (f\<lparr>in_rest := rest\<rparr>) (entries @ [e])"
proof -
  let ?bs = "SerializeAsString w e"
  let ?n = "int (length ?bs)"
  let ?f1 = "f\<lparr>in_rest := '' '' @ ?bs @ rest, in_eof := False, in_fail := False\<rparr>"
  have size: "in_int32 ?n"
    using assms(1) by (simp add: entry_ok_def SerializeAsString_def LogEntry_size in_int32_def)
  have r1: "read_int k f = (?n, ?f1)"
    by (subst read_int_to_string [where rest = "'' '' @ ?bs @ rest" and v = ?n])
      (use assms(2,3) size in \<open>simp_all add: entry_record_def is_digit_def Let_def\<close>)
  have r2: "read_chars (Suc 0) ?f1 = ('' '', ?f1\<lparr>in_rest := ?bs @ rest\<rparr>)"
    by (simp add: read_chars_def good_def)
  have r3: "read_chars (length ?bs) (?f1\<lparr>in_rest := ?bs @ rest\<rparr>) = (?bs, f\<lparr>in_rest := rest\<rparr>)"
    using assms(2) by (cases f) (simp add: read_chars_def good_def)
  have "good ?f1" by (simp add: good_def)
  moreover have "?bs @ drop (length ?bs) (resize (length ?bs) temp) = ?bs"
    by (simp add: resize_def)
  ultimately have "load_loop w k temp f entries = load_loop w ?n ?bs (f\<lparr>in_rest := rest\<rparr>) (entries @ [e])"
    using parse_entry [OF assms(1)] r2 r3
    by (subst load_loop.simps) (simp only: r1 Let_def prod.case nat_int One_nat_def of_nat_less_0_iff andThen.simps not_True_eq_False if_False)
  then show ?thesis by blast
qed

lemma load_all:
  assumes "list_all (entry_ok w) es" and "good f" and "in_rest f = log_text w es"
  shows "\<exists>f'. load_loop w k temp f entries = Inr (entries @ es, f') \<and> in_eof f'"
  using assms
proof (induction es arbitrary: f k temp entries)
  case Nil
  then have "read_int k f = (k, f\<lparr>in_eof := True, in_fail := True\<rparr>)"
    by (intro read_int_end) (simp_all add: log_text_def)
  then show ?case by (subst load_loop.simps) (simp add: good_def)
next
  case (Cons e es)
  from Cons.prems have "in_rest f = entry_record w e @ log_text w es" by (simp add: log_text_def)
  with Cons.prems load_one [of e f "log_text w es" k temp entries] obtain n temp' where
    "load_loop w k temp f entries = load_loop w n temp' (f\<lparr>in_rest := log_text w es\<rparr>) (entries @ [e])"
    by auto
  moreover have "good (f\<lparr>in_rest := log_text w es\<rparr>)" using Cons.prems by (simp add: good_def)
  ultimately show ?case
    using Cons.IH [of "f\<lparr>in_rest := log_text w es\<rparr>" n temp' "entries @ [e]"] Cons.prems by simp
qed

lemma load_file:
  assumes "list_all (entry_ok w) es" and "map_find (files fs) name = Some (log_text w es)"
  shows "load_log_entry_from_file w name entries fs = Inr (0, entries @ es)"
proof -
  let ?f = "open_stream (map_find (files fs) name)"
  have "good ?f" "in_rest ?f = log_text w es"
    using assms(2) by (simp_all add: open_stream_def good_def)
  from load_all [OF assms(1) this] obtain f' where "load_loop w 0 [] ?f entries = Inr (entries @ es, f')" "in_eof f'"
    by blast
  then show ?thesis by (simp add: load_log_entry_from_file_def)
qed

lemma load_missing:
  assumes "map_find (files fs) name = None"
  shows "load_log_entry_from_file w name entries fs = Inr (1, entries)"
  using assms
  by (simp add: load_log_entry_from_file_def open_stream_def load_loop.simps [of w 0] read_int_def good_def)

end

end
