(* ===== verification/Cluster_Node_Storage.thy ===== *)
theory Cluster_Node_Storage
  imports Log_Entry_Storage
begin

text \<open>
  \<open>class ClusterNodeStorage\<close> (cluster_node_storage.hpp, cluster_node_storage.cpp): the buffer between a
  node and the files of its partition. \<open>store_log_entries_and_metadata\<close> runs in the thread of the node, and each round of the loop of
  \<open>consume_and_store_messages\<close> in the thread of the storage; the mutex makes both atomic. \<open>log_store\<close> is the contract: nothing that was
  stored is lost once the loop has run, and a restart reads a prefix of it before.
\<close>

record cluster_node_storage =
  storage_log_entry_filename :: string
  storage_metadata_file_name :: string
  log_entry_buffers :: "LogEntry list"
  metadata_buffer :: log_entry_metadata

definition LOG_ENTRY_STORAGE_PREFIX :: string where
  "LOG_ENTRY_STORAGE_PREFIX = ''storage_log_entry_''"

definition METADATA_STORAGE_PREFIX :: string where
  "METADATA_STORAGE_PREFIX = ''storage_metadata_''"

text \<open>The constructor; it leaves \<open>metadata_buffer_\<close> uninitialized, with some value \<open>garbage\<close>.\<close>

definition ClusterNodeStorage_new :: "int \<Rightarrow> int \<Rightarrow> int \<Rightarrow> cluster_node_storage" where
  "ClusterNodeStorage_new garbage partition_id node_id = \<lparr>
     storage_log_entry_filename =
       LOG_ENTRY_STORAGE_PREFIX @ to_string partition_id @ ''_'' @ to_string node_id @ ''.data'',
     storage_metadata_file_name =
       METADATA_STORAGE_PREFIX @ to_string partition_id @ ''_'' @ to_string node_id @ ''.data'',
     log_entry_buffers = [], metadata_buffer = \<lparr>last_committed = garbage\<rparr>\<rparr>"

definition storage_load_log_entry_from_file ::
  "wire \<Rightarrow> LogEntry list \<Rightarrow> cluster_node_storage \<Rightarrow> file_system \<Rightarrow> cpp_error + int \<times> LogEntry list" where
  "storage_load_log_entry_from_file w entries st fs =
     load_log_entry_from_file w (storage_log_entry_filename st) entries fs"

definition storage_load_metadata_from_file ::
  "log_entry_metadata \<Rightarrow> cluster_node_storage \<Rightarrow> file_system \<Rightarrow> int \<times> log_entry_metadata" where
  "storage_load_metadata_from_file md st fs = load_metadata_from_file (storage_metadata_file_name st) md fs"

text \<open>Iterators outside the vector make the insertion undefined.\<close>

definition store_log_entries_and_metadata ::
  "LogEntry list \<Rightarrow> int \<Rightarrow> int \<Rightarrow> log_entry_metadata \<Rightarrow> cluster_node_storage \<Rightarrow> cpp_error + cluster_node_storage" where
  "store_log_entries_and_metadata log_entries start_entry_index stop_entry_index md st =
     (if \<not> start_entry_index < stop_entry_index then Inl AssertFailed
      else if start_entry_index < 0 \<or> int (length log_entries) < stop_entry_index then Inl OutOfBounds
      else Inr (st\<lparr>log_entry_buffers := log_entry_buffers st @
                     slice (nat start_entry_index) (nat stop_entry_index) log_entries,
                   metadata_buffer := md\<rparr>))"

text \<open>One round of the loop of the storage thread.\<close>

definition consume_and_store_messages ::
  "wire \<Rightarrow> cluster_node_storage \<times> file_system \<Rightarrow> cluster_node_storage \<times> file_system" where
  "consume_and_store_messages w s =
     (case s of (st, fs) \<Rightarrow>
        let (_, fs) = append_log_entry_to_file w (storage_log_entry_filename st) (log_entry_buffers st) fs;
            (_, fs) = save_metadata_to_file (storage_metadata_file_name st) (metadata_buffer st) fs
        in (st\<lparr>log_entry_buffers := []\<rparr>, fs))"

text \<open>
  The destructor: the thread leaves its loop at the next test of \<open>cancelled_\<close>. It ends the round it is in, \<open>in_round\<close>, if it had passed the test, and writes nothing if it was asleep.
\<close>

definition ClusterNodeStorage_delete :: "wire \<Rightarrow> bool \<Rightarrow> cluster_node_storage \<times> file_system \<Rightarrow> file_system" where
  "ClusterNodeStorage_delete w in_round s = (if in_round then snd (consume_and_store_messages w s) else snd s)"

text \<open>\<open>ClusterNodeStorageMock\<close> stores nothing.\<close>

definition mock_load_log_entry_from_file :: "LogEntry list \<Rightarrow> int \<times> LogEntry list" where
  "mock_load_log_entry_from_file entries = (0, entries)"

definition mock_load_metadata_from_file :: "log_entry_metadata \<Rightarrow> int \<times> log_entry_metadata" where
  "mock_load_metadata_from_file md = (0, md)"

definition mock_store_log_entries_and_metadata :: "LogEntry list \<Rightarrow> int \<Rightarrow> int \<Rightarrow> log_entry_metadata \<Rightarrow> 's \<Rightarrow> 's" where
  "mock_store_log_entries_and_metadata entries start stop md st = st"

section \<open>The contract of a log store\<close>

datatype 'e store_op = Store "'e list" int | Flush

fun store_step :: "('e list \<Rightarrow> int \<Rightarrow> 's \<Rightarrow> 's) \<Rightarrow> ('s \<Rightarrow> 's) \<Rightarrow> 'e store_op \<Rightarrow> 's \<Rightarrow> 's" where
  "store_step store flush (Store es md) s = store es md s"
| "store_step store flush Flush s = flush s"

fun op_ok :: "('e list \<Rightarrow> bool) \<Rightarrow> 'e store_op \<Rightarrow> bool" where
  "op_ok ok (Store es md) \<longleftrightarrow> ok es \<and> in_int32 md"
| "op_ok ok Flush \<longleftrightarrow> True"

fun op_entries :: "'e store_op \<Rightarrow> 'e list" where
  "op_entries (Store es md) = es"
| "op_entries Flush = []"

locale log_store =
  fixes valid :: "'s \<Rightarrow> bool"
    and ok :: "'e list \<Rightarrow> bool"
    and stored :: "'s \<Rightarrow> 'e list"
    and durable :: "'s \<Rightarrow> 'e list"
    and meta :: "'s \<Rightarrow> int"
    and durable_meta :: "'s \<Rightarrow> int"
    and store :: "'e list \<Rightarrow> int \<Rightarrow> 's \<Rightarrow> 's"
    and flush :: "'s \<Rightarrow> 's"
  assumes store_law: "valid s \<Longrightarrow> ok es \<Longrightarrow> in_int32 md \<Longrightarrow>
      valid (store es md s) \<and> stored (store es md s) = stored s @ es \<and> durable (store es md s) = durable s \<and>
      meta (store es md s) = md"
    and flush_law: "valid s \<Longrightarrow>
      valid (flush s) \<and> stored (flush s) = stored s \<and> durable (flush s) = stored s \<and>
      meta (flush s) = meta s \<and> durable_meta (flush s) = meta s"
    and durable_prefix: "valid s \<Longrightarrow> \<exists>es. stored s = durable s @ es"
begin

lemma run_stored:
  assumes "valid s" and "list_all (op_ok ok) xs"
  shows "valid (fold (store_step store flush) xs s) \<and> stored (fold (store_step store flush) xs s) = stored s @ concat (map op_entries xs)"
  using assms
proof (induction xs arbitrary: s)
  case (Cons x xs)
  have "valid (store_step store flush x s) \<and> stored (store_step store flush x s) = stored s @ op_entries x"
    using Cons.prems store_law flush_law by (cases x) auto
  with Cons show ?case by auto
qed simp

lemma nothing_lost:
  assumes "valid s" and "list_all (op_ok ok) xs"
  shows "durable (flush (fold (store_step store flush) xs s)) = stored s @ concat (map op_entries xs)"
  using run_stored [OF assms] flush_law by simp

lemma restart_prefix:
  assumes "valid s" and "list_all (op_ok ok) xs"
  shows "\<exists>es. stored s @ concat (map op_entries xs) = durable (fold (store_step store flush) xs s) @ es"
  using run_stored [OF assms] durable_prefix by metis

end

section \<open>The storage of a node meets the contract\<close>

text \<open>What a restart would read, and what was handed to the storage.\<close>

definition durable_log :: "wire \<Rightarrow> cluster_node_storage \<times> file_system \<Rightarrow> LogEntry list" where
  "durable_log w s =
     (case storage_load_log_entry_from_file w [] (fst s) (snd s) of Inr (_, es) \<Rightarrow> es | Inl _ \<Rightarrow> [])"

definition durable_commit :: "cluster_node_storage \<times> file_system \<Rightarrow> int" where
  "durable_commit s = last_committed (snd (storage_load_metadata_from_file \<lparr>last_committed = 0\<rparr> (fst s) (snd s)))"

definition stored_log :: "wire \<Rightarrow> cluster_node_storage \<times> file_system \<Rightarrow> LogEntry list" where
  "stored_log w s = durable_log w s @ log_entry_buffers (fst s)"

text \<open>A node stores the whole of a vector of entries; the state does not change when that is an error.\<close>

definition store_all :: "LogEntry list \<Rightarrow> int \<Rightarrow> cluster_node_storage \<times> file_system \<Rightarrow> cluster_node_storage \<times> file_system" where
  "store_all es md s =
     (case store_log_entries_and_metadata es 0 (int (length es)) \<lparr>last_committed = md\<rparr> (fst s) of
        Inr st \<Rightarrow> (st, snd s) | Inl _ \<Rightarrow> s)"

definition storable :: "wire \<Rightarrow> LogEntry list \<Rightarrow> bool" where
  "storable w es \<longleftrightarrow> es \<noteq> [] \<and> list_all (entry_ok w) es"

text \<open>The log file is missing or holds entries, and both files can be written.\<close>

fun storage_valid :: "wire \<Rightarrow> cluster_node_storage \<times> file_system \<Rightarrow> bool" where
  "storage_valid w (st, fs) \<longleftrightarrow>
     (\<exists>es. list_all (entry_ok w) es \<and>
        (map_find (files fs) (storage_log_entry_filename st) = Some (log_text w es) \<or>
         map_find (files fs) (storage_log_entry_filename st) = None \<and> es = [])) \<and>
     list_all (entry_ok w) (log_entry_buffers st) \<and> in_int32 (last_committed (metadata_buffer st)) \<and>
     writable fs (storage_log_entry_filename st) \<and> writable fs (storage_metadata_file_name st) \<and>
     storage_metadata_file_name st \<noteq> storage_log_entry_filename st"

lemma file_names_differ:
  "storage_metadata_file_name (ClusterNodeStorage_new g p n) \<noteq> storage_log_entry_filename (ClusterNodeStorage_new g p n)"
  by (simp add: ClusterNodeStorage_new_def LOG_ENTRY_STORAGE_PREFIX_def METADATA_STORAGE_PREFIX_def)

context wire_format
begin

lemma durable_log_file:
  assumes "list_all (entry_ok w) es"
    and "map_find (files fs) (storage_log_entry_filename st) = Some (log_text w es) \<or>
         map_find (files fs) (storage_log_entry_filename st) = None \<and> es = []"
  shows "durable_log w (st, fs) = es"
  using assms load_file [OF assms(1), of fs "storage_log_entry_filename st" "[]"]
    load_missing [of fs "storage_log_entry_filename st" "[]"]
  by (auto simp: durable_log_def storage_load_log_entry_from_file_def)

lemma durable_log_ok:
  assumes "storage_valid w (st, fs)"
  shows "list_all (entry_ok w) (durable_log w (st, fs))"
proof -
  from assms obtain es where es: "list_all (entry_ok w) es" "map_find (files fs) (storage_log_entry_filename st) = Some (log_text w es) \<or>
      map_find (files fs) (storage_log_entry_filename st) = None \<and> es = []"
    by auto
  with durable_log_file [OF es] show ?thesis by simp
qed

lemma store_all_law:
  assumes "storage_valid w s" and "storable w es" and "in_int32 md"
  shows "storage_valid w (store_all es md s) \<and> stored_log w (store_all es md s) = stored_log w s @ es \<and>
    durable_log w (store_all es md s) = durable_log w s \<and> last_committed (metadata_buffer (fst (store_all es md s))) = md"
proof -
  obtain st fs where s: "s = (st, fs)" by (cases s)
  have "store_all es md s =
      (st\<lparr>log_entry_buffers := log_entry_buffers st @ es, metadata_buffer := \<lparr>last_committed = md\<rparr>\<rparr>, fs)"
    using assms(2) by (simp add: s store_all_def store_log_entries_and_metadata_def storable_def slice_def)
  with assms s show ?thesis
    by (simp add: stored_log_def durable_log_def storage_load_log_entry_from_file_def storable_def)
qed

lemma flush_file:
  assumes "storage_valid w (st, fs)"
  shows "\<exists>fs'. consume_and_store_messages w (st, fs) = (st\<lparr>log_entry_buffers := []\<rparr>, fs') \<and> writable fs' = writable fs \<and>
    map_find (files fs') (storage_log_entry_filename st) = Some (log_text w (stored_log w (st, fs))) \<and>
    map_find (files fs') (storage_metadata_file_name st) = Some (metadata_serialize (metadata_buffer st) @ '' '')"
proof -
  from assms obtain es where es: "list_all (entry_ok w) es" "map_find (files fs) (storage_log_entry_filename st) = Some (log_text w es) \<or>
      map_find (files fs) (storage_log_entry_filename st) = None \<and> es = []"
    by auto
  then have "log_text w (stored_log w (st, fs)) =
      opt_get [] (map_find (files fs) (storage_log_entry_filename st)) @ log_text w (log_entry_buffers st)"
    using durable_log_file [OF es] by (auto simp: stored_log_def log_text_append) (simp_all add: log_text_def)
  with assms show ?thesis
    by (auto simp: consume_and_store_messages_def append_log_entry_to_file_def append_file_def
        save_metadata_to_file_def overwrite_file_def result_of_def log_text_def)
qed

lemma flush_law_storage:
  assumes "storage_valid w s"
  shows "storage_valid w (consume_and_store_messages w s) \<and>
    stored_log w (consume_and_store_messages w s) = stored_log w s \<and>
    durable_log w (consume_and_store_messages w s) = stored_log w s \<and>
    last_committed (metadata_buffer (fst (consume_and_store_messages w s))) = last_committed (metadata_buffer (fst s)) \<and>
    durable_commit (consume_and_store_messages w s) = last_committed (metadata_buffer (fst s))"
proof -
  obtain st fs where s: "s = (st, fs)" by (cases s)
  from flush_file [of st fs] assms s obtain fs' where
    f: "consume_and_store_messages w s = (st\<lparr>log_entry_buffers := []\<rparr>, fs')" "writable fs' = writable fs"
      "map_find (files fs') (storage_log_entry_filename st) = Some (log_text w (stored_log w s))"
      "map_find (files fs') (storage_metadata_file_name st) = Some (metadata_serialize (metadata_buffer st) @ '' '')"
    by auto
  from assms s have "list_all (entry_ok w) (stored_log w s)"
    using durable_log_ok [of st fs] by (simp add: stored_log_def)
  moreover from this f have dur: "durable_log w (consume_and_store_messages w s) = stored_log w s"
    by (simp add: durable_log_file)
  moreover have "durable_commit (consume_and_store_messages w s) = last_committed (metadata_buffer st)"
    using f assms s load_metadata_saved [OF f(4)]
    by (simp add: durable_commit_def storage_load_metadata_from_file_def)
  moreover from calculation have "storage_valid w (consume_and_store_messages w s)"
    unfolding f(1) using f assms s by auto
  ultimately show ?thesis
    using f s by (simp add: stored_log_def)
qed

end

sublocale wire_format \<subseteq> storage: log_store "storage_valid w" "storable w" "stored_log w" "durable_log w"
  "\<lambda>s. last_committed (metadata_buffer (fst s))" durable_commit store_all "consume_and_store_messages w"
  by unfold_locales (rule store_all_law, assumption+, rule flush_law_storage, assumption, simp add: stored_log_def)

context wire_format
begin

lemmas storage_nothing_lost = storage.nothing_lost
lemmas storage_run_stored = storage.run_stored
lemmas storage_restart_prefix = storage.restart_prefix

end

section \<open>Properties of the storage\<close>

text \<open>A new storage of partition 0 and node 1 over an empty disk.\<close>

definition empty_disk :: file_system where
  "empty_disk = \<lparr>files = [], writable = (\<lambda>_. True)\<rparr>"

lemma new_storage_valid: "in_int32 garbage \<Longrightarrow> storage_valid w (ClusterNodeStorage_new garbage p n, empty_disk)"
  using file_names_differ [of garbage p n] by (simp add: ClusterNodeStorage_new_def empty_disk_def)

lemma sample_storable: "storable varint_wire [sample_entry]"
  using sample_entry_size
  by (simp add: storable_def entry_ok_def LogEntry_fits_def opt_all_def sample_entry_def LogEntry_new_def LogEntry_ADD_def
      in_int32_def in_int64_def)



text \<open>
  A crash between rounds of the storage thread loses only a suffix: what a restart loads is always a prefix of what was stored.
\<close>

lemma restart_loads_prefix:
  assumes "wire_format w" and "storage_valid w s" and "list_all (op_ok (storable w)) xs"
  shows "\<exists>lost. durable_log w s @ log_entry_buffers (fst s) @ concat (map op_entries xs) =
    durable_log w (fold (store_step store_all (consume_and_store_messages w)) xs s) @ lost"
  using wire_format.storage_restart_prefix [OF assms] by (simp add: stored_log_def)

text \<open>
  C27: entries written to a log file are read back unchanged and in order, also when further entries are appended to the file.
\<close>

theorem log_file_roundtrip:
  assumes "wire_format w" and "list_all (entry_ok w) xs" and "list_all (entry_ok w) ys" and "writable fs name"
  shows "let (r1, fs1) = save_log_entry_to_file w name xs fs; (r2, fs2) = append_log_entry_to_file w name ys fs1
    in r1 = 0 \<and> r2 = 0 \<and> load_log_entry_from_file w name entries fs2 = Inr (0, entries @ xs @ ys)"
  using assms wire_format.load_file [OF assms(1), of "xs @ ys"]
  by (simp add: save_log_entry_to_file_def append_log_entry_to_file_def overwrite_file_def append_file_def result_of_def
      log_text_def)

theorem log_file_roundtrip_witness:
  "load_log_entry_from_file varint_wire ''f'' []
     (snd (append_log_entry_to_file varint_wire ''f'' [sample_entry]
        (snd (save_log_entry_to_file varint_wire ''f'' [sample_entry, sample_entry] empty_disk)))) =
   Inr (0, [sample_entry, sample_entry, sample_entry])"
  using log_file_roundtrip [OF varint.wire_format_axioms, of "[sample_entry, sample_entry]" "[sample_entry]" empty_disk "''f''" "[]"]
    sample_storable by (simp add: storable_def empty_disk_def case_prod_beta Let_def)

text \<open>
  A round of the storage thread before the first store replaces the commit index on disk by the uninitialized value of
  \<open>metadata_buffer_\<close>: a restarted server forgets its commit index.
\<close>

lemma first_round_overwrites_metadata:
  assumes "in_int32 garbage" and "writable fs (storage_metadata_file_name (ClusterNodeStorage_new garbage p n))"
  shows "durable_commit (consume_and_store_messages w (ClusterNodeStorage_new garbage p n, fs)) = garbage"
proof -
  let ?st = "ClusterNodeStorage_new garbage p n"
  have w: "writable (snd (append_log_entry_to_file w name es fs)) = writable fs" for name es
    by (simp add: append_log_entry_to_file_def append_file_def result_of_def)
  have "map_find (files (snd (consume_and_store_messages w (?st, fs)))) (storage_metadata_file_name ?st) =
      Some (metadata_serialize \<lparr>last_committed = garbage\<rparr> @ '' '')"
    using assms(2) w
    by (simp add: consume_and_store_messages_def save_metadata_to_file_def overwrite_file_def result_of_def case_prod_beta)
      (simp add: ClusterNodeStorage_new_def)
  from load_metadata_saved [OF this] assms(1)
  show ?thesis
    by (simp add: durable_commit_def storage_load_metadata_from_file_def consume_and_store_messages_def case_prod_beta)
qed

text \<open>
  A clean shutdown is no better than a crash: what was stored since the last round reaches the file only if the thread happens to be in a round, and a thread that is asleep drops it.
\<close>

lemma shutdown_loses_buffer:
  assumes "wire_format w" and "storage_valid w (st, fs)"
  shows "durable_log w (st, ClusterNodeStorage_delete w in_round (st, fs)) = durable_log w (st, fs) @ (if in_round then log_entry_buffers st else [])"
proof -
  have "durable_log w (consume_and_store_messages w (st, fs)) = durable_log w (st, fs) @ log_entry_buffers st"
    using wire_format.flush_law_storage [OF assms] by (simp add: stored_log_def)
  moreover have "durable_log w (consume_and_store_messages w (st, fs)) = durable_log w (st, snd (consume_and_store_messages w (st, fs)))"
    by (simp add: durable_log_def storage_load_log_entry_from_file_def consume_and_store_messages_def case_prod_beta)
  ultimately show ?thesis by (simp add: ClusterNodeStorage_delete_def)
qed

end
