(* ===== verification/Configuration.thy ===== *)
theory Configuration
  imports Decimal
begin

text \<open>
  \<open>ServerConfigurationLoader\<close> (configuration.hpp, configuration.cpp): reading the configuration file of a server, line by line, and
  the lookup of the address of a node in it (\<open>ClusterMaster::get_address_for_node\<close>). The input stream is the text of the file.
\<close>

type_synonym server_point = "int \<times> string \<times> string \<times> string"

record server_configuration =
  current_node :: int
  server_nodes :: "server_point list"
  partitions_ids :: "partition_id_type list"

section \<open>Lines, keys and values\<close>

text \<open>The lines that \<open>std::getline\<close> yields: a newline at the end of the text does not start another line.\<close>

function getlines :: "string \<Rightarrow> string list" where
  "getlines [] = []"
| "getlines (c # s) =
     takeWhile (\<lambda>c. c \<noteq> CHR 0x0A) (c # s) # getlines (tl (dropWhile (\<lambda>c. c \<noteq> CHR 0x0A) (c # s)))"
  by pat_completeness auto

termination
proof (relation "measure length", simp)
  fix c and s :: string
  have "length (dropWhile (\<lambda>c. c \<noteq> CHR 0x0A) (c # s)) \<le> Suc (length s)"
    using length_dropWhile_le [of "\<lambda>c. c \<noteq> CHR 0x0A" "c # s"] by simp
  then show "(tl (dropWhile (\<lambda>c. c \<noteq> CHR 0x0A) (c # s)), c # s) \<in> measure length"
    by (simp only: in_measure length_tl) simp
qed

text \<open>\<open>str.substr(start, ...)\<close> throws when there is nothing but spaces.\<close>

definition strip :: "string \<Rightarrow> cpp_error + string" where
  "strip str =
     (if list_all (\<lambda>c. c = CHR '' '') str then Inl OutOfRange
      else Inr (rev (dropWhile (\<lambda>c. c = CHR '' '') (rev (dropWhile (\<lambda>c. c = CHR '' '') str)))))"

definition get_key_value :: "string \<Rightarrow> cpp_error + (string \<times> string) option" where
  "get_key_value line =
     (if CHR ''='' \<notin> set line then Inr None
      else andThen (strip (takeWhile (\<lambda>c. c \<noteq> CHR ''='') line)) (\<lambda>key.
           andThen (strip (tl (dropWhile (\<lambda>c. c \<noteq> CHR ''='') line))) (\<lambda>val.
             Inr (if key \<noteq> [] \<and> val \<noteq> [] then Some (key, val) else None))))"

section \<open>The loader\<close>

text \<open>The local variables of \<open>load_config\<close>: the configuration so far and the fields of the node being read.\<close>

record load_state =
  config :: server_configuration
  ls_id :: string
  ls_host :: string
  ls_cluster_port :: string
  ls_client_port :: string

definition set_key :: "string \<Rightarrow> string \<Rightarrow> load_state \<Rightarrow> cpp_error + load_state" where
  "set_key key val s =
     (if key = ''current_node'' then andThen (stoi val) (\<lambda>v. Inr (s\<lparr>config := (config s)\<lparr>current_node := v\<rparr>\<rparr>))
      else if key = ''id'' then Inr (s\<lparr>ls_id := val\<rparr>)
      else if key = ''host'' then Inr (s\<lparr>ls_host := val\<rparr>)
      else if key = ''cluster_port'' then Inr (s\<lparr>ls_cluster_port := val\<rparr>)
      else if key = ''client_port'' then Inr (s\<lparr>ls_client_port := val\<rparr>)
      else if key = ''partition_id''
      then andThen (stoll val) (\<lambda>v. Inr (s\<lparr>config := (config s)\<lparr>partitions_ids := partitions_ids (config s) @ [v]\<rparr>\<rparr>))
      else Inl LogicError)"

definition complete_node :: "load_state \<Rightarrow> cpp_error + load_state" where
  "complete_node s =
     (if ls_id s \<noteq> [] \<and> ls_host s \<noteq> [] \<and> ls_cluster_port s \<noteq> [] \<and> ls_client_port s \<noteq> []
      then andThen (stoi (ls_id s)) (\<lambda>v.
        Inr (s\<lparr>config := (config s)\<lparr>server_nodes := server_nodes (config s) @
                   [(v, ls_host s, ls_cluster_port s, ls_client_port s)]\<rparr>,
               ls_id := [], ls_host := [], ls_cluster_port := [], ls_client_port := []\<rparr>))
      else Inr s)"

definition load_line :: "string \<Rightarrow> load_state \<Rightarrow> cpp_error + load_state" where
  "load_line line s =
     (if line = [] \<or> hd line = CHR ''#'' then Inr s
      else andThen (get_key_value line) (\<lambda>kv.
        case kv of None \<Rightarrow> Inr s | Some (key, val) \<Rightarrow> andThen (set_key key val s) complete_node))"

text \<open>\<open>current_node\<close> is uninitialized until the file sets it: its value is the parameter \<open>garbage\<close>.\<close>

definition load_config :: "int \<Rightarrow> string \<Rightarrow> cpp_error + server_configuration" where
  "load_config garbage in_stream =
     andThen (forEach load_line (getlines in_stream)
        \<lparr>config = \<lparr>current_node = garbage, server_nodes = [], partitions_ids = []\<rparr>,
         ls_id = [], ls_host = [], ls_cluster_port = [], ls_client_port = []\<rparr>)
       (\<lambda>s. Inr (config s))"

fun find_address :: "server_point list \<Rightarrow> int \<Rightarrow> string \<times> string" where
  "find_address [] node_id = ([], [])"
| "find_address ((n, host, cluster_port, client_port) # ps) node_id =
     (if n = node_id then (host, client_port) else find_address ps node_id)"

definition get_address_for_node :: "server_configuration \<Rightarrow> int \<Rightarrow> string \<times> string" where
  "get_address_for_node cfg node_id = find_address (server_nodes cfg) node_id"

section \<open>Printing a configuration\<close>

text \<open>The layout of the example in configuration.hpp.\<close>

definition print_key :: "string \<Rightarrow> string \<Rightarrow> string" where
  "print_key key val = key @ '' = '' @ val @ [CHR 0x0A]"

fun print_node :: "server_point \<Rightarrow> string" where
  "print_node (n, host, cluster_port, client_port) =
     print_key ''id'' (to_string n) @ print_key ''host'' host @ print_key ''cluster_port'' cluster_port @
     print_key ''client_port'' client_port"

definition print_config :: "server_configuration \<Rightarrow> string" where
  "print_config cfg =
     print_key ''current_node'' (to_string (current_node cfg)) @
     concat (map print_node (server_nodes cfg)) @
     concat (map (\<lambda>p. print_key ''partition_id'' (to_string p)) (partitions_ids cfg))"

text \<open>A value that the format can carry: not empty, on one line, and without a space at either end.\<close>

definition value_ok :: "string \<Rightarrow> bool" where
  "value_ok v \<longleftrightarrow> v \<noteq> [] \<and> hd v \<noteq> CHR '' '' \<and> last v \<noteq> CHR '' '' \<and> CHR 0x0A \<notin> set v"

fun node_ok :: "server_point \<Rightarrow> bool" where
  "node_ok (n, host, cluster_port, client_port) \<longleftrightarrow>
     in_int32 n \<and> value_ok host \<and> value_ok cluster_port \<and> value_ok client_port"

definition config_ok :: "server_configuration \<Rightarrow> bool" where
  "config_ok cfg \<longleftrightarrow> in_int32 (current_node cfg) \<and> list_all node_ok (server_nodes cfg) \<and> list_all in_int64 (partitions_ids cfg)"

lemma getlines_line:
  assumes "CHR 0x0A \<notin> set line"
  shows "getlines (line @ CHR 0x0A # s) = line # getlines s"
proof -
  have "takeWhile (\<lambda>c. c \<noteq> CHR 0x0A) (line @ CHR 0x0A # s) = line"
    and "dropWhile (\<lambda>c. c \<noteq> CHR 0x0A) (line @ CHR 0x0A # s) = CHR 0x0A # s"
    using assms by (subst takeWhile_append2; auto) (subst dropWhile_append2; use assms in auto)
  then show ?thesis by (cases line) auto
qed

lemma strip_padded:
  assumes "value_ok v" and "set pre \<subseteq> {CHR '' ''}" and "set post \<subseteq> {CHR '' ''}"
  shows "strip (pre @ v @ post) = Inr v"
proof -
  let ?sp = "\<lambda>c. c = CHR '' ''"
  obtain c v' where v: "v = c # v'" "c \<noteq> CHR '' ''" using assms(1) by (cases v) (auto simp: value_ok_def)
  have "dropWhile ?sp (pre @ v @ post) = v @ post"
    using v assms(2) by (subst dropWhile_append2) auto
  moreover have "dropWhile ?sp (rev post @ rev v) = rev v"
  proof -
    have "dropWhile ?sp (rev post @ rev v) = dropWhile ?sp (rev v)" using assms(3) by (subst dropWhile_append2) auto
    also have "\<dots> = rev v" using assms(1) by (cases "rev v") (auto simp: value_ok_def last_rev hd_rev simp flip: hd_rev)
    finally show ?thesis .
  qed
  ultimately show ?thesis using v by (auto simp: strip_def)
qed

lemma to_string_value: "value_ok (to_string v)"
proof -
  have "list_all is_digit (digits_of n)" for n by (rule digits_of_digit)
  then have d: "c \<in> set (digits_of n) \<Longrightarrow> c \<noteq> CHR '' '' \<and> c \<noteq> CHR 0x0A" for c n
    by (fastforce simp: list_all_iff is_digit_def)
  then have "CHR '' '' \<notin> set (to_string v) \<and> CHR 0x0A \<notin> set (to_string v)"
    by (auto simp: to_string_def)
  moreover have "to_string v \<noteq> []" by (simp add: to_string_def)
  ultimately show ?thesis
    unfolding value_ok_def by (metis hd_in_set last_in_set)
qed

text \<open>The keys of the format: they name a field, so they have no space, \<open>=\<close>, \<open>#\<close> or newline.\<close>

definition key_ok :: "string \<Rightarrow> bool" where
  "key_ok k \<longleftrightarrow> value_ok k \<and> CHR ''='' \<notin> set k \<and> hd k \<noteq> CHR ''#''"

lemma get_key_value_printed:
  assumes "key_ok k" and "value_ok v"
  shows "get_key_value (k @ '' = '' @ v) = Inr (Some (k, v))"
proof -
  have take: "takeWhile (\<lambda>c. c \<noteq> CHR ''='') (k @ '' = '' @ v) = k @ '' ''"
    using assms(1) by (subst takeWhile_append2) (auto simp: key_ok_def)
  have drop: "dropWhile (\<lambda>c. c \<noteq> CHR ''='') (k @ '' = '' @ v) = ''= '' @ v"
    using assms(1) by (subst dropWhile_append2) (auto simp: key_ok_def)
  have "strip (k @ '' '') = Inr k" using strip_padded [of k "[]" "'' ''"] assms by (simp add: key_ok_def)
  moreover have "strip ('' '' @ v) = Inr v" using strip_padded [of v "'' ''" "[]"] assms by simp
  moreover have "k \<noteq> []" "v \<noteq> []" using assms by (auto simp: key_ok_def value_ok_def)
  ultimately show ?thesis unfolding get_key_value_def take drop by simp
qed

lemma forEach_line:
  assumes "key_ok k" and "value_ok v"
  shows "forEach load_line (getlines (print_key k v @ rest)) s =
    andThen (andThen (set_key k v s) complete_node) (forEach load_line (getlines rest))"
proof -
  have "CHR 0x0A \<notin> set (k @ '' = '' @ v)" using assms by (auto simp: key_ok_def value_ok_def)
  from getlines_line [OF this, of rest]
  have "getlines (print_key k v @ rest) = (k @ '' = '' @ v) # getlines rest" by (simp add: print_key_def)
  moreover have "load_line (k @ '' = '' @ v) s = andThen (set_key k v s) complete_node"
    using assms get_key_value_printed [OF assms] by (auto simp: load_line_def key_ok_def value_ok_def)
  ultimately show ?thesis by simp
qed

lemma keys_ok [simp]:
  "key_ok ''current_node''" "key_ok ''id''" "key_ok ''host''" "key_ok ''cluster_port''" "key_ok ''client_port''"
  "key_ok ''partition_id''"
  by (simp_all add: key_ok_def value_ok_def)

definition between_nodes :: "load_state \<Rightarrow> bool" where
  "between_nodes s \<longleftrightarrow> ls_id s = [] \<and> ls_host s = [] \<and> ls_cluster_port s = [] \<and> ls_client_port s = []"

lemma load_node:
  assumes "node_ok p" and "between_nodes s"
  shows "forEach load_line (getlines (print_node p @ rest)) s =
    forEach load_line (getlines rest) (s\<lparr>config := (config s)\<lparr>server_nodes := server_nodes (config s) @ [p]\<rparr>\<rparr>)"
proof -
  obtain n host cluster client where p: "p = (n, host, cluster, client)" by (cases p)
  have "to_string n \<noteq> []" by (simp add: to_string_def)
  moreover have "host \<noteq> []" "cluster \<noteq> []" "client \<noteq> []" using assms(1) p by (auto simp: value_ok_def)
  ultimately show ?thesis
    using assms p by (cases s) (simp add: forEach_line to_string_value set_key_def complete_node_def between_nodes_def stoi_to_string)
qed

lemma load_nodes:
  assumes "list_all node_ok ps" and "between_nodes s"
  shows "forEach load_line (getlines (concat (map print_node ps) @ rest)) s =
    forEach load_line (getlines rest) (s\<lparr>config := (config s)\<lparr>server_nodes := server_nodes (config s) @ ps\<rparr>\<rparr>)"
  using assms
proof (induction ps arbitrary: s)
  case (Cons p ps)
  have "between_nodes (s\<lparr>config := c\<rparr>)" for c using Cons.prems by (simp add: between_nodes_def)
  with Cons show ?case by (simp add: load_node)
qed simp

lemma load_partitions:
  assumes "list_all in_int64 ps" and "between_nodes s"
  shows "forEach load_line (getlines (concat (map (\<lambda>p. print_key ''partition_id'' (to_string p)) ps))) s =
    Inr (s\<lparr>config := (config s)\<lparr>partitions_ids := partitions_ids (config s) @ ps\<rparr>\<rparr>)"
  using assms
proof (induction ps arbitrary: s)
  case (Cons p ps)
  have b: "between_nodes (s\<lparr>config := c\<rparr>)" for c using Cons.prems by (simp add: between_nodes_def)
  have "forEach load_line (getlines (print_key ''partition_id'' (to_string p) @ rest)) s =
      forEach load_line (getlines rest) (s\<lparr>config := (config s)\<lparr>partitions_ids := partitions_ids (config s) @ [p]\<rparr>\<rparr>)" for rest
    using Cons.prems by (simp add: forEach_line to_string_value set_key_def stoll_to_string complete_node_def between_nodes_def)
  with Cons b show ?case by simp
qed simp

section \<open>Properties of the configuration\<close>

lemma load_printed_config:
  assumes "config_ok cfg"
  shows "load_config garbage (print_config cfg) = Inr cfg"
proof -
  let ?s = "\<lparr>config = \<lparr>current_node = current_node cfg, server_nodes = [], partitions_ids = []\<rparr>,
         ls_id = [], ls_host = [], ls_cluster_port = [], ls_client_port = []\<rparr>"
  have "between_nodes ?s" by (simp add: between_nodes_def)
  with assms show ?thesis
    by (cases cfg)
      (simp add: load_config_def print_config_def forEach_line to_string_value set_key_def stoi_to_string complete_node_def
        config_ok_def load_nodes load_partitions between_nodes_def)
qed

text \<open>
  C28: a configuration printed in the documented format is loaded back as it was: the nodes in their order with their addresses, the
  partitions and the current node.
\<close>

theorem config_roundtrip:
  assumes "config_ok cfg"
  shows "load_config garbage (print_config cfg) = Inr cfg"
  using assms by (rule load_printed_config)

definition sample_config :: server_configuration where
  "sample_config = \<lparr>current_node = 1,
     server_nodes = [(0, ''localhost'', ''12'', ''9000''), (1, ''localhost'', ''13'', ''9001'')], partitions_ids = [0, 5]\<rparr>"

theorem config_roundtrip_witness: "load_config 77 (print_config sample_config) = Inr sample_config"
  by (rule config_roundtrip) (simp add: sample_config_def config_ok_def value_ok_def in_int32_def in_int64_def)

text \<open>
  The address that a client is redirected to is the host and client port of the first configured node with that id, and a pair of
  empty strings when there is none.
\<close>

lemma address_of_first_node:
  "get_address_for_node cfg n =
     (case filter (\<lambda>p. fst p = n) (server_nodes cfg) of
        [] \<Rightarrow> ([], []) | (k, host, cluster_port, client_port) # _ \<Rightarrow> (host, client_port))"
proof -
  have "find_address ps n = (case filter (\<lambda>p. fst p = n) ps of
      [] \<Rightarrow> ([], []) | (k, host, cluster_port, client_port) # _ \<Rightarrow> (host, client_port))" for ps
    by (induction ps n rule: find_address.induct) auto
  then show ?thesis by (simp add: get_address_for_node_def)
qed

text \<open>
  A line with a key and a blank value stops the loader with an exception: \<open>strip\<close> does not return the empty string that
  \<open>get_key_value\<close> tests for.
\<close>

lemma blank_value_throws:
  assumes "key_ok k"
  shows "load_config garbage (print_key k [] @ rest) = Inl OutOfRange"
proof -
  have line: "CHR 0x0A \<notin> set (k @ '' = '')" using assms by (auto simp: key_ok_def value_ok_def)
  have "takeWhile (\<lambda>c. c \<noteq> CHR ''='') (k @ '' = '') = k @ '' ''" "dropWhile (\<lambda>c. c \<noteq> CHR ''='') (k @ '' = '') = ''= ''"
    using assms by (subst takeWhile_append2; auto simp: key_ok_def) (subst dropWhile_append2; use assms in \<open>auto simp: key_ok_def\<close>)
  moreover have "strip (k @ '' '') = Inr k" using strip_padded [of k "[]" "'' ''"] assms by (simp add: key_ok_def)
  ultimately have "get_key_value (k @ '' = '') = Inl OutOfRange"
    by (simp add: get_key_value_def strip_def)
  moreover have "k \<noteq> []" "hd k \<noteq> CHR ''#''" using assms by (auto simp: key_ok_def value_ok_def)
  ultimately show ?thesis
    using getlines_line [OF line, of rest] by (simp add: load_config_def print_key_def load_line_def)
qed

end
