(* ===== verification/Cluster_Node.thy ===== *)
theory Cluster_Node
  imports Message_Queue Client_Manager Cluster_Node_Storage Configuration
begin

text \<open>
  \<open>class ClusterNode\<close> (cluster_node.hpp, cluster_node.cpp): the Raft node of one partition. Its members are the record
  \<open>cluster_node\<close>; a \<open>world\<close> is a node with what it acts on: the client manager of its server, the messages it handed to the cluster manager,
  and the election timers that are running. Every handler is a function from a world to a world or to the error that stops the process; all of them run in
  the \<open>io_context\<close> thread of the node, one at a time. What a handler reads from outside (the library of the wire format, the
  configuration, the clock, the random generator) is the environment \<open>node_env\<close>.

  The list \<open>sent\<close> holds the \<open>RaftMessage\<close> that each written buffer encodes; the buffer itself is computed, since serializing a message that is
  too long stops the process.
\<close>

datatype node_state = LEADER | FOLLOWER | CANDIDATE

record cluster_node_config =
  cfg_partition_id :: partition_id_type
  cfg_node_id :: int
  cfg_total_nodes :: int

record cluster_node =
  partition_id :: partition_id_type
  node_id :: int
  total_nodes :: int
  state :: node_state
  cur_term :: int
  cur_leader :: int
  last_heart_beat_received :: int
  votes_collected :: int
  voted_for :: int
  log_entries :: "LogEntry list"
  commit_index :: int
  last_applied :: int
  next_index :: "(int, int) smap"
  matched_index :: "(int, int) smap"
  pending_append_reqs :: "(int, int) smap"
  node_storage :: cluster_node_storage
  queue :: message_queue

datatype destination = ToNode int | ToAll

record world =
  node :: cluster_node
  clients :: "raft_message client_manager"
  sent :: "(destination \<times> raft_message) list"
  vote_timers :: nat

record node_env =
  env_wire :: wire
  server_config :: server_configuration
  now :: int
  random_id :: int

definition HEARTBEAT_EXPIRE_SECONDS :: int where
  "HEARTBEAT_EXPIRE_SECONDS = 3"

definition MAX_PENDING_APPEND :: int where
  "MAX_PENDING_APPEND = 2"

definition update_node :: "(cluster_node \<Rightarrow> cluster_node) \<Rightarrow> world \<Rightarrow> world" where
  "update_node f s = s\<lparr>node := f (node s)\<rparr>"

section \<open>Sending\<close>

text \<open>\<open>serialize_raft_message\<close>: the message with the partition set, and its buffer.\<close>

definition serialize_raft_message :: "wire \<Rightarrow> cluster_node \<Rightarrow> raft_message \<Rightarrow> cpp_error + raft_message \<times> message" where
  "serialize_raft_message w n raft_message =
     (let raft_message = set_partition_id (partition_id n) raft_message
      in andThen (serialize_to_message w raft_message Message_new) (\<lambda>msg. Inr (raft_message, msg)))"

text \<open>\<open>cluster_manager()->write_message(endpoint_id, ...)\<close> and \<open>cluster_manager()->broad_cast(...)\<close>.\<close>

definition post_message :: "node_env \<Rightarrow> destination \<Rightarrow> raft_message \<Rightarrow> world \<Rightarrow> cpp_error + world" where
  "post_message env dest msg s =
     andThen (serialize_raft_message (env_wire env) (node s) msg) (\<lambda>(msg, buf). Inr (s\<lparr>sent := sent s @ [(dest, msg)]\<rparr>))"

definition append_request :: "int \<Rightarrow> int \<Rightarrow> int \<Rightarrow> int \<Rightarrow> LogEntry list \<Rightarrow> int \<Rightarrow> raft_message" where
  "append_request term leader prev_index prev_term entries leader_commit =
     loadAppendEntriesRequest (AppendEntriesRequest_new\<lparr>aeq_term_fld := Some term, aeq_leader_id_fld := Some leader,
       aeq_prev_log_index_fld := Some prev_index, aeq_prev_log_term_fld := Some prev_term, aeq_entries := entries,
       aeq_leader_commit_fld := Some leader_commit\<rparr>) RaftMessage_new"

definition append_response :: "int \<Rightarrow> int \<Rightarrow> int \<Rightarrow> int \<Rightarrow> raft_message" where
  "append_response term follower success last_index =
     loadAppendEntriesResponse (AppendEntriesResponse_new\<lparr>aes_term_fld := Some term, aes_follower_id_fld := Some follower,
       aes_append_result_success_fld := Some success, aes_last_index_synced_fld := Some last_index\<rparr>) RaftMessage_new"

definition vote_request :: "int \<Rightarrow> int \<Rightarrow> int \<Rightarrow> int \<Rightarrow> raft_message" where
  "vote_request term candidate last_index last_term =
     loadVoteRequest (RequestVoteRequest_new\<lparr>rvq_term_fld := Some term, rvq_candidate_id_fld := Some candidate,
       rvq_last_log_index_fld := Some last_index, rvq_last_log_term_fld := Some last_term\<rparr>) RaftMessage_new"

definition vote_response :: "int \<Rightarrow> int \<Rightarrow> raft_message" where
  "vote_response term granted =
     loadVoteResult (RequestVoteResponse_new\<lparr>rvs_term_fld := Some term, rvs_vote_result_term_granted_fld := Some granted\<rparr>)
       RaftMessage_new"

definition open_queue_response :: "int \<Rightarrow> string \<Rightarrow> (string \<times> string) option \<Rightarrow> raft_message" where
  "open_queue_response status error_message leader_address =
     loadClientOpenQueueResponse (ClientOpenQueueResponse_new\<lparr>cor_status_fld := Some status,
       cor_error_message_fld := Some error_message, cor_leader_ip_fld := map_option fst leader_address,
       cor_leader_port_fld := map_option snd leader_address\<rparr>) RaftMessage_new"

definition server_send :: "message_id_type \<Rightarrow> string \<Rightarrow> raft_message" where
  "server_send message_id message =
     loadServerSendMessageRequest (ServerSendMessage_new\<lparr>ssm_message_id_fld := Some message_id, ssm_message_fld := Some message\<rparr>)
       RaftMessage_new"

definition log_entry :: "int \<Rightarrow> int \<Rightarrow> message_id_type \<Rightarrow> int \<Rightarrow> string \<Rightarrow> LogEntry" where
  "log_entry index term message_id operation message =
     LogEntry_new\<lparr>le_index_fld := Some index, le_term_fld := Some term, le_message_id_fld := Some message_id,
       le_operation_fld := Some operation, le_message_fld := Some message\<rparr>"

section \<open>The log\<close>

text \<open>\<open>log_entries_[i]\<close> outside the vector is undefined.\<close>

definition log_at :: "LogEntry list \<Rightarrow> int \<Rightarrow> cpp_error + LogEntry" where
  "log_at log i = (if 0 \<le> i \<and> i < int (length log) then Inr (log ! nat i) else Inl OutOfBounds)"

definition log_back :: "LogEntry list \<Rightarrow> cpp_error + LogEntry" where
  "log_back log = (if log = [] then Inl OutOfBounds else Inr (last log))"

definition check_if_previous_log_in_sync :: "int \<Rightarrow> int \<Rightarrow> LogEntry list \<Rightarrow> cpp_error + bool" where
  "check_if_previous_log_in_sync prev_log_term prev_log_index log =
     (if int (length log) < prev_log_index + 1 then Inr False
      else andThen (log_at log prev_log_index) (\<lambda>e. Inr (le_term e = prev_log_term)))"

text \<open>Only called with a position inside the log, where \<open>erase\<close> is defined.\<close>

definition clean_log_entries_out_of_sync :: "int \<Rightarrow> LogEntry list \<Rightarrow> LogEntry list" where
  "clean_log_entries_out_of_sync index_to_remove log = take (nat index_to_remove) log"

text \<open>The body of the loop of \<open>append_log_entries\<close>, and the loop from position \<open>index_in_log_entries\<close> on.\<close>

definition append_log_entry :: "int \<Rightarrow> LogEntry \<Rightarrow> LogEntry list \<Rightarrow> cpp_error + LogEntry list" where
  "append_log_entry index_in_log_entries e log =
     (if index_in_log_entries > int (length log) - 1 then Inr (log @ [e])
      else andThen (log_at log index_in_log_entries) (\<lambda>old.
        if le_term old = le_term e then Inr log
        else Inr (clean_log_entries_out_of_sync index_in_log_entries log @ [e])))"

fun append_log_entries_from :: "int \<Rightarrow> LogEntry list \<Rightarrow> LogEntry list \<Rightarrow> cpp_error + LogEntry list" where
  "append_log_entries_from i [] log = Inr log"
| "append_log_entries_from i (e # es) log = andThen (append_log_entry i e log) (append_log_entries_from (i + 1) es)"

definition append_log_entries :: "int \<Rightarrow> LogEntry list \<Rightarrow> LogEntry list \<Rightarrow> cpp_error + LogEntry list" where
  "append_log_entries last_log_index new_entries log = append_log_entries_from (last_log_index + 1) new_entries log"

text \<open>Apply one committed entry to the queue.\<close>

definition apply_entry :: "LogEntry \<Rightarrow> message_queue \<Rightarrow> message_queue" where
  "apply_entry e q =
     (if le_operation e = LogEntry_ADD then snd (insert_message (le_message_id e) (le_message e) q)
      else if le_operation e = LogEntry_COMMIT then snd (commit_message (le_message_id e) q)
      else q)"

definition commit_log_entry :: "int \<Rightarrow> cluster_node \<Rightarrow> cluster_node" where
  "commit_log_entry entry_index n =
     (if entry_index \<le> 0 then n
      else if entry_index \<ge> int (length (log_entries n)) then n
      else n\<lparr>queue := apply_entry (log_entries n ! nat entry_index) (queue n)\<rparr>)"

section \<open>Delivery to the consumers\<close>

text \<open>The loop of \<open>trigger_message_delivery\<close> over the undelivered messages; it returns at the first failure.\<close>

fun deliver_messages :: "node_env \<Rightarrow> message_id_type list \<Rightarrow> world \<Rightarrow> cpp_error + world" where
  "deliver_messages env [] s = Inr s"
| "deliver_messages env (message_id # ids) s =
     (let (message, q) = get_message message_id (queue (node s));
          s = update_node (\<lambda>n. n\<lparr>queue := q\<rparr>) s
      in andThen (serialize_raft_message (env_wire env) (node s) (server_send message_id message)) (\<lambda>(msg, buf).
         andThen (deliver_one_message_round_robin (partition_id (node s)) msg (clients s)) (\<lambda>(consumer_id, cm).
           let s = s\<lparr>clients := cm\<rparr>
           in if consumer_id = - 1 then Inr s
              else deliver_messages env ids
                (update_node (\<lambda>n. n\<lparr>queue := snd (deliver_message_to_client_id message_id consumer_id (queue n))\<rparr>) s))))"

definition trigger_message_delivery :: "node_env \<Rightarrow> world \<Rightarrow> cpp_error + world" where
  "trigger_message_delivery env s =
     (if state (node s) \<noteq> LEADER then Inr s
      else if \<not> has_consumers (clients s) then Inr s
      else deliver_messages env (get_all_undelivered_messages [] (queue (node s))) s)"

text \<open>The loop over the entries \<open>start, ..., stop - 1\<close>, then the delivery.\<close>

definition commit_log_entries :: "node_env \<Rightarrow> int \<Rightarrow> int \<Rightarrow> world \<Rightarrow> cpp_error + world" where
  "commit_log_entries env start_entry_index stop_entry_index s =
     trigger_message_delivery env (update_node (fold commit_log_entry [start_entry_index..stop_entry_index - 1]) s)"

definition consumer_disconnected :: "node_env \<Rightarrow> client_id_type \<Rightarrow> world \<Rightarrow> cpp_error + world" where
  "consumer_disconnected env client_id s =
     trigger_message_delivery env (update_node (\<lambda>n. n\<lparr>queue := snd (handle_client_disconnected client_id (queue n))\<rparr>) s)"

text \<open>\<open>cluster_node_storage_p_->store_log_entries_and_metadata(log_entries_, start, stop, {commit_index_})\<close>\<close>

definition store_entries :: "int \<Rightarrow> int \<Rightarrow> world \<Rightarrow> cpp_error + world" where
  "store_entries start stop s =
     andThen (store_log_entries_and_metadata (log_entries (node s)) start stop \<lparr>last_committed = commit_index (node s)\<rparr>
                (node_storage (node s)))
       (\<lambda>st. Inr (update_node (\<lambda>n. n\<lparr>node_storage := st\<rparr>) s))"

section \<open>Replication\<close>

definition trigger_entry_update :: "node_env \<Rightarrow> int \<Rightarrow> world \<Rightarrow> cpp_error + world" where
  "trigger_entry_update env follower_id s =
     (let (index_to_send, ni) = map_index 0 follower_id (next_index (node s));
          s = update_node (\<lambda>n. n\<lparr>next_index := ni\<rparr>) s; n = node s
      in if index_to_send \<ge> 1 \<and> index_to_send \<le> int (length (log_entries n)) - 1
         then andThen (log_at (log_entries n) (index_to_send - 1)) (\<lambda>prev.
              andThen (log_at (log_entries n) index_to_send) (\<lambda>new_elem.
              let msg = append_request (cur_term n) (node_id n) (index_to_send - 1) (le_term prev) [new_elem] (commit_index n);
                  (pending, pm) = map_index 0 follower_id (pending_append_reqs n);
                  s = update_node (\<lambda>n. n\<lparr>pending_append_reqs := pm\<rparr>) s
              in if pending < MAX_PENDING_APPEND
                 then andThen (post_message env (ToNode follower_id) msg s) (\<lambda>s.
                   Inr (update_node (\<lambda>n. n\<lparr>pending_append_reqs := map_set follower_id (pending + 1) (pending_append_reqs n)\<rparr>) s))
                 else Inr s))
         else Inr s)"

definition add_log_entry :: "node_env \<Rightarrow> LogEntry \<Rightarrow> world \<Rightarrow> cpp_error + world" where
  "add_log_entry env entry s =
     (let s = update_node (\<lambda>n. n\<lparr>log_entries := log_entries n @ [entry]\<rparr>) s
      in forEach (trigger_entry_update env) (map_keys (next_index (node s))) s)"

section \<open>Handlers of messages\<close>

definition append_entries_rejected :: "node_env \<Rightarrow> int \<Rightarrow> world \<Rightarrow> cpp_error + world" where
  "append_entries_rejected env leader_id s =
     post_message env (ToNode leader_id) (append_response (cur_term (node s)) (node_id (node s)) 0 (- 1)) s"

text \<open>\<open>APPEND_ENTRIES_REQUEST\<close>: a stale term is refused; otherwise follow the leader, check the previous entry, commit, append and answer.\<close>

definition follow_leader :: "node_env \<Rightarrow> AppendEntriesRequest \<Rightarrow> world \<Rightarrow> world" where
  "follow_leader env req =
     update_node (\<lambda>n. n\<lparr>state := (if state n = CANDIDATE \<or> (state n = LEADER \<and> aeq_term req > cur_term n) then FOLLOWER else state n),
       last_heart_beat_received := now env, cur_term := aeq_term req, cur_leader := aeq_leader_id req\<rparr>)"

definition commit_from_leader :: "node_env \<Rightarrow> AppendEntriesRequest \<Rightarrow> world \<Rightarrow> cpp_error + world" where
  "commit_from_leader env req s =
     (if commit_index (node s) < aeq_leader_commit req \<and> aeq_leader_commit req < int (length (log_entries (node s)))
      then andThen (commit_log_entries env (commit_index (node s) + 1) (aeq_leader_commit req + 1) s) (\<lambda>s.
        let s = update_node (\<lambda>n. n\<lparr>commit_index := aeq_leader_commit req\<rparr>) s
        in store_entries (commit_index (node s)) (aeq_leader_commit req + 1) s)
      else Inr s)"

definition append_from_leader :: "node_env \<Rightarrow> AppendEntriesRequest \<Rightarrow> world \<Rightarrow> cpp_error + world" where
  "append_from_leader env req s =
     andThen (append_log_entries (aeq_prev_log_index req) (aeq_entries req) (log_entries (node s))) (\<lambda>log.
       let s = update_node (\<lambda>n. n\<lparr>log_entries := log\<rparr>) s
       in andThen (log_back (log_entries (node s))) (\<lambda>e.
         post_message env (ToNode (aeq_leader_id req))
           (append_response (cur_term (node s)) (node_id (node s)) 1 (le_index e)) s))"

definition handle_append_entries_request :: "node_env \<Rightarrow> AppendEntriesRequest \<Rightarrow> world \<Rightarrow> cpp_error + world" where
  "handle_append_entries_request env req s =
     (if aeq_term req < cur_term (node s)
      then append_entries_rejected env (aeq_leader_id req) (update_node (\<lambda>n. n\<lparr>cur_leader := - 1\<rparr>) s)
      else let s = follow_leader env req s
           in andThen (check_if_previous_log_in_sync (aeq_prev_log_term req) (aeq_prev_log_index req) (log_entries (node s)))
             (\<lambda>in_sync.
                if \<not> in_sync then append_entries_rejected env (aeq_leader_id req) s
                else andThen (commit_from_leader env req s) (append_from_leader env req)))"

text \<open>\<open>APPEND_ENTRIES_RESPONSE\<close>: the number of other nodes known to hold an index, and the commit that a majority allows.\<close>

definition count_synced_nodes :: "int \<Rightarrow> cluster_node \<Rightarrow> nat" where
  "count_synced_nodes i n = length (filter (\<lambda>(f, m). m \<ge> i) (matched_index n))"

definition commit_from_majority :: "node_env \<Rightarrow> int \<Rightarrow> world \<Rightarrow> cpp_error + world" where
  "commit_from_majority env last_index s =
     (if commit_index (node s) < last_index \<and> int (count_synced_nodes last_index (node s)) + 1 > total_nodes (node s) div 2
      then andThen (commit_log_entries env (commit_index (node s) + 1) (last_index + 1) s) (\<lambda>s.
        let s = update_node (\<lambda>n. n\<lparr>commit_index := max (commit_index n) last_index\<rparr>) s
        in store_entries (commit_index (node s)) (last_index + 1) s)
      else Inr s)"

definition append_succeeded :: "node_env \<Rightarrow> int \<Rightarrow> int \<Rightarrow> world \<Rightarrow> cpp_error + world" where
  "append_succeeded env follower_id last_index s =
     andThen (commit_from_majority env last_index
                (update_node (\<lambda>n. n\<lparr>matched_index := map_set follower_id last_index (matched_index n)\<rparr>) s)) (\<lambda>s.
       let (matched, mi) = map_index 0 follower_id (matched_index (node s))
       in Inr (update_node (\<lambda>n. n\<lparr>matched_index := mi, next_index := map_set follower_id (matched + 1) (next_index n)\<rparr>) s))"

definition append_failed :: "AppendEntriesResponse \<Rightarrow> int \<Rightarrow> world \<Rightarrow> world" where
  "append_failed resp follower_id s =
     (if aes_term resp > cur_term (node s) then update_node (\<lambda>n. n\<lparr>cur_term := aes_term resp\<rparr>) s
      else let (next, ni) = map_index 0 follower_id (next_index (node s))
           in update_node (\<lambda>n. n\<lparr>next_index := map_set follower_id (max 1 (next - 1)) ni\<rparr>) s)"

definition request_answered :: "int \<Rightarrow> world \<Rightarrow> world" where
  "request_answered follower_id s =
     (let (pending, pm) = map_index 0 follower_id (pending_append_reqs (node s))
      in update_node (\<lambda>n. n\<lparr>pending_append_reqs := map_set follower_id (max 0 (pending - 1)) pm\<rparr>) s)"

definition handle_append_entries_response :: "node_env \<Rightarrow> AppendEntriesResponse \<Rightarrow> world \<Rightarrow> cpp_error + world" where
  "handle_append_entries_response env resp s =
     (let follower_id = aes_follower_id resp; s = request_answered follower_id s
      in andThen (if aes_append_result_success resp \<noteq> 0
                  then append_succeeded env follower_id (aes_last_index_synced resp) s
                  else Inr (append_failed resp follower_id s))
           (trigger_entry_update env follower_id))"

text \<open>\<open>REQUEST_VOTE_REQUEST\<close>\<close>

definition invalid_vote_request :: "RequestVoteRequest \<Rightarrow> cluster_node \<Rightarrow> bool" where
  "invalid_vote_request req n \<longleftrightarrow>
     rvq_term req < cur_term n \<or>
     rvq_term req = cur_term n \<and> voted_for n \<noteq> - 1 \<and> voted_for n \<noteq> rvq_candidate_id req"

definition handle_request_vote_request :: "node_env \<Rightarrow> RequestVoteRequest \<Rightarrow> world \<Rightarrow> cpp_error + world" where
  "handle_request_vote_request env req s =
     (if invalid_vote_request req (node s)
      then post_message env (ToNode (rvq_candidate_id req)) (vote_response (rvq_term req) 0) s
      else let s = (if rvq_term req > cur_term (node s)
                    then update_node (\<lambda>n. n\<lparr>cur_term := rvq_term req, votes_collected := 0\<rparr>) s else s)
           in if state (node s) = CANDIDATE \<or> state (node s) = FOLLOWER
              then post_message env (ToNode (rvq_candidate_id req)) (vote_response (rvq_term req) 1)
                     (update_node (\<lambda>n. n\<lparr>voted_for := rvq_candidate_id req\<rparr>) s)
              else Inr s)"

text \<open>\<open>REQUEST_VOTE_RESPONSE\<close>\<close>

definition handle_request_vote_response :: "RequestVoteResponse \<Rightarrow> world \<Rightarrow> world" where
  "handle_request_vote_response resp s =
     (if state (node s) = LEADER then s
      else if state (node s) = FOLLOWER then s
      else if rvs_vote_result_term_granted resp = 0 then s
      else if rvs_term resp < cur_term (node s) then s
      else let s = (if rvs_vote_result_term_granted resp = 1
                    then update_node (\<lambda>n. n\<lparr>votes_collected := votes_collected n + 1\<rparr>) s else s)
           in if votes_collected (node s) > total_nodes (node s) div 2
              then update_node (\<lambda>n. n\<lparr>state := LEADER, cur_term := rvs_term resp\<rparr>) s
              else s)"

text \<open>The requests of clients. The answer to opening a queue goes to the next consumer of the partition, whoever that is.\<close>

definition handle_client_put_message :: "node_env \<Rightarrow> ClientPutMessage \<Rightarrow> world \<Rightarrow> cpp_error + world" where
  "handle_client_put_message env req s =
     (if state (node s) \<noteq> LEADER then Inr s
      else add_log_entry env (log_entry (int (length (log_entries (node s)))) (cur_term (node s)) (random_id env)
             LogEntry_ADD (cpm_message req)) s)"

definition handle_client_commit_message :: "node_env \<Rightarrow> ClientCommitMessage \<Rightarrow> world \<Rightarrow> cpp_error + world" where
  "handle_client_commit_message env req s =
     (if state (node s) \<noteq> LEADER then Inr s
      else add_log_entry env (log_entry (int (length (log_entries (node s)))) (cur_term (node s)) (ccm_message_id req)
             LogEntry_COMMIT []) s)"

definition reply_to_client :: "node_env \<Rightarrow> raft_message \<Rightarrow> world \<Rightarrow> cpp_error + world" where
  "reply_to_client env msg s =
     andThen (serialize_raft_message (env_wire env) (node s) msg) (\<lambda>(msg, buf).
       andThen (deliver_one_message_round_robin (partition_id (node s)) msg (clients s)) (\<lambda>(client_id, cm).
         Inr (s\<lparr>clients := cm\<rparr>)))"

definition handle_client_open_queue :: "node_env \<Rightarrow> world \<Rightarrow> cpp_error + world" where
  "handle_client_open_queue env s =
     (if state (node s) \<noteq> LEADER
      then reply_to_client env (open_queue_response Status_ERROR ''Node is not leader.''
             (Some (get_address_for_node (server_config env) (cur_leader (node s))))) s
      else andThen (reply_to_client env (open_queue_response Status_SUCCESS [] None) s) (trigger_message_delivery env))"

definition local_message_handler :: "node_env \<Rightarrow> raft_message \<Rightarrow> world \<Rightarrow> cpp_error + world" where
  "local_message_handler env raft_msg s =
     (if msg_type raft_msg = APPEND_ENTRIES_REQUEST then handle_append_entries_request env (get_append_request raft_msg) s
      else if msg_type raft_msg = APPEND_ENTRIES_RESPONSE then handle_append_entries_response env (get_append_response raft_msg) s
      else if msg_type raft_msg = REQUEST_VOTE_REQUEST then handle_request_vote_request env (get_vote_request raft_msg) s
      else if msg_type raft_msg = REQUEST_VOTE_RESPONSE then Inr (handle_request_vote_response (get_vote_response raft_msg) s)
      else if msg_type raft_msg = CLIENT_PUT_MESSAGE then handle_client_put_message env (get_put_message_request raft_msg) s
      else if msg_type raft_msg = CLIENT_OPEN_QUEUE then handle_client_open_queue env s
      else if msg_type raft_msg = CLIENT_COMMIT_MESSAGE
      then handle_client_commit_message env (get_commit_message_request raft_msg) s
      else Inr s)"

text \<open>\<open>message_handler\<close> decodes the buffer and posts the message to the thread of the node.\<close>

definition node_message_handler :: "node_env \<Rightarrow> message \<Rightarrow> world \<Rightarrow> cpp_error + world" where
  "node_message_handler env msg s =
     andThen (deserialize_from_message (env_wire env) msg) (\<lambda>raft_msg. local_message_handler env raft_msg s)"

section \<open>Timers\<close>

text \<open>The handler of the heartbeat timer.\<close>

definition other_nodes :: "cluster_node \<Rightarrow> int list" where
  "other_nodes n = filter (\<lambda>i. i \<noteq> node_id n) [0..total_nodes n - 1]"

definition request_sent :: "int \<Rightarrow> (int, int) smap \<Rightarrow> (int, int) smap" where
  "request_sent i pending = (let (k, pm) = map_index 0 i pending in map_set i (k + 1) pm)"

definition send_heartbeat :: "node_env \<Rightarrow> world \<Rightarrow> cpp_error + world" where
  "send_heartbeat env s =
     (if state (node s) = LEADER
      then andThen (log_back (log_entries (node s))) (\<lambda>e.
        andThen (post_message env ToAll (append_request (cur_term (node s)) (node_id (node s)) (le_index e) (le_term e) []
                  (commit_index (node s))) s) (\<lambda>s.
          Inr (update_node (\<lambda>n. n\<lparr>pending_append_reqs := fold request_sent (other_nodes n) (pending_append_reqs n)\<rparr>) s)))
      else Inr s)"

text \<open>The handler of the vote timer starts an election round and the random delay; the handler of that delay asks for votes.\<close>

definition check_heartbeat :: "node_env \<Rightarrow> world \<Rightarrow> world" where
  "check_heartbeat env s =
     (let s = (if state (node s) = FOLLOWER \<and>
                  last_heart_beat_received (node s) + HEARTBEAT_EXPIRE_SECONDS + 2 < now env
               then update_node (\<lambda>n. n\<lparr>state := CANDIDATE\<rparr>) s else s)
      in if state (node s) = CANDIDATE
         then (update_node (\<lambda>n. n\<lparr>cur_term := cur_term n + 1, voted_for := - 1, votes_collected := 0\<rparr>) s)
                \<lparr>vote_timers := vote_timers s + 1\<rparr>
         else s)"

definition send_vote_request :: "node_env \<Rightarrow> world \<Rightarrow> cpp_error + world" where
  "send_vote_request env s =
     (if voted_for (node s) \<noteq> - 1 then Inr s
      else andThen (log_back (log_entries (node s))) (\<lambda>e.
        let msg = vote_request (cur_term (node s)) (node_id (node s)) (le_index e) (le_term e);
            s = update_node (\<lambda>n. n\<lparr>voted_for := node_id n, votes_collected := votes_collected n + 1\<rparr>) s
        in post_message env ToAll msg s))"

definition vote_delay_expired :: "node_env \<Rightarrow> world \<Rightarrow> cpp_error + world" where
  "vote_delay_expired env s =
     (if vote_timers s = 0 then Inr s else send_vote_request env (s\<lparr>vote_timers := vote_timers s - 1\<rparr>))"

section \<open>Construction\<close>

definition sentinel :: LogEntry where
  "sentinel = LogEntry_new\<lparr>le_term_fld := Some 0, le_index_fld := Some 0, le_operation_fld := Some 0, le_message_fld := Some []\<rparr>"

text \<open>
  The members before the files are read; \<open>heart_beat\<close> and \<open>votes\<close> are the values of the two members that the constructor does not initialize.
\<close>

definition initial_node :: "cluster_node_config \<Rightarrow> cluster_node_storage \<Rightarrow> int \<Rightarrow> int \<Rightarrow> cluster_node" where
  "initial_node cfg storage heart_beat votes =
     (let others = filter (\<lambda>i. i \<noteq> cfg_node_id cfg) [0..cfg_total_nodes cfg - 1]
      in \<lparr>partition_id = cfg_partition_id cfg, node_id = cfg_node_id cfg, total_nodes = cfg_total_nodes cfg, state = CANDIDATE,
          cur_term = 0, cur_leader = - 1, last_heart_beat_received = heart_beat, votes_collected = votes, voted_for = - 1,
          log_entries = [sentinel], commit_index = 0, last_applied = 0,
          next_index = fold (\<lambda>i. map_set i 1) others [], matched_index = fold (\<lambda>i. map_set i 0) others [],
          pending_append_reqs = [], node_storage = storage, queue = empty_queue\<rparr>)"

definition ClusterNode_new ::
  "wire \<Rightarrow> cluster_node_config \<Rightarrow> cluster_node_storage \<Rightarrow> int \<Rightarrow> int \<Rightarrow> file_system \<Rightarrow> cpp_error + cluster_node" where
  "ClusterNode_new w cfg storage heart_beat votes fs =
     (let n = initial_node cfg storage heart_beat votes
      in andThen (check_if_previous_log_in_sync 0 0 (log_entries n)) (\<lambda>_.
         andThen (storage_load_log_entry_from_file w (log_entries n) storage fs) (\<lambda>(r, log).
           let n = n\<lparr>log_entries := log\<rparr>;
               n = fold commit_log_entry [1..int (length (log_entries n)) - 1] n;
               (r, md) = storage_load_metadata_from_file \<lparr>last_committed = 0\<rparr> storage fs
           in Inr (if 0 = r then n\<lparr>commit_index := last_committed md\<rparr> else n))))"

section \<open>Runs of a node\<close>

text \<open>
  What the thread of a node executes, and what other threads do to the client manager between two handlers.
\<close>

datatype node_event =
    Receive raft_message
  | HeartbeatTimer
  | VoteTimer
  | VoteDelay
  | ConsumerLost client_id_type
  | ClientsChanged "raft_message client_manager"

fun node_step :: "node_env \<Rightarrow> node_event \<Rightarrow> world \<Rightarrow> cpp_error + world" where
  "node_step env (Receive msg) s = local_message_handler env msg s"
| "node_step env HeartbeatTimer s = send_heartbeat env s"
| "node_step env VoteTimer s = Inr (check_heartbeat env s)"
| "node_step env VoteDelay s = vote_delay_expired env s"
| "node_step env (ConsumerLost client_id) s = consumer_disconnected env client_id s"
| "node_step env (ClientsChanged cm) s = Inr (s\<lparr>clients := cm\<rparr>)"

lemmas message_handler_defs = handle_append_entries_request_def handle_append_entries_response_def
  handle_request_vote_request_def handle_request_vote_response_def handle_client_put_message_def
  handle_client_open_queue_def handle_client_commit_message_def local_message_handler_def

lemmas timer_defs = send_heartbeat_def check_heartbeat_def send_vote_request_def vote_delay_expired_def

end
