(* ===== verification/Cluster_Node_Frame.thy ===== *)
theory Cluster_Node_Frame
  imports Cluster_Node
begin

text \<open>
  What each operation of a node leaves alone, as an equation for the world after it: the lemmas on the handlers rest on these. The fields that decide
  elections and replication are written by few handlers; delivery changes the queue and the clients only, storing the storage only, and replication the indices
  of the followers and the messages sent.
\<close>

lemma update_node_simps [simp]:
  "node (update_node f s) = f (node s)" "clients (update_node f s) = clients s" "sent (update_node f s) = sent s"
  "vote_timers (update_node f s) = vote_timers s"
  by (simp_all add: update_node_def)

lemma post_message_Inr:
  "post_message env d m s = Inr s' \<Longrightarrow> s' = s\<lparr>sent := sent s @ [(d, set_partition_id (partition_id (node s)) m)]\<rparr>"
  by (auto simp: post_message_def serialize_raft_message_def Let_def)

lemma post_message_cases:
  "post_message env d m s = Inr (s\<lparr>sent := sent s @ [(d, set_partition_id (partition_id (node s)) m)]\<rparr>) \<or>
   (\<exists>e. post_message env d m s = Inl e)"
  using post_message_Inr [of env d m s] by (cases "post_message env d m s") auto

section \<open>Delivery and storage\<close>

text \<open>Only the queue and the clients change.\<close>

definition delivered :: "world \<Rightarrow> world \<Rightarrow> bool" where
  "delivered s s' \<longleftrightarrow> (\<exists>q cm. s' = s\<lparr>node := (node s)\<lparr>queue := q\<rparr>, clients := cm\<rparr>)"

lemma deliveredI: "s' = s\<lparr>node := (node s)\<lparr>queue := q\<rparr>, clients := cm\<rparr> \<Longrightarrow> delivered s s'"
  unfolding delivered_def by blast

lemma delivered_refl: "delivered s s"
  by (rule deliveredI [where q = "queue (node s)" and cm = "clients s"]) simp

lemma delivered_trans: "delivered s t \<Longrightarrow> delivered t u \<Longrightarrow> delivered s u"
  unfolding delivered_def by (elim exE) (intro exI, simp)

lemma deliver_messages_frame: "deliver_messages env ids s = Inr s' \<Longrightarrow> delivered s s'"
proof (induction ids arbitrary: s)
  case Nil
  then show ?case by (simp add: delivered_refl)
next
  case (Cons message_id ids)
  obtain message q where gm: "get_message message_id (queue (node s)) = (message, q)" by (metis prod.exhaust)
  let ?s1 = "update_node (\<lambda>n. n\<lparr>queue := q\<rparr>) s"
  let ?s2 = "\<lambda>c cm. update_node (\<lambda>n. n\<lparr>queue := snd (deliver_message_to_client_id message_id c (queue n))\<rparr>) (?s1\<lparr>clients := cm\<rparr>)"
  from Cons.prems gm obtain c cm where
    "(if c = - 1 then Inr (?s1\<lparr>clients := cm\<rparr>) else deliver_messages env ids (?s2 c cm)) = Inr s'"
    by (auto simp: Let_def split: prod.splits)
  moreover have "delivered s (?s1\<lparr>clients := cm\<rparr>)"
    by (rule deliveredI [where q = q and cm = cm]) (simp add: update_node_def)
  moreover have "delivered s (?s2 c cm)"
    by (rule deliveredI [where q = "snd (deliver_message_to_client_id message_id c q)" and cm = cm]) (simp add: update_node_def)
  ultimately show ?case
    using Cons.IH by (auto split: if_splits intro: delivered_trans)
qed

lemma trigger_message_delivery_frame: "trigger_message_delivery env s = Inr s' \<Longrightarrow> delivered s s'"
  by (auto simp: trigger_message_delivery_def delivered_refl deliver_messages_frame split: if_splits)

lemma commit_log_entry_frame: "\<exists>q. commit_log_entry i n = n\<lparr>queue := q\<rparr>"
proof -
  have "n = n\<lparr>queue := queue n\<rparr>" by simp
  then show ?thesis unfolding commit_log_entry_def by metis
qed

lemma commit_all_frame: "\<exists>q. fold commit_log_entry is n = n\<lparr>queue := q\<rparr>"
proof (induction "is" arbitrary: n)
  case Nil
  have "n = n\<lparr>queue := queue n\<rparr>" by simp
  then show ?case by (metis fold_simps(1))
next
  case (Cons i "is")
  obtain q where "commit_log_entry i n = n\<lparr>queue := q\<rparr>" using commit_log_entry_frame by blast
  moreover obtain q' where "fold commit_log_entry is (n\<lparr>queue := q\<rparr>) = (n\<lparr>queue := q\<rparr>)\<lparr>queue := q'\<rparr>" using Cons by blast
  ultimately show ?case by auto
qed

lemma commit_log_entries_frame:
  assumes "commit_log_entries env a b s = Inr s'"
  shows "delivered s s'"
proof -
  let ?s = "update_node (fold commit_log_entry [a..b - 1]) s"
  obtain q where "fold commit_log_entry [a..b - 1] (node s) = (node s)\<lparr>queue := q\<rparr>" using commit_all_frame by blast
  then have "delivered s ?s" by (intro deliveredI [where q = q and cm = "clients s"]) (simp add: update_node_def)
  moreover have "delivered ?s s'" using assms by (intro trigger_message_delivery_frame) (simp add: commit_log_entries_def)
  ultimately show ?thesis by (rule delivered_trans)
qed

lemma store_entries_frame:
  "store_entries a b s = Inr s' \<Longrightarrow> \<exists>st. s' = s\<lparr>node := (node s)\<lparr>node_storage := st\<rparr>\<rparr>"
  by (auto simp: store_entries_def update_node_def)

lemma reply_to_client_frame: "reply_to_client env m s = Inr s' \<Longrightarrow> \<exists>cm. s' = s\<lparr>clients := cm\<rparr>"
  by (auto simp: reply_to_client_def split: prod.splits)

section \<open>Replication\<close>

text \<open>The messages that replication sends carry no vote.\<close>

definition is_append_request :: "destination \<times> raft_message \<Rightarrow> bool" where
  "is_append_request x \<longleftrightarrow> msg_type (snd x) = APPEND_ENTRIES_REQUEST"

definition replicated :: "world \<Rightarrow> world \<Rightarrow> bool" where
  "replicated s s' \<longleftrightarrow>
     (\<exists>ni pm out. s' = s\<lparr>node := (node s)\<lparr>next_index := ni, pending_append_reqs := pm\<rparr>, sent := sent s @ out\<rparr> \<and>
        list_all is_append_request out)"

lemma replicatedI:
  "s' = s\<lparr>node := (node s)\<lparr>next_index := ni, pending_append_reqs := pm\<rparr>, sent := sent s @ out\<rparr> \<Longrightarrow>
   list_all is_append_request out \<Longrightarrow> replicated s s'"
  unfolding replicated_def by blast

lemma replicated_refl: "replicated s s"
  by (rule replicatedI [where ni = "next_index (node s)" and pm = "pending_append_reqs (node s)" and out = "[]"]) simp_all

lemma replicated_trans: "replicated s t \<Longrightarrow> replicated t u \<Longrightarrow> replicated s u"
  unfolding replicated_def by (elim exE conjE) (intro exI conjI, simp, simp)

lemma append_request_type [simp]: "msg_type (append_request t l pi pt es lc) = APPEND_ENTRIES_REQUEST"
  by (simp add: append_request_def load_defs msg_type_def fm_type_def)

lemma msg_type_set_partition [simp]: "msg_type (set_partition_id p m) = msg_type m"
  by (simp add: set_partition_id_def msg_type_def fm_type_def)

lemma trigger_entry_update_frame:
  assumes "trigger_entry_update env f s = Inr s'"
  shows "replicated s s'"
proof -
  obtain i ni where ni: "map_index 0 f (next_index (node s)) = (i, ni)" by (metis prod.exhaust)
  obtain k pm where pm: "map_index 0 f (pending_append_reqs (node s)) = (k, pm)" by (metis prod.exhaust)
  let ?s1 = "update_node (\<lambda>n. n\<lparr>next_index := ni\<rparr>) s"
  let ?s2 = "update_node (\<lambda>n. n\<lparr>pending_append_reqs := pm\<rparr>) ?s1"
  let ?inc = "\<lambda>s. update_node (\<lambda>n. n\<lparr>pending_append_reqs := map_set f (k + 1) (pending_append_reqs n)\<rparr>) s"
  have 1: "replicated s ?s1"
    by (rule replicatedI [where ni = ni and pm = "pending_append_reqs (node s)" and out = "[]"]) (simp_all add: update_node_def)
  have 2: "replicated s ?s2"
    by (rule replicatedI [where ni = ni and pm = pm and out = "[]"]) (simp_all add: update_node_def)
  have 3: "replicated s (?inc (?s2\<lparr>sent := sent s @ [(ToNode f, m)]\<rparr>))" if "msg_type m = APPEND_ENTRIES_REQUEST" for m
    by (rule replicatedI [where ni = ni and pm = "map_set f (k + 1) pm" and out = "[(ToNode f, m)]"])
      (use that in \<open>simp_all add: update_node_def is_append_request_def\<close>)
  show ?thesis
    using assms ni pm 1 2
    by (auto simp: trigger_entry_update_def Let_def split: if_splits dest!: post_message_Inr intro!: 3 [simplified])
qed

lemma add_log_entry_frame:
  assumes "add_log_entry env e s = Inr s'"
  shows "replicated (update_node (\<lambda>n. n\<lparr>log_entries := log_entries n @ [e]\<rparr>) s) s'"
proof -
  let ?s = "update_node (\<lambda>n. n\<lparr>log_entries := log_entries n @ [e]\<rparr>) s"
  from assms have "forEach (trigger_entry_update env) (map_keys (next_index (node ?s))) ?s = Inr s'"
    by (simp add: add_log_entry_def Let_def)
  then show ?thesis
    by (rule forEach_keeps [rotated, where P = "replicated ?s"])
      (auto intro: replicated_refl replicated_trans trigger_entry_update_frame)
qed

section \<open>The steps of the append handlers\<close>

text \<open>Committing changes the queue, the clients, the storage and the commit index, which never decreases.\<close>

definition committed :: "world \<Rightarrow> world \<Rightarrow> bool" where
  "committed s s' \<longleftrightarrow>
     (\<exists>q cm st i. s' = s\<lparr>node := (node s)\<lparr>queue := q, node_storage := st, commit_index := i\<rparr>, clients := cm\<rparr> \<and>
        commit_index (node s) \<le> i)"

lemma committedI:
  "s' = s\<lparr>node := (node s)\<lparr>queue := q, node_storage := st, commit_index := i\<rparr>, clients := cm\<rparr> \<Longrightarrow>
   commit_index (node s) \<le> i \<Longrightarrow> committed s s'"
  unfolding committed_def by blast

lemma committed_refl: "committed s s"
  by (rule committedI [where q = "queue (node s)" and st = "node_storage (node s)" and i = "commit_index (node s)" and cm = "clients s"])
    simp_all

lemma commit_and_store_frame:
  assumes "andThen (commit_log_entries env a b s) (\<lambda>s. let s = update_node (\<lambda>n. n\<lparr>commit_index := f n\<rparr>) s
      in store_entries (commit_index (node s)) b s) = Inr s'"
    and "\<And>q. commit_index (node s) \<le> f ((node s)\<lparr>queue := q\<rparr>)"
  shows "committed s s'"
proof -
  from assms(1) obtain t where "commit_log_entries env a b s = Inr t"
    and st: "store_entries (commit_index (node (update_node (\<lambda>n. n\<lparr>commit_index := f n\<rparr>) t))) b
        (update_node (\<lambda>n. n\<lparr>commit_index := f n\<rparr>) t) = Inr s'"
    by (auto simp: Let_def)
  from commit_log_entries_frame [OF this(1)] obtain q cm where
    t: "t = s\<lparr>node := (node s)\<lparr>queue := q\<rparr>, clients := cm\<rparr>"
    unfolding delivered_def by blast
  from store_entries_frame [OF st] obtain st' where
    "s' = (update_node (\<lambda>n. n\<lparr>commit_index := f n\<rparr>) t)\<lparr>node := (node (update_node (\<lambda>n. n\<lparr>commit_index := f n\<rparr>) t))\<lparr>node_storage := st'\<rparr>\<rparr>"
    by blast
  then show ?thesis
    using t assms(2)
    by (intro committedI [where q = q and st = st' and i = "f ((node s)\<lparr>queue := q\<rparr>)" and cm = cm])
      (simp_all add: update_node_def)
qed

lemma commit_from_leader_frame: "commit_from_leader env req s = Inr s' \<Longrightarrow> committed s s'"
  unfolding commit_from_leader_def
  by (auto split: if_splits simp: committed_refl intro!: commit_and_store_frame)

lemma commit_from_majority_frame: "commit_from_majority env i s = Inr s' \<Longrightarrow> committed s s'"
  unfolding commit_from_majority_def
  by (auto split: if_splits simp: committed_refl simp del: andThen_Inr intro!: commit_and_store_frame)

lemma append_from_leader_Inr:
  assumes "append_from_leader env req s = Inr s'"
  shows "\<exists>log. append_log_entries (aeq_prev_log_index req) (aeq_entries req) (log_entries (node s)) = Inr log \<and> log \<noteq> [] \<and>
    s' = s\<lparr>node := (node s)\<lparr>log_entries := log\<rparr>, sent := sent s @ [(ToNode (aeq_leader_id req),
      set_partition_id (partition_id (node s)) (append_response (cur_term (node s)) (node_id (node s)) 1 (le_index (last log))))]\<rparr>"
  using assms
  by (auto simp: append_from_leader_def Let_def update_node_def log_back_def split: if_splits dest!: post_message_Inr)

end
