(* ===== verification/Cluster_Node_Log.thy ===== *)
theory Cluster_Node_Log
  imports Cluster_Node_Frame
begin

text \<open>
  The log of a node: \<open>append_log_entries\<close> is the rule of the Raft paper for the entries of an append request (drop a conflicting suffix, append what
  is missing), stated as the reference function \<open>raft_append\<close>, and it makes the log of a follower agree with the log of the leader.
\<close>

section \<open>The append rule\<close>

fun raft_append :: "LogEntry list \<Rightarrow> LogEntry list \<Rightarrow> LogEntry list" where
  "raft_append old [] = old"
| "raft_append [] es = es"
| "raft_append (x # old) (e # es) = (if le_term x = le_term e then x # raft_append old es else e # es)"

lemma log_at_Inr [simp]: "log_at log i = Inr e \<longleftrightarrow> 0 \<le> i \<and> i < int (length log) \<and> e = log ! nat i"
  by (auto simp: log_at_def)

lemma log_at_in: "0 \<le> i \<Longrightarrow> i < int (length log) \<Longrightarrow> log_at log i = Inr (log ! nat i)"
  by simp

lemma append_all_new: "int (length log) \<le> i \<Longrightarrow> append_log_entries_from i es log = Inr (log @ es)"
proof (induction es arbitrary: i log)
  case (Cons e es)
  then have "append_log_entry i e log = Inr (log @ [e])" by (simp add: append_log_entry_def)
  with Cons.IH [of "log @ [e]" "i + 1"] Cons.prems show ?case by simp
qed simp

lemma append_from_eq:
  assumes "k \<le> length log"
  shows "append_log_entries_from (int k) es log = Inr (take k log @ raft_append (drop k log) es)"
  using assms
proof (induction es arbitrary: k log)
  case (Cons e es)
  show ?case
  proof (cases "k = length log")
    case True
    then show ?thesis using append_all_new [of log "int k" "e # es"] by simp
  next
    case False
    with Cons.prems have k: "k < length log" by simp
    then have d: "drop k log = log ! k # drop (Suc k) log" by (simp add: Cons_nth_drop_Suc)
    have at: "log_at log (int k) = Inr (log ! k)" using k by simp
    show ?thesis
    proof (cases "le_term (log ! k) = le_term e")
      case True
      then have "append_log_entry (int k) e log = Inr log" using k at by (simp add: append_log_entry_def)
      moreover have "take (Suc k) log = take k log @ [log ! k]" using k by (simp add: take_Suc_conv_app_nth)
      ultimately show ?thesis using Cons.IH [of "Suc k" log] k d True by (simp add: add.commute)
    next
      case neq: False
      then have "append_log_entry (int k) e log = Inr (take k log @ [e])"
        using k at by (simp add: append_log_entry_def clean_log_entries_out_of_sync_def)
      moreover have "append_log_entries_from (int k + 1) es (take k log @ [e]) = Inr ((take k log @ [e]) @ es)"
        using k by (intro append_all_new) simp
      ultimately show ?thesis using d neq by simp
    qed
  qed
qed simp

lemma append_log_entries_eq:
  assumes "0 \<le> prev" and "prev < int (length log)"
  shows "append_log_entries prev es log = Inr (take (nat prev + 1) log @ raft_append (drop (nat prev + 1) log) es)"
  using append_from_eq [of "nat prev + 1" log es] assms by (simp add: append_log_entries_def add.commute nat_less_iff)

lemma check_sync_True:
  "check_if_previous_log_in_sync t i log = Inr True \<longleftrightarrow> 0 \<le> i \<and> i < int (length log) \<and> le_term (log ! nat i) = t"
  by (auto simp: check_if_previous_log_in_sync_def)

lemma append_keeps_head:
  assumes "0 \<le> prev" and "prev < int (length log)" and "append_log_entries prev es log = Inr log'"
  shows "log' \<noteq> [] \<and> hd log' = hd log"
  using assms by (cases log) (auto simp: append_log_entries_eq)

section \<open>Agreement of two logs\<close>

text \<open>Two logs match when an entry with the same position and term in both makes them equal up to it (the Log Matching property).\<close>

definition logs_match :: "LogEntry list \<Rightarrow> LogEntry list \<Rightarrow> bool" where
  "logs_match a b \<longleftrightarrow>
     (\<forall>i < min (length a) (length b). le_term (a ! i) = le_term (b ! i) \<longrightarrow> take (Suc i) a = take (Suc i) b)"

lemma raft_append_suffix:
  assumes "\<And>i. i < length old \<Longrightarrow> i < length es \<Longrightarrow> le_term (old ! i) = le_term (es ! i) \<Longrightarrow> old ! i = es ! i"
  shows "take (length es) (raft_append old es) = es"
  using assms
proof (induction old es rule: raft_append.induct)
  case (3 x old e es)
  then show ?case
  proof (cases "le_term x = le_term e")
    case True
    have "x = e" using "3.prems" [of 0] True by simp
    moreover have "take (length es) (raft_append old es) = es"
      using "3.IH" [OF True] "3.prems" [of "Suc _"] by simp
    ultimately show ?thesis using True by simp
  qed simp
qed simp_all

lemma raft_append_covers: "length es \<le> length (raft_append old es)"
  by (induction old es rule: raft_append.induct) auto

text \<open>A suffix beyond the new entries is kept only when there was no conflict, and then the log is as before.\<close>

lemma raft_append_longer: "length (raft_append old es) > length es \<Longrightarrow> raft_append old es = old"
  by (induction old es rule: raft_append.induct) (auto split: if_splits)

lemma logs_match_nth:
  "logs_match a b \<Longrightarrow> i < length a \<Longrightarrow> i < length b \<Longrightarrow> le_term (a ! i) = le_term (b ! i) \<Longrightarrow> a ! i = b ! i"
  unfolding logs_match_def by (metis lessI min_less_iff_conj nth_take)

lemma append_agrees:
  assumes match: "logs_match log leader" and prev: "prev < length log" "prev < length leader"
    and same: "le_term (log ! prev) = le_term (leader ! prev)" and k: "prev + 1 + k \<le> length leader"
  defines "es \<equiv> slice (prev + 1) (prev + 1 + k) leader"
  defines "log' \<equiv> take (prev + 1) log @ raft_append (drop (prev + 1) log) es"
  shows "take (prev + 1 + k) log' = take (prev + 1 + k) leader" and "logs_match log' leader"
proof -
  have len: "length es = k" using k by (simp add: es_def length_slice)
  have pre: "take (prev + 1) log = take (prev + 1) leader"
    using match prev same by (simp add: logs_match_def)
  have "take (length es) (raft_append (drop (prev + 1) log) es) = es"
  proof (rule raft_append_suffix)
    fix i assume "i < length (drop (prev + 1) log)" "i < length es" "le_term (drop (prev + 1) log ! i) = le_term (es ! i)"
    moreover have "es ! i = leader ! (prev + 1 + i)" if "i < k" using that k by (simp add: es_def nth_slice)
    ultimately show "drop (prev + 1) log ! i = es ! i"
      using logs_match_nth [OF match, of "prev + 1 + i"] len k by simp
  qed
  moreover have "take (prev + 1) leader @ es = take (prev + 1 + k) leader"
    using slice_slice [of 0 "prev + 1" "prev + 1 + k" leader] by (simp add: es_def slice_def)
  ultimately show agree: "take (prev + 1 + k) log' = take (prev + 1 + k) leader"
    using prev len pre by (simp add: log'_def)
  show "logs_match log' leader"
    unfolding logs_match_def
  proof (intro allI impI)
    fix i assume i: "i < min (length log') (length leader)" and t: "le_term (log' ! i) = le_term (leader ! i)"
    show "take (Suc i) log' = take (Suc i) leader"
    proof (cases "i < prev + 1 + k")
      case True
      then have "take (Suc i) (take (prev + 1 + k) log') = take (Suc i) (take (prev + 1 + k) leader)" by (simp only: agree)
      with True show ?thesis by (simp add: min_def split: if_splits)
    next
      case False
      with i prev len have "length (raft_append (drop (prev + 1) log) es) > length es" by (simp add: log'_def)
      from raft_append_longer [OF this] have "log' = log" by (simp add: log'_def)
      with i t match show ?thesis by (simp add: logs_match_def)
    qed
  qed
qed

section \<open>Properties of the log\<close>

text \<open>
  C7: for a previous entry inside the log, \<open>append_log_entries\<close> computes exactly the rule of the Raft paper: the log up to the previous entry stays, an
  existing entry with the term of the new one is kept, and from the first conflict on the log is replaced by the new entries.
\<close>

theorem append_log_entries_is_raft_rule:
  assumes "0 \<le> prev" and "prev < int (length log)"
  shows "append_log_entries prev es log = Inr (take (nat prev + 1) log @ raft_append (drop (nat prev + 1) log) es)"
  by (rule append_log_entries_eq [OF assms])

definition entry_of_term :: "int \<Rightarrow> LogEntry" where
  "entry_of_term t = LogEntry_new\<lparr>le_term_fld := Some t\<rparr>"

lemma le_term_entry_of_term [simp]: "le_term (entry_of_term t) = t"
  by (simp add: entry_of_term_def le_term_def)

theorem append_log_entries_is_raft_rule_witness:
  "append_log_entries 0 [entry_of_term 1, entry_of_term 3] [sentinel, entry_of_term 1, entry_of_term 2, entry_of_term 2] =
   Inr [sentinel, entry_of_term 1, entry_of_term 3]"
  using append_log_entries_is_raft_rule [of 0 "[sentinel, entry_of_term 1, entry_of_term 2, entry_of_term 2]"
      "[entry_of_term 1, entry_of_term 3]"] by simp

text \<open>
  Log Matching is kept: when the logs of a follower and of the leader match, the terms of the previous entry agree, and the request carries the next
  \<open>k\<close> entries of the leader, then the follower's log equals the leader's up to the last of them, and the two logs still match.
\<close>

lemma append_keeps_log_matching:
  assumes "logs_match log leader" and "prev < length log" and "prev < length leader"
    and "le_term (log ! prev) = le_term (leader ! prev)" and "prev + 1 + k \<le> length leader"
  shows "\<exists>log'. append_log_entries (int prev) (slice (prev + 1) (prev + 1 + k) leader) log = Inr log' \<and>
    take (prev + 1 + k) log' = take (prev + 1 + k) leader \<and> logs_match log' leader"
  using append_agrees [OF assms] append_log_entries_eq [of "int prev" log] assms(2) by simp

end
