(* ===== verification/Cluster_Node_Votes.thy ===== *)
theory Cluster_Node_Votes
  imports Cluster_Node_Log
begin

text \<open>
  Terms and votes of a node over every run: the term and the commit index never decrease, the sentinel stays the first entry of the log, messages
  once sent stay sent, and a node votes for at most one candidate in a term, itself included.
\<close>

section \<open>Progress\<close>

definition progress :: "world \<Rightarrow> world \<Rightarrow> bool" where
  "progress s s' \<longleftrightarrow>
     node_id (node s') = node_id (node s) \<and> total_nodes (node s') = total_nodes (node s) \<and>
     partition_id (node s') = partition_id (node s) \<and>
     cur_term (node s) \<le> cur_term (node s') \<and> commit_index (node s) \<le> commit_index (node s') \<and>
     (\<exists>out. sent s' = sent s @ out) \<and>
     (log_entries (node s) \<noteq> [] \<longrightarrow> log_entries (node s') \<noteq> [] \<and> hd (log_entries (node s')) = hd (log_entries (node s)))"

lemma progress_refl [simp]: "progress s s"
  by (simp add: progress_def)

lemma progress_trans: "progress s t \<Longrightarrow> progress t u \<Longrightarrow> progress s u"
  unfolding progress_def by (elim conjE exE, intro conjI) auto

section \<open>Votes\<close>

text \<open>The votes in the messages of a node: an answer that grants one, and a request, which counts as a vote for the candidate itself.\<close>

fun vote_of :: "destination \<times> raft_message \<Rightarrow> (int \<times> int) option" where
  "vote_of (ToNode c, m) =
     (if msg_type m = REQUEST_VOTE_RESPONSE \<and> rvs_vote_result_term_granted (get_vote_response m) = 1
      then Some (rvs_term (get_vote_response m), c) else None)"
| "vote_of (ToAll, m) =
     (if msg_type m = REQUEST_VOTE_REQUEST
      then Some (rvq_term (get_vote_request m), rvq_candidate_id (get_vote_request m)) else None)"

definition votes_in :: "(destination \<times> raft_message) list \<Rightarrow> (int \<times> int) list" where
  "votes_in out = List.map_filter vote_of out"

lemma votes_in_simps [simp]:
  "votes_in [] = []" "votes_in (xs @ ys) = votes_in xs @ votes_in ys"
  by (simp_all add: votes_in_def map_filter_def)

lemma votes_in_single: "votes_in [x] = (case vote_of x of None \<Rightarrow> [] | Some v \<Rightarrow> [v])"
  by (simp add: votes_in_def map_filter_def split: option.split)

lemma append_request_no_vote: "list_all is_append_request out \<Longrightarrow> votes_in out = []"
proof (induction out)
  case (Cons x out)
  obtain d m where x: "x = (d, m)" by (cases x)
  with Cons.prems have "vote_of x = None" by (cases d) (auto simp: is_append_request_def message_types)
  with Cons show ?case using votes_in_simps(2) [of "[x]" out] by (simp add: votes_in_single)
qed simp

lemma response_types [simp]:
  "msg_type (append_response t f ok i) = APPEND_ENTRIES_RESPONSE"
  "msg_type (vote_response t g) = REQUEST_VOTE_RESPONSE"
  "msg_type (vote_request t c i lt) = REQUEST_VOTE_REQUEST"
  by (simp_all add: append_response_def vote_response_def vote_request_def load_defs msg_type_def fm_type_def)

lemma vote_contents [simp]:
  "rvs_term (get_vote_response (set_partition_id p (vote_response t g))) = t"
  "rvs_vote_result_term_granted (get_vote_response (set_partition_id p (vote_response t g))) = g"
  "rvq_term (get_vote_request (set_partition_id p (vote_request t c i lt))) = t"
  "rvq_candidate_id (get_vote_request (set_partition_id p (vote_request t c i lt))) = c"
  by (simp_all add: vote_response_def vote_request_def load_defs get_defs rvs_term_def rvs_vote_result_term_granted_def
      rvq_term_def rvq_candidate_id_def)

text \<open>Progress without a new vote: the vote of a term is not changed within the term.\<close>

definition quiet :: "world \<Rightarrow> world \<Rightarrow> bool" where
  "quiet s s' \<longleftrightarrow> progress s s' \<and> votes_in (sent s') = votes_in (sent s) \<and>
     (cur_term (node s') = cur_term (node s) \<longrightarrow> voted_for (node s') = voted_for (node s))"

lemma quiet_refl [simp]: "quiet s s"
  by (simp add: quiet_def)

lemma quiet_trans: "quiet s t \<Longrightarrow> quiet t u \<Longrightarrow> quiet s u"
  unfolding quiet_def using progress_trans [of s t u] by (auto simp: progress_def)

lemma quiet_progress: "quiet s s' \<Longrightarrow> progress s s'"
  by (simp add: quiet_def)

lemma quiet_delivered: "delivered s s' \<Longrightarrow> quiet s s'"
  by (auto simp: delivered_def quiet_def progress_def)

lemma quiet_committed: "committed s s' \<Longrightarrow> quiet s s'"
  by (auto simp: committed_def quiet_def progress_def)

lemma quiet_replicated: "replicated s s' \<Longrightarrow> quiet s s'"
  by (auto simp: replicated_def quiet_def progress_def append_request_no_vote)

lemma quiet_post:
  assumes "post_message env d m s = Inr s'" and "vote_of (d, set_partition_id (partition_id (node s)) m) = None"
  shows "quiet s s'"
  using post_message_Inr [OF assms(1)] assms(2) by (simp add: quiet_def progress_def votes_in_single)

lemma no_vote_in_append_request [simp]: "vote_of (d, set_partition_id p (append_request t l pi pt es lc)) = None"
  by (cases d) (simp_all add: message_types)

lemma votes_of_responses [simp]:
  "vote_of (ToNode c, set_partition_id p (append_response t f ok i)) = None"
  "vote_of (ToNode c, set_partition_id p (vote_response t g)) = (if g = 1 then Some (t, c) else None)"
  "vote_of (ToAll, set_partition_id p (vote_request t c i lt)) = Some (t, c)"
  by (simp_all add: message_types)

declare vote_of.simps [simp del]

section \<open>The handlers\<close>

lemma quiet_rejected: "append_entries_rejected env l s = Inr s' \<Longrightarrow> quiet s s'"
  by (auto simp: append_entries_rejected_def intro: quiet_post)

lemma quiet_update:
  assumes "\<And>n. node_id (f n) = node_id n" "\<And>n. total_nodes (f n) = total_nodes n" "\<And>n. partition_id (f n) = partition_id n"
    "\<And>n. log_entries (f n) = log_entries n" "\<And>n. commit_index (f n) = commit_index n"
    "cur_term (node s) \<le> cur_term (f (node s))"
    "cur_term (f (node s)) = cur_term (node s) \<Longrightarrow> voted_for (f (node s)) = voted_for (node s)"
  shows "quiet s (update_node f s)"
  using assms by (auto simp: quiet_def progress_def)

lemma quiet_append_request:
  assumes "handle_append_entries_request env req s = Inr s'"
  shows "quiet s s'"
proof (cases "aeq_term req < cur_term (node s)")
  case True
  let ?s = "update_node (\<lambda>n. n\<lparr>cur_leader := - 1\<rparr>) s"
  have "quiet s ?s" by (rule quiet_update) simp_all
  moreover have "quiet ?s s'" using assms True by (intro quiet_rejected) (simp add: handle_append_entries_request_def)
  ultimately show ?thesis by (rule quiet_trans)
next
  case False
  let ?s = "follow_leader env req s"
  have q1: "quiet s ?s" unfolding follow_leader_def by (rule quiet_update) (use False in simp_all)
  from assms False obtain in_sync where
    sync: "check_if_previous_log_in_sync (aeq_prev_log_term req) (aeq_prev_log_index req) (log_entries (node ?s)) = Inr in_sync"
    and rest: "(if \<not> in_sync then append_entries_rejected env (aeq_leader_id req) ?s
        else andThen (commit_from_leader env req ?s) (append_from_leader env req)) = Inr s'"
    by (auto simp: handle_append_entries_request_def Let_def)
  show ?thesis
  proof (cases in_sync)
    case False
    with rest quiet_rejected q1 show ?thesis by (auto intro: quiet_trans)
  next
    case True
    with rest obtain t where "commit_from_leader env req ?s = Inr t" and ap: "append_from_leader env req t = Inr s'" by auto
    then have com: "committed ?s t" by (simp add: commit_from_leader_frame)
    then have log: "log_entries (node t) = log_entries (node ?s)" by (auto simp: committed_def)
    from append_from_leader_Inr [OF ap] obtain log' where
      l: "append_log_entries (aeq_prev_log_index req) (aeq_entries req) (log_entries (node t)) = Inr log'"
      and s': "s' = t\<lparr>node := (node t)\<lparr>log_entries := log'\<rparr>, sent := sent t @ [(ToNode (aeq_leader_id req),
        set_partition_id (partition_id (node t)) (append_response (cur_term (node t)) (node_id (node t)) 1 (le_index (last log'))))]\<rparr>"
      by blast
    have "log' \<noteq> [] \<and> hd log' = hd (log_entries (node t))"
      using sync True log by (intro append_keeps_head [OF _ _ l]) (auto simp: check_sync_True)
    then have "quiet t s'" unfolding s' quiet_def progress_def by (simp add: votes_in_single)
    with q1 quiet_committed [OF com] show ?thesis by (blast intro: quiet_trans)
  qed
qed

lemma quiet_append_response:
  assumes "handle_append_entries_response env resp s = Inr s'"
  shows "quiet s s'"
proof -
  let ?f = "aes_follower_id resp" and ?i = "aes_last_index_synced resp"
  let ?s = "request_answered ?f s"
  have q1: "quiet s ?s"
    unfolding request_answered_def by (auto simp: Let_def split: prod.splits intro: quiet_update)
  from assms obtain t where
    t: "(if aes_append_result_success resp \<noteq> 0 then append_succeeded env ?f ?i ?s else Inr (append_failed resp ?f ?s)) = Inr t"
    and upd: "trigger_entry_update env ?f t = Inr s'"
    by (auto simp: handle_append_entries_response_def Let_def)
  have "quiet ?s t"
  proof (cases "aes_append_result_success resp \<noteq> 0")
    case True
    let ?s2 = "update_node (\<lambda>n. n\<lparr>matched_index := map_set ?f ?i (matched_index n)\<rparr>) ?s"
    from True t obtain u where u: "commit_from_majority env ?i ?s2 = Inr u"
      and t': "t = (let r = map_index 0 ?f (matched_index (node u)) in
        update_node (\<lambda>n. n\<lparr>matched_index := snd r, next_index := map_set ?f (fst r + 1) (next_index n)\<rparr>) u)"
      by (auto simp: append_succeeded_def case_prod_beta Let_def)
    have "quiet ?s ?s2" by (rule quiet_update) simp_all
    moreover have "quiet ?s2 u" by (rule quiet_committed [OF commit_from_majority_frame [OF u]])
    moreover have "quiet u t" unfolding t' Let_def by (rule quiet_update) simp_all
    ultimately show ?thesis by (blast intro: quiet_trans)
  next
    case False
    with t show ?thesis by (auto simp: append_failed_def Let_def split: if_splits prod.splits intro: quiet_update)
  qed
  with q1 quiet_replicated [OF trigger_entry_update_frame [OF upd]] show ?thesis by (blast intro: quiet_trans)
qed

lemma quiet_vote_response: "quiet s (handle_request_vote_response resp s)"
  by (auto simp: handle_request_vote_response_def Let_def quiet_def progress_def)

lemma quiet_add_log_entry:
  assumes "add_log_entry env e s = Inr s'"
  shows "quiet s s'"
proof -
  have "quiet s (update_node (\<lambda>n. n\<lparr>log_entries := log_entries n @ [e]\<rparr>) s)" by (simp add: quiet_def progress_def)
  then show ?thesis using quiet_replicated [OF add_log_entry_frame [OF assms]] by (rule quiet_trans)
qed

lemma quiet_open_queue:
  assumes "handle_client_open_queue env s = Inr s'"
  shows "quiet s s'"
proof -
  have q: "quiet t t'" if "reply_to_client env m t = Inr t'" for t t' m
    using reply_to_client_frame [OF that] by (auto simp: quiet_def progress_def)
  show ?thesis
  proof (cases "state (node s) = LEADER")
    case True
    with assms obtain t where "reply_to_client env (open_queue_response Status_SUCCESS [] None) s = Inr t"
        and "trigger_message_delivery env t = Inr s'"
      by (auto simp: handle_client_open_queue_def)
    then show ?thesis using q trigger_message_delivery_frame quiet_delivered quiet_trans by blast
  next
    case False
    with assms q show ?thesis by (simp add: handle_client_open_queue_def)
  qed
qed

text \<open>A step that casts a vote for \<open>c\<close> in the term it ends in.\<close>

definition votes_for :: "int \<Rightarrow> world \<Rightarrow> world \<Rightarrow> bool" where
  "votes_for c s s' \<longleftrightarrow> progress s s' \<and> votes_in (sent s') = votes_in (sent s) @ [(cur_term (node s'), c)] \<and>
     voted_for (node s') = c \<and>
     (cur_term (node s') = cur_term (node s) \<longrightarrow> voted_for (node s) = - 1 \<or> voted_for (node s) = c)"

lemma vote_request_step:
  assumes "handle_request_vote_request env req s = Inr s'"
  shows "quiet s s' \<or> votes_for (rvq_candidate_id req) s s'"
proof (cases "invalid_vote_request req (node s)")
  case True
  with assms show ?thesis by (auto simp: handle_request_vote_request_def intro: quiet_post)
next
  case False
  let ?s = "if rvq_term req > cur_term (node s) then update_node (\<lambda>n. n\<lparr>cur_term := rvq_term req, votes_collected := 0\<rparr>) s else s"
  let ?v = "update_node (\<lambda>n. n\<lparr>voted_for := rvq_candidate_id req\<rparr>) ?s"
  have tm: "cur_term (node ?s) = rvq_term req" using False by (auto simp: invalid_vote_request_def)
  have q: "quiet s ?s" by (auto intro: quiet_update)
  show ?thesis
  proof (cases "state (node ?s) = LEADER")
    case True
    with assms False q show ?thesis by (auto simp: handle_request_vote_request_def Let_def)
  next
    case cand: False
    then have "state (node ?s) = CANDIDATE \<or> state (node ?s) = FOLLOWER" using node_state.exhaust by blast
    with assms False have "post_message env (ToNode (rvq_candidate_id req)) (vote_response (rvq_term req) 1) ?v = Inr s'"
      by (simp add: handle_request_vote_request_def Let_def split: if_splits)
    from post_message_Inr [OF this] have s': "s' = ?v\<lparr>sent := sent s @ [(ToNode (rvq_candidate_id req),
        set_partition_id (partition_id (node s)) (vote_response (rvq_term req) 1))]\<rparr>"
      by simp
    have "votes_for (rvq_candidate_id req) s s'"
      using q tm False unfolding s' quiet_def progress_def votes_for_def
      by (auto simp: votes_in_single invalid_vote_request_def split: if_splits)
    then show ?thesis ..
  qed
qed

lemma send_vote_request_step:
  assumes "send_vote_request env s = Inr s'"
  shows "quiet s s' \<or> votes_for (node_id (node s)) s s'"
proof (cases "voted_for (node s) = - 1")
  case True
  with assms obtain e where
    "post_message env ToAll (vote_request (cur_term (node s)) (node_id (node s)) (le_index e) (le_term e))
       (update_node (\<lambda>n. n\<lparr>voted_for := node_id n, votes_collected := votes_collected n + 1\<rparr>) s) = Inr s'"
    by (auto simp: send_vote_request_def Let_def)
  from post_message_Inr [OF this] True show ?thesis
    by (simp add: votes_for_def progress_def votes_in_single)
next
  case False
  with assms show ?thesis by (simp add: send_vote_request_def)
qed

section \<open>Every step\<close>

text \<open>The ids of candidates are not negative; -1 stands for no vote.\<close>

fun event_ok :: "node_event \<Rightarrow> bool" where
  "event_ok (Receive m) \<longleftrightarrow>
     (if msg_type m = REQUEST_VOTE_REQUEST then 0 \<le> rvq_candidate_id (get_vote_request m) else True)"
| "event_ok _ \<longleftrightarrow> True"

lemma node_step_votes:
  assumes "node_step env ev s = Inr s'"
  shows "quiet s s' \<or> votes_for (node_id (node s)) s s' \<or>
    (\<exists>m. ev = Receive m \<and> msg_type m = REQUEST_VOTE_REQUEST \<and> votes_for (rvq_candidate_id (get_vote_request m)) s s')"
proof (cases ev)
  case (Receive m)
  with assms have "local_message_handler env m s = Inr s'" by simp
  then show ?thesis
    using vote_request_step [of env "get_vote_request m" s s'] Receive
    by (auto simp: local_message_handler_def handle_client_put_message_def handle_client_commit_message_def
        split: if_splits dest: quiet_append_request quiet_append_response quiet_open_queue quiet_add_log_entry
        intro: quiet_vote_response)
next
  case HeartbeatTimer
  have "quiet t (update_node (\<lambda>n. n\<lparr>pending_append_reqs := fold request_sent (other_nodes n) (pending_append_reqs n)\<rparr>) t)" for t
    by (rule quiet_update) simp_all
  with HeartbeatTimer assms show ?thesis
    by (auto simp: send_heartbeat_def split: if_splits dest!: quiet_post intro: quiet_trans)
next
  case VoteTimer
  with assms show ?thesis
    by (auto simp: check_heartbeat_def Let_def quiet_def progress_def split: if_splits)
next
  case VoteDelay
  have t: "quiet s (s\<lparr>vote_timers := k\<rparr>)" for k by (simp add: quiet_def progress_def)
  have "votes_for c (s\<lparr>vote_timers := k\<rparr>) s' \<Longrightarrow> votes_for c s s'" for c k
    by (simp add: votes_for_def progress_def)
  with VoteDelay assms send_vote_request_step [of env "s\<lparr>vote_timers := vote_timers s - 1\<rparr>" s'] t show ?thesis
    by (auto simp: vote_delay_expired_def split: if_splits intro: quiet_trans)
next
  case (ConsumerLost c)
  let ?s = "update_node (\<lambda>n. n\<lparr>queue := snd (handle_client_disconnected c (queue n))\<rparr>) s"
  have "quiet s ?s" by (rule quiet_update) simp_all
  moreover from ConsumerLost assms have "quiet ?s s'"
    by (auto simp: consumer_disconnected_def intro: quiet_delivered dest: trigger_message_delivery_frame)
  ultimately show ?thesis by (blast intro: quiet_trans)
next
  case (ClientsChanged cm)
  with assms show ?thesis by (auto simp: quiet_def progress_def)
qed

lemma node_step_progress: "node_step env ev s = Inr s' \<Longrightarrow> progress s s'"
  using node_step_votes [of env ev s s'] by (auto simp: quiet_progress votes_for_def)

section \<open>Runs\<close>

inductive node_run :: "wire \<Rightarrow> server_configuration \<Rightarrow> world \<Rightarrow> world \<Rightarrow> bool" for w cfg where
  run_start: "node_run w cfg s s"
| run_step: "node_run w cfg s t \<Longrightarrow> env_wire env = w \<Longrightarrow> server_config env = cfg \<Longrightarrow> event_ok ev \<Longrightarrow>
    node_step env ev t = Inr u \<Longrightarrow> node_run w cfg s u"

inductive_cases node_runE: "node_run w cfg s u"

text \<open>A run given by its events.\<close>

definition run_events :: "(node_env \<times> node_event) list \<Rightarrow> world \<Rightarrow> cpp_error + world" where
  "run_events evs s = forEach (\<lambda>(env, ev). node_step env ev) evs s"

lemma run_events_run:
  assumes "run_events evs s = Inr u"
    and "list_all (\<lambda>(env, ev). env_wire env = w \<and> server_config env = cfg \<and> event_ok ev) evs"
  shows "node_run w cfg s u"
  using assms(1) unfolding run_events_def
  by (rule forEach_keeps [rotated, where P = "node_run w cfg s"])
    (use assms(2) in \<open>auto simp: list_all_iff intro: node_run.intros\<close>)

lemma node_run_progress: "node_run w cfg s u \<Longrightarrow> progress s u"
  by (induction rule: node_run.induct) (auto intro: progress_trans node_step_progress)

text \<open>The votes cast so far: none for a later term, and in the current term only the one recorded in \<open>voted_for_\<close>.\<close>

definition vote_inv :: "world \<Rightarrow> bool" where
  "vote_inv s \<longleftrightarrow>
     (\<forall>t c. (t, c) \<in> set (votes_in (sent s)) \<longrightarrow> t \<le> cur_term (node s) \<and> (t = cur_term (node s) \<longrightarrow> voted_for (node s) = c) \<and> 0 \<le> c) \<and>
     (\<forall>t c d. (t, c) \<in> set (votes_in (sent s)) \<longrightarrow> (t, d) \<in> set (votes_in (sent s)) \<longrightarrow> c = d)"

lemma vote_inv_quiet: "vote_inv s \<Longrightarrow> quiet s s' \<Longrightarrow> vote_inv s'"
  by (fastforce simp: vote_inv_def quiet_def progress_def)

lemma vote_inv_votes: "vote_inv s \<Longrightarrow> votes_for c s s' \<Longrightarrow> 0 \<le> c \<Longrightarrow> vote_inv s'"
  by (fastforce simp: vote_inv_def votes_for_def progress_def)

lemma node_run_vote_inv:
  assumes "node_run w cfg s u" and "vote_inv s" and "0 \<le> node_id (node s)"
  shows "vote_inv u"
  using assms
proof (induction rule: node_run.induct)
  case (run_step s t env ev u)
  then have inv: "vote_inv t" and id: "0 \<le> node_id (node t)"
    using node_run_progress [of w cfg s t] by (auto simp: progress_def)
  from node_step_votes [OF run_step.hyps(5)] run_step.hyps(4) show ?case
    using vote_inv_quiet [OF inv] vote_inv_votes [OF inv] id by auto
qed

end
