(* ===== verification/Cluster_Node_Messages.thy ===== *)
theory Cluster_Node_Messages
  imports Cluster_Node_Frame
begin

text \<open>
  The messages a node sends: those that carry no client data always fit in a frame, so sending them never fails; an append
  request and a delivery fit as long as the message of the client leaves room for the fields around it.
\<close>

text \<open>The integers of a message are in the range of their C++ types.\<close>

definition ints32 :: "int list \<Rightarrow> bool" where
  "ints32 vs \<longleftrightarrow> list_all in_int32 vs"

lemmas message_builder_defs = append_request_def append_response_def vote_request_def vote_response_def
  open_queue_response_def server_send_def load_defs

context wire_format
begin

lemma sub_size_bounds:
  "RequestVoteRequest_ByteSizeLong w (get_vote_request (vote_request t c i lt)) \<le> 44"
  "RequestVoteResponse_ByteSizeLong w (get_vote_response (vote_response t g)) \<le> 22"
  "AppendEntriesResponse_ByteSizeLong w (get_append_response (append_response t f ok i)) \<le> 44"
  "AppendEntriesRequest_ByteSizeLong w (get_append_request (append_request t l pi pt [] lc)) \<le> 55"
  using varint_sizes(1) [of t] varint_sizes(1) [of c] varint_sizes(1) [of i] varint_sizes(1) [of lt] varint_sizes(1) [of g]
    varint_sizes(1) [of f] varint_sizes(1) [of ok] varint_sizes(1) [of l] varint_sizes(1) [of pi] varint_sizes(1) [of pt]
    varint_sizes(1) [of lc]
  by (simp_all add: message_builder_defs get_defs byte_size_defs message_getter_defs message_new_defs)

text \<open>The frame around one submessage: the type, the partition and the length.\<close>

lemma wrapper_size:
  "FlowMessage_ByteSizeLong w (set_partition_id p (vote_request t c i lt)) \<le> 100"
  "FlowMessage_ByteSizeLong w (set_partition_id p (vote_response t g)) \<le> 100"
  "FlowMessage_ByteSizeLong w (set_partition_id p (append_response t f ok i)) \<le> 100"
  "FlowMessage_ByteSizeLong w (set_partition_id p (append_request t l pi pt [] lc)) \<le> 100"
proof -
  have frame: "LengthDelimitedSize w k \<le> 60" if "k \<le> 55" for k
    using length_sizes(2) [of k] that by simp
  show "FlowMessage_ByteSizeLong w (set_partition_id p (vote_request t c i lt)) \<le> 100"
    "FlowMessage_ByteSizeLong w (set_partition_id p (vote_response t g)) \<le> 100"
    "FlowMessage_ByteSizeLong w (set_partition_id p (append_response t f ok i)) \<le> 100"
    "FlowMessage_ByteSizeLong w (set_partition_id p (append_request t l pi pt [] lc)) \<le> 100"
    using varint_sizes(2) [of p] varint_sizes(3) [of REQUEST_VOTE_REQUEST] varint_sizes(3) [of REQUEST_VOTE_RESPONSE]
      varint_sizes(3) [of APPEND_ENTRIES_RESPONSE] varint_sizes(3) [of APPEND_ENTRIES_REQUEST]
      frame [OF order_trans [OF sub_size_bounds(1) [of t c i lt]]] frame [OF order_trans [OF sub_size_bounds(2) [of t g]]]
      frame [OF order_trans [OF sub_size_bounds(3) [of t f ok i]]] frame [OF sub_size_bounds(4) [of t l pi pt lc]]
    by (simp_all add: FlowMessage_ByteSizeLong_def message_builder_defs get_defs FlowMessage_new_def)
qed

lemma control_fits:
  "in_int64 p \<Longrightarrow> ints32 [t, c, i, lt] \<Longrightarrow> FlowMessage_fits w (set_partition_id p (vote_request t c i lt))"
  "in_int64 p \<Longrightarrow> ints32 [t, g] \<Longrightarrow> FlowMessage_fits w (set_partition_id p (vote_response t g))"
  "in_int64 p \<Longrightarrow> ints32 [t, f, ok, i] \<Longrightarrow> FlowMessage_fits w (set_partition_id p (append_response t f ok i))"
  "in_int64 p \<Longrightarrow> ints32 [t, l, pi, pt, lc] \<Longrightarrow> FlowMessage_fits w (set_partition_id p (append_request t l pi pt [] lc))"
  using sub_size_bounds(1) [of t c i lt] sub_size_bounds(2) [of t g] sub_size_bounds(3) [of t f ok i]
    sub_size_bounds(4) [of t l pi pt lc]
  by (simp_all add: fits_defs message_builder_defs get_defs message_new_defs MessageType_IsValid_def message_types ints32_def)

lemma post_message_ok:
  assumes "env_wire env = w" and "FlowMessage_fits w (set_partition_id (partition_id (node s)) m)"
    and "FlowMessage_ByteSizeLong w (set_partition_id (partition_id (node s)) m) \<le> MAX_BODY_LENGTH"
  shows "post_message env d m s = Inr (s\<lparr>sent := sent s @ [(d, set_partition_id (partition_id (node s)) m)]\<rparr>)"
  using serialize_as_message_ok [OF assms(2,3)] assms(1)
  by (auto simp: post_message_def serialize_raft_message_def serialize_as_message_def Let_def)

lemma post_control:
  assumes "env_wire env = w" and "in_int64 (partition_id (node s))"
    and "(\<exists>t c i lt. m = vote_request t c i lt \<and> ints32 [t, c, i, lt]) \<or> (\<exists>t g. m = vote_response t g \<and> ints32 [t, g]) \<or>
      (\<exists>t f ok i. m = append_response t f ok i \<and> ints32 [t, f, ok, i]) \<or>
      (\<exists>t l pi pt lc. m = append_request t l pi pt [] lc \<and> ints32 [t, l, pi, pt, lc])"
  shows "post_message env d m s = Inr (s\<lparr>sent := sent s @ [(d, set_partition_id (partition_id (node s)) m)]\<rparr>)"
proof (rule post_message_ok [OF assms(1)])
  show "FlowMessage_fits w (set_partition_id (partition_id (node s)) m)"
    using assms(2,3) control_fits by auto
  have "FlowMessage_ByteSizeLong w (set_partition_id (partition_id (node s)) m) \<le> 100"
    using assms(3) wrapper_size by auto
  then show "FlowMessage_ByteSizeLong w (set_partition_id (partition_id (node s)) m) \<le> MAX_BODY_LENGTH"
    by (simp add: MAX_BODY_LENGTH_def)
qed

lemma post_control_messages:
  assumes "env_wire env = w" and "in_int64 (partition_id (node s))"
  shows "ints32 [t, c, i, lt] \<Longrightarrow> post_message env d (vote_request t c i lt) s =
      Inr (s\<lparr>sent := sent s @ [(d, set_partition_id (partition_id (node s)) (vote_request t c i lt))]\<rparr>)"
    and "ints32 [t, g] \<Longrightarrow> post_message env d (vote_response t g) s =
      Inr (s\<lparr>sent := sent s @ [(d, set_partition_id (partition_id (node s)) (vote_response t g))]\<rparr>)"
    and "ints32 [t, f, ok, i] \<Longrightarrow> post_message env d (append_response t f ok i) s =
      Inr (s\<lparr>sent := sent s @ [(d, set_partition_id (partition_id (node s)) (append_response t f ok i))]\<rparr>)"
    and "ints32 [t, l, pi, pt, lc] \<Longrightarrow> post_message env d (append_request t l pi pt [] lc) s =
      Inr (s\<lparr>sent := sent s @ [(d, set_partition_id (partition_id (node s)) (append_request t l pi pt [] lc))]\<rparr>)"
  by (rule post_control [OF assms]; blast)+

text \<open>A message of a client leaves room for the fields around it.\<close>

lemma server_send_size:
  assumes "length msg + 100 \<le> MAX_BODY_LENGTH"
  shows "ServerSendMessage_ByteSizeLong w (get_server_send_essage (server_send m msg)) \<le> length msg + 17"
    and "FlowMessage_ByteSizeLong w (set_partition_id p (server_send m msg)) \<le> MAX_BODY_LENGTH"
proof -
  have len: "length msg < 2 ^ 31" using assms by (simp add: MAX_BODY_LENGTH_def)
  show sub: "ServerSendMessage_ByteSizeLong w (get_server_send_essage (server_send m msg)) \<le> length msg + 17"
    using length_sizes(2) [OF len] varint_sizes(2) [of m]
    by (simp add: message_builder_defs get_defs byte_size_defs message_getter_defs message_new_defs)
  have "LengthDelimitedSize w k \<le> k + 5" if "k \<le> length msg + 17" for k
    using length_sizes(2) [of k] that len assms by (simp add: MAX_BODY_LENGTH_def)
  from this [OF sub] sub show "FlowMessage_ByteSizeLong w (set_partition_id p (server_send m msg)) \<le> MAX_BODY_LENGTH"
    using varint_sizes(2) [of p] varint_sizes(3) [of SERVER_SEND_MESSAGE] assms
    by (simp add: FlowMessage_ByteSizeLong_def message_builder_defs get_defs FlowMessage_new_def)
qed

lemma server_send_ok:
  assumes "in_int64 (partition_id n)" and "in_int64 m" and "length msg + 100 \<le> MAX_BODY_LENGTH"
  shows "\<exists>buf. serialize_raft_message w n (server_send m msg) = Inr (set_partition_id (partition_id n) (server_send m msg), buf)"
proof -
  have "FlowMessage_fits w (set_partition_id (partition_id n) (server_send m msg))"
    using assms server_send_size(1) [OF assms(3), of m]
    by (simp add: fits_defs message_builder_defs get_defs message_new_defs MessageType_IsValid_def message_types MAX_BODY_LENGTH_def)
  from serialize_as_message_ok [OF this server_send_size(2) [OF assms(3)]] show ?thesis
    by (auto simp: serialize_raft_message_def serialize_as_message_def Let_def)
qed

end

section \<open>A cluster of three nodes\<close>

text \<open>The concrete worlds of the examples: node \<open>k\<close> of a cluster of three, just constructed on an empty disk, without clients.\<close>

definition sample_env :: node_env where
  "sample_env = \<lparr>env_wire = varint_wire, server_config = sample_config, now = 100, random_id = 42\<rparr>"

definition sample_node :: "int \<Rightarrow> cluster_node" where
  "sample_node k = initial_node \<lparr>cfg_partition_id = 0, cfg_node_id = k, cfg_total_nodes = 3\<rparr> (ClusterNodeStorage_new 0 0 k) 0 0"

definition start_world :: "cluster_node \<Rightarrow> world" where
  "start_world n = \<lparr>node = n, clients = ClientManager_new, sent = [], vote_timers = 0\<rparr>"

lemma sample_env_fields [simp]:
  "env_wire sample_env = varint_wire" "server_config sample_env = sample_config" "now sample_env = 100" "random_id sample_env = 42"
  by (simp_all add: sample_env_def)

lemma start_world_fields [simp]:
  "node (start_world n) = n" "clients (start_world n) = ClientManager_new" "sent (start_world n) = []"
  "vote_timers (start_world n) = 0"
  by (simp_all add: start_world_def)

lemma sample_node_fields [simp]:
  "partition_id (sample_node k) = 0" "node_id (sample_node k) = k" "total_nodes (sample_node k) = 3" "state (sample_node k) = CANDIDATE"
  "cur_term (sample_node k) = 0" "voted_for (sample_node k) = - 1" "votes_collected (sample_node k) = 0"
  "log_entries (sample_node k) = [sentinel]" "commit_index (sample_node k) = 0"
  by (simp_all add: sample_node_def initial_node_def Let_def)

lemma sentinel_fields [simp]: "le_index sentinel = 0" "le_term sentinel = 0"
  by (simp_all add: sentinel_def le_index_def le_term_def)

lemma ints32_sample [simp]: "ints32 [] \<longleftrightarrow> True" "ints32 (v # vs) \<longleftrightarrow> in_int32 v \<and> ints32 vs"
  by (simp_all add: ints32_def)

lemma small_ints [simp]: "in_int32 0" "in_int32 1" "in_int32 (numeral k) \<longleftrightarrow> (numeral k :: int) < 2 ^ 31"
  "in_int32 (- 1)" "in_int64 0" "in_int64 1"
  by (simp_all add: in_int32_def in_int64_def)

lemmas post_sample = varint.post_control_messages [of sample_env, OF sample_env_fields(1)]

end

