(* ===== verification/Cluster_Node_Election.thy ===== *)
theory Cluster_Node_Election
  imports Cluster_Node_Votes Cluster_Node_Messages
begin

text \<open>
  The theorems on terms, votes and leadership of a node, and the concrete runs that show where the code departs from Raft.
\<close>

text \<open>
  Over every run of a node its term and its commit index never decrease, its identity and the first entry of its log stay, and what it
  sent stays sent.
\<close>

lemma node_run_is_monotone:
  assumes "node_run w cfg s u"
  shows "cur_term (node s) \<le> cur_term (node u) \<and> commit_index (node s) \<le> commit_index (node u) \<and>
    node_id (node u) = node_id (node s) \<and> (\<exists>out. sent u = sent s @ out) \<and>
    (log_entries (node s) \<noteq> [] \<longrightarrow> log_entries (node u) \<noteq> [] \<and> hd (log_entries (node u)) = hd (log_entries (node s)))"
  using node_run_progress [OF assms] by (simp add: progress_def)

text \<open>A node that is asked for its vote by two candidates of term 1.\<close>

definition two_requests :: "(node_env \<times> node_event) list" where
  "two_requests = [(sample_env, Receive (vote_request 1 0 0 0)), (sample_env, Receive (vote_request 1 2 0 0))]"

lemma vote_request_fields [simp]:
  "rvq_term (get_vote_request (vote_request t c i lt)) = t"
  "rvq_candidate_id (get_vote_request (vote_request t c i lt)) = c"
  "rvs_term (get_vote_response (vote_response t g)) = t"
  "rvs_vote_result_term_granted (get_vote_response (vote_response t g)) = g"
  by (simp_all add: vote_request_def vote_response_def load_defs get_defs message_getter_defs)

lemmas run_simps = run_events_def local_message_handler_def message_types handle_request_vote_request_def
  handle_request_vote_response_def invalid_vote_request_def post_sample Let_def log_back_def timer_defs

lemma two_requests_run:
  "\<exists>u. run_events two_requests (start_world (sample_node 1)) = Inr u \<and> cur_term (node u) = 1 \<and>
     votes_in (sent u) = [(1, 0)] \<and> hd (log_entries (node u)) = sentinel"
  by (simp add: run_simps two_requests_def votes_in_def map_filter_def del: andThen_Inr)

lemma two_requests_node_run:
  "run_events two_requests (start_world (sample_node 1)) = Inr u \<Longrightarrow>
   node_run varint_wire sample_config (start_world (sample_node 1)) u"
  by (erule run_events_run) (simp add: two_requests_def message_types)

text \<open>
  C6: a node votes for at most one candidate in a term, over every run from a node that has not voted: two votes it cast (answers that grant a
  vote and its own requests) in the same term name the same candidate.
\<close>

theorem one_vote_per_term:
  assumes "node_run w cfg (start_world n) u" and "0 \<le> node_id n"
    and "(t, c) \<in> set (votes_in (sent u))" and "(t, d) \<in> set (votes_in (sent u))"
  shows "c = d"
proof -
  have "vote_inv (start_world n)" by (simp add: vote_inv_def)
  with assms(1,2) have "vote_inv u" by (auto intro: node_run_vote_inv)
  with assms(3,4) show ?thesis unfolding vote_inv_def by blast
qed

theorem one_vote_per_term_witness:
  "\<exists>u. node_run varint_wire sample_config (start_world (sample_node 1)) u \<and> (1, 0) \<in> set (votes_in (sent u)) \<and>
     (1, 2) \<notin> set (votes_in (sent u))"
proof -
  obtain u where u: "run_events two_requests (start_world (sample_node 1)) = Inr u" "votes_in (sent u) = [(1, 0)]"
    using two_requests_run by blast
  note run = two_requests_node_run [OF u(1)]
  have "(1, 2) \<notin> set (votes_in (sent u))"
    using one_vote_per_term [OF run, of 1 0 2] u(2) by auto
  with run u(2) show ?thesis by auto
qed

lemma delivered_state: "delivered s s' \<Longrightarrow> state (node s') = state (node s)"
  by (auto simp: delivered_def)

lemma committed_state: "committed s s' \<Longrightarrow> state (node s') = state (node s)"
  by (auto simp: committed_def)

lemma replicated_state: "replicated s s' \<Longrightarrow> state (node s') = state (node s)"
  by (auto simp: replicated_def)

lemma post_message_state: "post_message env d m s = Inr s' \<Longrightarrow> node s' = node s"
  by (auto dest: post_message_Inr)

lemma append_request_no_leader:
  "handle_append_entries_request env req s = Inr s' \<Longrightarrow> state (node s') = LEADER \<Longrightarrow> state (node s) = LEADER"
  by (auto simp: handle_append_entries_request_def append_entries_rejected_def follow_leader_def Let_def
      split: if_splits dest!: post_message_state commit_from_leader_frame append_from_leader_Inr committed_state)

lemma append_response_no_leader:
  assumes "handle_append_entries_response env resp s = Inr s'" and "state (node s') = LEADER"
  shows "state (node s) = LEADER"
proof -
  have "state (node (request_answered f s)) = state (node s)" "state (node (append_failed resp f s)) = state (node s)" for f s
    by (simp_all add: request_answered_def append_failed_def case_prod_beta Let_def)
  moreover have "state (node t') = state (node t)" if "append_succeeded env f i t = Inr t'" for f i t t'
    using that by (auto simp: append_succeeded_def case_prod_beta Let_def dest!: commit_from_majority_frame committed_state)
  ultimately show ?thesis
    using assms by (auto simp: handle_append_entries_response_def Let_def split: if_splits dest!: trigger_entry_update_frame replicated_state)
qed

lemma vote_request_no_leader:
  "handle_request_vote_request env req s = Inr s' \<Longrightarrow> state (node s') = LEADER \<Longrightarrow> state (node s) = LEADER"
  by (auto simp: handle_request_vote_request_def Let_def split: if_splits dest!: post_message_state)

lemma client_no_leader:
  "add_log_entry env e s = Inr s' \<Longrightarrow> state (node s') = state (node s)"
  "handle_client_open_queue env s = Inr s' \<Longrightarrow> state (node s') = state (node s)"
  by (auto simp: handle_client_open_queue_def split: if_splits
      dest!: add_log_entry_frame replicated_state reply_to_client_frame trigger_message_delivery_frame delivered_state)

text \<open>
  A node becomes leader only as a candidate that receives a granted vote of its own or a later term, and only when the votes it has collected are a
  majority of the cluster.
\<close>

lemma leader_by_majority:
  assumes "node_step env ev s = Inr s'" and "state (node s) \<noteq> LEADER" and "state (node s') = LEADER"
  shows "\<exists>m. ev = Receive m \<and> msg_type m = REQUEST_VOTE_RESPONSE \<and> state (node s) = CANDIDATE \<and>
    rvs_vote_result_term_granted (get_vote_response m) \<noteq> 0 \<and> rvs_term (get_vote_response m) \<ge> cur_term (node s) \<and>
    cur_term (node s') = rvs_term (get_vote_response m) \<and>
    2 * votes_collected (node s') \<ge> total_nodes (node s') + 1 \<and> votes_collected (node s') \<le> votes_collected (node s) + 1"
proof -
  have other: "\<not> (\<exists>m. ev = Receive m \<and> msg_type m = REQUEST_VOTE_RESPONSE) \<Longrightarrow> state (node s) = LEADER"
    using assms(1,3)
    by (cases ev)
      (auto simp: local_message_handler_def handle_client_put_message_def handle_client_commit_message_def client_no_leader
        send_heartbeat_def check_heartbeat_def vote_delay_expired_def send_vote_request_def consumer_disconnected_def Let_def
        split: if_splits dest: append_request_no_leader append_response_no_leader vote_request_no_leader
        dest!: post_message_state trigger_message_delivery_frame delivered_state)
  with assms(2) obtain m where m: "ev = Receive m" "msg_type m = REQUEST_VOTE_RESPONSE" by blast
  with assms(1) have s': "s' = handle_request_vote_response (get_vote_response m) s"
    by (simp add: local_message_handler_def message_types)
  have half: "v > n div 2 \<Longrightarrow> 2 * v \<ge> n + 1" for v n :: int by linarith
  show ?thesis
    using assms(2,3) m unfolding s' handle_request_vote_response_def
    by (auto simp: Let_def half split: if_splits intro!: node_state.exhaust [of "state (node s)"])
qed

text \<open>The node of a candidate that has voted for itself in term 1 and receives one more vote.\<close>

definition candidate_run :: "(node_env \<times> node_event) list" where
  "candidate_run = [(sample_env, VoteTimer), (sample_env, VoteDelay)]"

lemma candidate_runs:
  "\<exists>u. run_events candidate_run (start_world (sample_node 0)) = Inr u \<and> state (node u) = CANDIDATE \<and> cur_term (node u) = 1 \<and>
     votes_collected (node u) = 1 \<and> total_nodes (node u) = 3 \<and> sent u = [(ToAll, set_partition_id 0 (vote_request 1 0 0 0))]"
  by (simp add: run_simps candidate_run_def del: andThen_Inr)

text \<open>
  A leader that is asked for its vote in a later term takes over that term and stays leader, without an answer: \<open>REQUEST_VOTE_REQUEST\<close>
  never converts it to a follower.
\<close>

lemma leader_keeps_leading_in_later_term:
  assumes "state (node s) = LEADER" and "rvq_term (get_vote_request m) > cur_term (node s)" and "msg_type m = REQUEST_VOTE_REQUEST"
  shows "local_message_handler env m s =
    Inr (update_node (\<lambda>n. n\<lparr>cur_term := rvq_term (get_vote_request m), votes_collected := 0\<rparr>) s)"
  using assms by (simp add: local_message_handler_def message_types handle_request_vote_request_def invalid_vote_request_def)

text \<open>
  The runs of three nodes in which node 0 wins term 1 and node 2 then wins term 2. Every message received was sent by the node it comes from.
\<close>

definition request_of :: "int \<Rightarrow> int \<Rightarrow> raft_message" where
  "request_of t c = set_partition_id 0 (vote_request t c 0 0)"

definition grant_of :: "int \<Rightarrow> raft_message" where
  "grant_of t = set_partition_id 0 (vote_response t 1)"

definition run_of_node0 :: "(node_env \<times> node_event) list" where
  "run_of_node0 = map (Pair sample_env) [VoteTimer, VoteDelay, Receive (grant_of 1), Receive (request_of 2 2)]"

definition run_of_node1 :: "(node_env \<times> node_event) list" where
  "run_of_node1 = map (Pair sample_env) [Receive (request_of 1 0), Receive (request_of 2 2)]"

definition run_of_node2 :: "(node_env \<times> node_event) list" where
  "run_of_node2 = map (Pair sample_env) [VoteTimer, VoteTimer, VoteDelay, Receive (grant_of 2)]"


text \<open>
  A node grants its vote whatever the log of the candidate: the last index and term in the request are not looked at.
\<close>

lemma vote_ignores_candidate_log:
  "handle_request_vote_request env (req\<lparr>rvq_last_log_index_fld := i, rvq_last_log_term_fld := t\<rparr>) s =
   handle_request_vote_request env req s"
  by (simp add: handle_request_vote_request_def invalid_vote_request_def rvq_term_def rvq_candidate_id_def)

text \<open>
  A restarted node has term 0 and no vote, whatever is on its disk: neither is persisted, so a node that crashed can vote a second
  time in a term it already voted in.
\<close>

lemma restart_forgets_term_and_vote:
  assumes "ClusterNode_new w cfg storage heart_beat votes fs = Inr n"
  shows "cur_term n = 0 \<and> voted_for n = - 1 \<and> state n = CANDIDATE"
proof -
  from assms obtain log n' where n': "n' = fold commit_log_entry [1..int (length log) - 1]
      ((initial_node cfg storage heart_beat votes)\<lparr>log_entries := log\<rparr>)" and n: "n = n' \<or> (\<exists>i. n = n'\<lparr>commit_index := i\<rparr>)"
    by (auto simp: ClusterNode_new_def Let_def case_prod_beta split: if_splits)
  obtain q where "n' = ((initial_node cfg storage heart_beat votes)\<lparr>log_entries := log\<rparr>)\<lparr>queue := q\<rparr>"
    using commit_all_frame n' by metis
  with n show ?thesis by (auto simp: initial_node_def Let_def)
qed

end
