(* ===== verification/Cluster_Elections.thy ===== *)
theory Cluster_Elections
  imports Cluster_Node_Election
begin

text \<open>
  The nodes of one partition as a cluster: \<open>n\<close> nodes with ids \<open>0, ..., n - 1\<close> that exchange messages over connections which deliver each message at most once, in any order, and may lose it.
  Requests of clients and the timers come from outside. In every run of a cluster at most one node is elected in each term.
\<close>

section \<open>The vote messages of a step\<close>

definition is_request :: "int \<Rightarrow> raft_message \<Rightarrow> bool" where
  "is_request t m \<longleftrightarrow> msg_type m = REQUEST_VOTE_REQUEST \<and> rvq_term (get_vote_request m) = t"

definition is_grant :: "int \<Rightarrow> raft_message \<Rightarrow> bool" where
  "is_grant t m \<longleftrightarrow>
     msg_type m = REQUEST_VOTE_RESPONSE \<and> rvs_term (get_vote_response m) = t \<and> rvs_vote_result_term_granted (get_vote_response m) = 1"

definition vote_message :: "destination \<times> raft_message \<Rightarrow> bool" where
  "vote_message x \<longleftrightarrow>
     msg_type (snd x) = REQUEST_VOTE_REQUEST \<or>
     msg_type (snd x) = REQUEST_VOTE_RESPONSE \<and> rvs_vote_result_term_granted (get_vote_response (snd x)) \<noteq> 0"

definition traffic :: "(destination \<times> raft_message) list \<Rightarrow> (destination \<times> raft_message) list" where
  "traffic out = filter vote_message out"

lemma traffic_simps [simp]: "traffic [] = []" "traffic (xs @ ys) = traffic xs @ traffic ys"
  "traffic (x # xs) = (if vote_message x then x # traffic xs else traffic xs)"
  by (simp_all add: traffic_def)

text \<open>A step that concerns no vote.\<close>

definition silent :: "world \<Rightarrow> world \<Rightarrow> bool" where
  "silent s s' \<longleftrightarrow>
     (\<exists>out. sent s' = sent s @ out \<and> traffic out = []) \<and> votes_collected (node s') = votes_collected (node s) \<and>
     voted_for (node s') = voted_for (node s) \<and> vote_timers s' = vote_timers s \<and> cur_term (node s) \<le> cur_term (node s') \<and>
     (state (node s') = state (node s) \<or> state (node s') = FOLLOWER)"

lemma silent_refl [simp]: "silent s s"
  by (simp add: silent_def)

lemma silent_trans: "silent s t \<Longrightarrow> silent t u \<Longrightarrow> silent s u"
  unfolding silent_def by (elim conjE exE, intro conjI) auto

lemma silent_delivered: "delivered s s' \<Longrightarrow> silent s s'"
  by (auto simp: delivered_def silent_def)

lemma silent_committed: "committed s s' \<Longrightarrow> silent s s'"
  by (auto simp: committed_def silent_def)

lemma append_requests_silent: "list_all is_append_request out \<Longrightarrow> traffic out = []"
  by (induction out) (auto simp: is_append_request_def vote_message_def message_types)

lemma silent_replicated: "replicated s s' \<Longrightarrow> silent s s'"
  by (auto simp: replicated_def silent_def append_requests_silent)

lemma silent_post:
  "post_message env d m s = Inr s' \<Longrightarrow> \<not> vote_message (d, set_partition_id (partition_id (node s)) m) \<Longrightarrow> silent s s'"
  by (auto simp: silent_def dest!: post_message_Inr)

lemma silent_update:
  assumes "votes_collected (f (node s)) = votes_collected (node s)" "voted_for (f (node s)) = voted_for (node s)"
    "cur_term (node s) \<le> cur_term (f (node s))" "state (f (node s)) = state (node s) \<or> state (f (node s)) = FOLLOWER"
  shows "silent s (update_node f s)"
  using assms by (simp add: silent_def)

lemma no_vote_messages [simp]:
  "\<not> vote_message (d, set_partition_id p (append_request t l pi pt es lc))"
  "\<not> vote_message (d, set_partition_id p (append_response t f ok i))"
  "\<not> vote_message (d, set_partition_id p (vote_response t 0))"
  by (simp_all add: vote_message_def message_types)

lemma silent_rejected: "append_entries_rejected env l s = Inr s' \<Longrightarrow> silent s s'"
  by (auto simp: append_entries_rejected_def intro: silent_post)

lemma silent_append_request:
  assumes "handle_append_entries_request env req s = Inr s'"
  shows "silent s s'"
proof (cases "aeq_term req < cur_term (node s)")
  case True
  let ?s = "update_node (\<lambda>n. n\<lparr>cur_leader := - 1\<rparr>) s"
  have "silent s ?s" by (rule silent_update) simp_all
  moreover have "silent ?s s'" using assms True by (intro silent_rejected) (simp add: handle_append_entries_request_def)
  ultimately show ?thesis by (rule silent_trans)
next
  case False
  let ?s = "follow_leader env req s"
  have q1: "silent s ?s" unfolding follow_leader_def by (rule silent_update) (use False in simp_all)
  from assms False obtain in_sync where
    rest: "(if \<not> in_sync then append_entries_rejected env (aeq_leader_id req) ?s
        else andThen (commit_from_leader env req ?s) (append_from_leader env req)) = Inr s'"
    by (auto simp: handle_append_entries_request_def Let_def)
  show ?thesis
  proof (cases in_sync)
    case False
    with rest silent_rejected q1 show ?thesis by (auto intro: silent_trans)
  next
    case True
    with rest obtain t where "commit_from_leader env req ?s = Inr t" and ap: "append_from_leader env req t = Inr s'" by auto
    then have com: "silent ?s t" by (simp add: silent_committed commit_from_leader_frame)
    from append_from_leader_Inr [OF ap] have "silent t s'" by (auto simp: silent_def)
    with q1 com show ?thesis by (blast intro: silent_trans)
  qed
qed

lemma silent_append_response:
  assumes "handle_append_entries_response env resp s = Inr s'"
  shows "silent s s'"
proof -
  let ?f = "aes_follower_id resp" and ?i = "aes_last_index_synced resp"
  let ?s = "request_answered ?f s"
  have q1: "silent s ?s"
    unfolding request_answered_def by (auto simp: Let_def split: prod.splits intro: silent_update)
  from assms obtain t where
    t: "(if aes_append_result_success resp \<noteq> 0 then append_succeeded env ?f ?i ?s else Inr (append_failed resp ?f ?s)) = Inr t"
    and upd: "trigger_entry_update env ?f t = Inr s'"
    by (auto simp: handle_append_entries_response_def Let_def)
  have "silent ?s t"
  proof (cases "aes_append_result_success resp \<noteq> 0")
    case True
    let ?s2 = "update_node (\<lambda>n. n\<lparr>matched_index := map_set ?f ?i (matched_index n)\<rparr>) ?s"
    from True t obtain u where u: "commit_from_majority env ?i ?s2 = Inr u"
      and t': "t = (let r = map_index 0 ?f (matched_index (node u)) in
        update_node (\<lambda>n. n\<lparr>matched_index := snd r, next_index := map_set ?f (fst r + 1) (next_index n)\<rparr>) u)"
      by (auto simp: append_succeeded_def case_prod_beta Let_def)
    have "silent ?s ?s2" by (rule silent_update) simp_all
    moreover have "silent ?s2 u" by (rule silent_committed [OF commit_from_majority_frame [OF u]])
    moreover have "silent u t" unfolding t' Let_def by (rule silent_update) simp_all
    ultimately show ?thesis by (blast intro: silent_trans)
  next
    case False
    with t show ?thesis by (auto simp: append_failed_def Let_def split: if_splits prod.splits intro: silent_update)
  qed
  with q1 silent_replicated [OF trigger_entry_update_frame [OF upd]] show ?thesis by (blast intro: silent_trans)
qed

lemma silent_add_log_entry:
  assumes "add_log_entry env e s = Inr s'"
  shows "silent s s'"
proof -
  have "silent s (update_node (\<lambda>n. n\<lparr>log_entries := log_entries n @ [e]\<rparr>) s)" by (simp add: silent_def)
  then show ?thesis using silent_replicated [OF add_log_entry_frame [OF assms]] by (rule silent_trans)
qed

lemma silent_reply: "reply_to_client env m s = Inr s' \<Longrightarrow> silent s s'"
  by (auto simp: silent_def dest!: reply_to_client_frame)

lemma silent_delivery: "trigger_message_delivery env s = Inr s' \<Longrightarrow> silent s s'"
  by (rule silent_delivered) (rule trigger_message_delivery_frame)

lemma silent_open_queue: "handle_client_open_queue env s = Inr s' \<Longrightarrow> silent s s'"
  by (auto simp: handle_client_open_queue_def split: if_splits intro: silent_trans dest: silent_reply silent_delivery)

text \<open>The steps of a node as a protocol of votes; every other step is silent.\<close>

inductive vote_step :: "node_event \<Rightarrow> world \<Rightarrow> world \<Rightarrow> bool" where
  other: "silent s s' \<Longrightarrow> vote_step ev s s'"
| new_term: "sent s' = sent s \<Longrightarrow> cur_term (node s') = cur_term (node s) + 1 \<Longrightarrow> voted_for (node s') = - 1 \<Longrightarrow> votes_collected (node s') = 0 \<Longrightarrow>
    state (node s') = CANDIDATE \<Longrightarrow> vote_step VoteTimer s s'"
| no_request: "sent s' = sent s \<Longrightarrow> node s' = node s \<Longrightarrow> vote_timers s' \<le> vote_timers s \<Longrightarrow> vote_step VoteDelay s s'"
| request: "voted_for (node s) = - 1 \<Longrightarrow> 0 < vote_timers s \<Longrightarrow>
    sent s' = sent s @ [(ToAll, set_partition_id p (vote_request (cur_term (node s)) (node_id (node s)) i lt))] \<Longrightarrow>
    cur_term (node s') = cur_term (node s) \<Longrightarrow> voted_for (node s') = node_id (node s) \<Longrightarrow>
    votes_collected (node s') = votes_collected (node s) + 1 \<Longrightarrow> state (node s') = state (node s) \<Longrightarrow> vote_step VoteDelay s s'"
| grant: "msg_type m = REQUEST_VOTE_REQUEST \<Longrightarrow>
    sent s' = sent s @ [(ToNode (rvq_candidate_id (get_vote_request m)), set_partition_id p (vote_response (rvq_term (get_vote_request m)) 1))] \<Longrightarrow>
    cur_term (node s) \<le> cur_term (node s') \<Longrightarrow> voted_for (node s') = rvq_candidate_id (get_vote_request m) \<Longrightarrow>
    votes_collected (node s') = (if cur_term (node s) < cur_term (node s') then 0 else votes_collected (node s)) \<Longrightarrow>
    state (node s') = state (node s) \<Longrightarrow> vote_step (Receive m) s s'"
| leader_term: "state (node s) = LEADER \<Longrightarrow> sent s' = sent s \<Longrightarrow> cur_term (node s) \<le> cur_term (node s') \<Longrightarrow> votes_collected (node s') = 0 \<Longrightarrow>
    state (node s') = LEADER \<Longrightarrow> vote_step ev s s'"
| count: "msg_type m = REQUEST_VOTE_RESPONSE \<Longrightarrow> rvs_vote_result_term_granted (get_vote_response m) \<noteq> 0 \<Longrightarrow>
    cur_term (node s) \<le> rvs_term (get_vote_response m) \<Longrightarrow> state (node s) = CANDIDATE \<Longrightarrow> sent s' = sent s \<Longrightarrow>
    voted_for (node s') = voted_for (node s) \<Longrightarrow> vote_timers s' = vote_timers s \<Longrightarrow>
    votes_collected (node s') = votes_collected (node s) + (if rvs_vote_result_term_granted (get_vote_response m) = 1 then 1 else 0) \<Longrightarrow>
    (if votes_collected (node s') > total_nodes (node s) div 2 then state (node s') = LEADER \<and> cur_term (node s') = rvs_term (get_vote_response m)
     else state (node s') = CANDIDATE \<and> cur_term (node s') = cur_term (node s)) \<Longrightarrow> vote_step (Receive m) s s'"

lemma vote_request_steps:
  assumes "handle_request_vote_request env (get_vote_request m) s = Inr s'" and "msg_type m = REQUEST_VOTE_REQUEST"
  shows "vote_step (Receive m) s s'"
proof (cases "invalid_vote_request (get_vote_request m) (node s)")
  case True
  with assms(1) have "post_message env (ToNode (rvq_candidate_id (get_vote_request m))) (vote_response (rvq_term (get_vote_request m)) 0) s = Inr s'"
    by (simp add: handle_request_vote_request_def)
  from silent_post [OF this] show ?thesis by (simp add: other)
next
  case False
  let ?req = "get_vote_request m"
  let ?s = "if rvq_term ?req > cur_term (node s) then update_node (\<lambda>n. n\<lparr>cur_term := rvq_term ?req, votes_collected := 0\<rparr>) s else s"
  have tm: "cur_term (node ?s) = rvq_term ?req" "cur_term (node s) \<le> cur_term (node ?s)" using False by (auto simp: invalid_vote_request_def)
  show ?thesis
  proof (cases "state (node s) = LEADER")
    case True
    with assms False have s': "s' = ?s" by (auto simp: handle_request_vote_request_def Let_def)
    show ?thesis
    proof (cases "rvq_term ?req > cur_term (node s)")
      case True
      with \<open>state (node s) = LEADER\<close> show ?thesis unfolding s' by (intro leader_term) simp_all
    next
      case False
      with s' show ?thesis by (auto intro: other)
    qed
  next
    case cand: False
    then have "state (node s) = CANDIDATE \<or> state (node s) = FOLLOWER" using node_state.exhaust by blast
    with assms(1) False have "post_message env (ToNode (rvq_candidate_id ?req)) (vote_response (rvq_term ?req) 1)
        (update_node (\<lambda>n. n\<lparr>voted_for := rvq_candidate_id ?req\<rparr>) ?s) = Inr s'"
      by (auto simp: handle_request_vote_request_def Let_def split: if_splits)
    from post_message_Inr [OF this] have s': "s' = (update_node (\<lambda>n. n\<lparr>voted_for := rvq_candidate_id ?req\<rparr>) ?s)\<lparr>sent := sent s @
        [(ToNode (rvq_candidate_id ?req), set_partition_id (partition_id (node s)) (vote_response (rvq_term ?req) 1))]\<rparr>"
      by simp
    show ?thesis by (rule grant [where p = "partition_id (node s)"]) (use tm assms(2) in \<open>simp_all add: s'\<close>)
  qed
qed

lemma vote_response_steps:
  assumes "msg_type m = REQUEST_VOTE_RESPONSE"
  shows "vote_step (Receive m) s (handle_request_vote_response (get_vote_response m) s)"
proof (cases "state (node s) = CANDIDATE \<and> rvs_vote_result_term_granted (get_vote_response m) \<noteq> 0 \<and> cur_term (node s) \<le> rvs_term (get_vote_response m)")
  case True
  then show ?thesis by (intro count) (use assms in \<open>auto simp: handle_request_vote_response_def Let_def\<close>)
next
  case False
  then have "handle_request_vote_response (get_vote_response m) s = s"
    by (cases "state (node s)") (auto simp: handle_request_vote_response_def)
  then show ?thesis by (simp add: other)
qed

lemma vote_delay_steps:
  assumes "vote_delay_expired env s = Inr s'"
  shows "vote_step VoteDelay s s'"
proof (cases "vote_timers s = 0 \<or> voted_for (node s) \<noteq> - 1")
  case True
  with assms show ?thesis by (intro no_request) (auto simp: vote_delay_expired_def send_vote_request_def split: if_splits)
next
  case False
  with assms obtain e where
    "post_message env ToAll (vote_request (cur_term (node s)) (node_id (node s)) (le_index e) (le_term e))
       (update_node (\<lambda>n. n\<lparr>voted_for := node_id n, votes_collected := votes_collected n + 1\<rparr>) (s\<lparr>vote_timers := vote_timers s - 1\<rparr>)) = Inr s'"
    by (auto simp: vote_delay_expired_def send_vote_request_def Let_def)
  from post_message_Inr [OF this] False show ?thesis
    by (intro request [where p = "partition_id (node s)" and i = "le_index e" and lt = "le_term e"]) simp_all
qed

lemma node_step_vote_step:
  assumes "node_step env ev s = Inr s'"
  shows "vote_step ev s s'"
proof (cases ev)
  case (Receive m)
  with assms have h: "local_message_handler env m s = Inr s'" by simp
  show ?thesis
  proof (cases "msg_type m = REQUEST_VOTE_REQUEST \<or> msg_type m = REQUEST_VOTE_RESPONSE")
    case True
    with h Receive show ?thesis
      using vote_request_steps [of env m s s'] vote_response_steps [of m s] by (auto simp: local_message_handler_def message_types)
  next
    case False
    with h have "silent s s'"
      by (auto simp: local_message_handler_def handle_client_put_message_def handle_client_commit_message_def split: if_splits
          dest: silent_append_request silent_append_response silent_open_queue silent_add_log_entry)
    then show ?thesis by (rule other)
  qed
next
  case HeartbeatTimer
  have "silent t (update_node (\<lambda>n. n\<lparr>pending_append_reqs := fold request_sent (other_nodes n) (pending_append_reqs n)\<rparr>) t)" for t
    by (rule silent_update) simp_all
  with HeartbeatTimer assms have "silent s s'"
    by (auto simp: send_heartbeat_def split: if_splits dest!: silent_post intro: silent_trans)
  then show ?thesis by (rule other)
next
  case VoteTimer
  with assms have s': "s' = check_heartbeat env s" by simp
  show ?thesis
  proof (cases "s' = s")
    case True
    then show ?thesis by (simp add: other)
  next
    case False
    with s' show ?thesis unfolding VoteTimer by (intro new_term) (auto simp: check_heartbeat_def Let_def split: if_splits)
  qed
next
  case VoteDelay
  with assms vote_delay_steps show ?thesis by simp
next
  case (ConsumerLost c)
  let ?s = "update_node (\<lambda>n. n\<lparr>queue := snd (handle_client_disconnected c (queue n))\<rparr>) s"
  have "silent s ?s" by (rule silent_update) simp_all
  moreover from ConsumerLost assms have "silent ?s s'" by (intro silent_delivery) (simp add: consumer_disconnected_def)
  ultimately show ?thesis by (blast intro: silent_trans other)
next
  case (ClientsChanged cm)
  with assms have "silent s s'" by (auto simp: silent_def)
  then show ?thesis by (rule other)
qed

section \<open>A cluster\<close>

text \<open>
  The worlds of the nodes, the messages on their way with sender and receiver, the messages that have been received, and the elections: the nodes that became leader, with the term.
\<close>

record cluster =
  worlds :: "int \<Rightarrow> world"
  in_flight :: "(int \<times> int \<times> raft_message) list"
  received :: "(int \<times> int \<times> raft_message) list"
  elections :: "(int \<times> int) list"

text \<open>A message to all goes to the other nodes, one to a node only if it is another node of the cluster.\<close>

fun spread :: "int \<Rightarrow> int \<Rightarrow> destination \<times> raft_message \<Rightarrow> (int \<times> int \<times> raft_message) list" where
  "spread n i (ToAll, m) = map (\<lambda>j. (i, j, m)) (filter (\<lambda>j. j \<noteq> i) [0..n - 1])"
| "spread n i (ToNode j, m) = (if 0 \<le> j \<and> j < n \<and> j \<noteq> i then [(i, j, m)] else [])"

definition node_acts :: "int \<Rightarrow> int \<Rightarrow> world \<Rightarrow> cluster \<Rightarrow> cluster" where
  "node_acts n i s C =
     C\<lparr>worlds := (worlds C)(i := s),
       in_flight := in_flight C @ concat (map (spread n i) (drop (length (sent (worlds C i))) (sent s))),
       elections := elections C @ (if state (node (worlds C i)) \<noteq> LEADER \<and> state (node s) = LEADER then [(i, cur_term (node s))] else [])\<rparr>"

text \<open>What comes from outside the cluster: timers, changes of the clients, and requests that the client manager lets through.\<close>

fun from_outside :: "node_event \<Rightarrow> bool" where
  "from_outside (Receive m) \<longleftrightarrow> msg_type m \<in> {CLIENT_OPEN_QUEUE, CLIENT_PUT_MESSAGE, CLIENT_COMMIT_MESSAGE}"
| "from_outside _ \<longleftrightarrow> True"

inductive cluster_run :: "int \<Rightarrow> cluster \<Rightarrow> cluster \<Rightarrow> bool" for n where
  cluster_begin: "cluster_run n C C"
| cluster_outside: "cluster_run n C D \<Longrightarrow> 0 \<le> i \<Longrightarrow> i < n \<Longrightarrow> from_outside ev \<Longrightarrow> node_step env ev (worlds D i) = Inr s \<Longrightarrow>
    cluster_run n C (node_acts n i s D)"
| cluster_receive: "cluster_run n C D \<Longrightarrow> in_flight D = xs @ (j, i, m) # ys \<Longrightarrow> node_step env (Receive m) (worlds D i) = Inr s \<Longrightarrow>
    cluster_run n C (node_acts n i s (D\<lparr>in_flight := xs @ ys, received := received D @ [(j, i, m)]\<rparr>))"
| cluster_lose: "cluster_run n C D \<Longrightarrow> in_flight D = xs @ x # ys \<Longrightarrow> cluster_run n C (D\<lparr>in_flight := xs @ ys\<rparr>)"

definition new_cluster :: "(int \<Rightarrow> cluster_node) \<Rightarrow> cluster" where
  "new_cluster nodes = \<lparr>worlds = (\<lambda>i. start_world (nodes i)), in_flight = [], received = [], elections = []\<rparr>"

section \<open>The invariant\<close>

text \<open>
  A request of candidate \<open>c\<close> to voter \<open>v\<close> in term \<open>t\<close>, or the answer that grants it, is a token: a request is made at most once in a term, and its token is on its way or was
  received, never twice.
\<close>

definition token :: "int \<Rightarrow> int \<Rightarrow> int \<Rightarrow> int \<times> int \<times> raft_message \<Rightarrow> bool" where
  "token c v t x \<longleftrightarrow> fst x = c \<and> fst (snd x) = v \<and> is_request t (snd (snd x)) \<or> fst x = v \<and> fst (snd x) = c \<and> is_grant t (snd (snd x))"

definition got :: "int \<Rightarrow> int \<Rightarrow> int \<Rightarrow> int \<times> int \<times> raft_message \<Rightarrow> bool" where
  "got c v t x \<longleftrightarrow> fst x = v \<and> fst (snd x) = c \<and> is_grant t (snd (snd x))"

definition tokens :: "int \<Rightarrow> int \<Rightarrow> int \<Rightarrow> cluster \<Rightarrow> nat" where
  "tokens c v t C = length (filter (token c v t) (in_flight C)) + length (filter (got c v t) (received C))"

definition requests :: "int \<Rightarrow> (destination \<times> raft_message) list \<Rightarrow> nat" where
  "requests t out = length (filter (\<lambda>x. is_request t (snd x)) out)"

definition voters :: "cluster \<Rightarrow> int \<Rightarrow> int \<Rightarrow> int \<Rightarrow> int set" where
  "voters C n c t = {v. 0 \<le> v \<and> v < n \<and> v \<noteq> c \<and> (\<exists>x \<in> set (received C). got c v t x)}"

definition message_inv :: "int \<Rightarrow> cluster \<Rightarrow> int \<times> int \<times> raft_message \<Rightarrow> bool" where
  "message_inv n C x \<longleftrightarrow> (case x of (a, b, m) \<Rightarrow>
     0 \<le> a \<and> a < n \<and> 0 \<le> b \<and> b < n \<and> a \<noteq> b \<and>
     (msg_type m = REQUEST_VOTE_REQUEST \<longrightarrow> rvq_candidate_id (get_vote_request m) = a) \<and>
     (msg_type m = REQUEST_VOTE_RESPONSE \<longrightarrow> rvs_vote_result_term_granted (get_vote_response m) \<in> {0, 1}) \<and>
     (\<forall>t. is_grant t m \<longrightarrow> (t, b) \<in> set (votes_in (sent (worlds C a)))))"

definition candidate_inv :: "int \<Rightarrow> cluster \<Rightarrow> int \<Rightarrow> bool" where
  "candidate_inv n C c \<longleftrightarrow> (let s = worlds C c in
     node_id (node s) = c \<and> total_nodes (node s) = n \<and> vote_inv s \<and>
     (\<forall>t. requests t (sent s) \<le> 1 \<and> (0 < requests t (sent s) \<longrightarrow> (t, c) \<in> set (votes_in (sent s)))) \<and>
     (voted_for (node s) = - 1 \<and> 0 < vote_timers s \<longrightarrow> votes_collected (node s) \<le> 0) \<and>
     (state (node s) = CANDIDATE \<and> 0 < requests (cur_term (node s)) (sent s) \<longrightarrow>
        votes_collected (node s) \<le> 1 + int (card (voters C n c (cur_term (node s))))))"

definition cluster_inv :: "int \<Rightarrow> cluster \<Rightarrow> bool" where
  "cluster_inv n C \<longleftrightarrow>
     (\<forall>c. 0 \<le> c \<and> c < n \<longrightarrow> candidate_inv n C c) \<and>
     (\<forall>x \<in> set (in_flight C) \<union> set (received C). message_inv n C x) \<and>
     (\<forall>c v t. 0 \<le> c \<and> c < n \<longrightarrow> tokens c v t C \<le> requests t (sent (worlds C c))) \<and>
     (\<forall>(c, t) \<in> set (elections C). 0 \<le> c \<and> c < n \<and>
        n < 2 * int (card {v. 0 \<le> v \<and> v < n \<and> (t, c) \<in> set (votes_in (sent (worlds C v)))}))"

lemma message_facts [simp]:
  "\<not> is_request t (set_partition_id p (vote_response t' g))" "is_request t (set_partition_id p (vote_request t' c i lt)) \<longleftrightarrow> t = t'"
  "\<not> is_grant t (set_partition_id p (vote_request t' c i lt))" "is_grant t (set_partition_id p (vote_response t' g)) \<longleftrightarrow> t = t' \<and> g = 1"
  by (auto simp: is_request_def is_grant_def message_types)

lemma spread_member: "x \<in> set (spread n i (d, m)) \<Longrightarrow> \<exists>j. x = (i, j, m) \<and> 0 \<le> j \<and> j < n \<and> j \<noteq> i"
  by (cases d) (auto split: if_splits)

lemma no_traffic:
  assumes "traffic out = []" and "x \<in> set (concat (map (spread n i) out))"
  shows "\<exists>j m. x = (i, j, m) \<and> 0 \<le> j \<and> j < n \<and> j \<noteq> i \<and> msg_type m \<noteq> REQUEST_VOTE_REQUEST \<and>
    (msg_type m = REQUEST_VOTE_RESPONSE \<longrightarrow> rvs_vote_result_term_granted (get_vote_response m) = 0)"
proof -
  from assms(2) obtain d m where "(d, m) \<in> set out" "x \<in> set (spread n i (d, m))" by auto
  moreover from this(1) assms(1) have "\<not> vote_message (d, m)" by (auto simp: traffic_def filter_empty_conv)
  ultimately show ?thesis using spread_member [of x n i d m] by (auto simp: vote_message_def)
qed

lemma requests_simps [simp]: "requests t [] = 0" "requests t (xs @ ys) = requests t xs + requests t ys"
  "requests t (x # xs) = (if is_request t (snd x) then 1 else 0) + requests t xs"
  by (simp_all add: requests_def)

lemma no_traffic_requests: "traffic out = [] \<Longrightarrow> requests t out = 0"
  by (auto simp: requests_def traffic_def filter_empty_conv vote_message_def is_request_def)

text \<open>The requests a node has made are votes for itself, of its terms so far.\<close>

lemma candidate_request:
  assumes "candidate_inv n C c" and "0 < requests t (sent (worlds C c))"
  shows "(t, c) \<in> set (votes_in (sent (worlds C c)))" "t \<le> cur_term (node (worlds C c))"
    "t = cur_term (node (worlds C c)) \<Longrightarrow> voted_for (node (worlds C c)) = c"
proof -
  from assms show v: "(t, c) \<in> set (votes_in (sent (worlds C c)))" unfolding candidate_inv_def Let_def by blast
  from assms(1) have "vote_inv (worlds C c)" unfolding candidate_inv_def Let_def by blast
  with v show "t \<le> cur_term (node (worlds C c))" "t = cur_term (node (worlds C c)) \<Longrightarrow> voted_for (node (worlds C c)) = c"
    unfolding vote_inv_def by blast+
qed

lemma node_acts_fields [simp]:
  "worlds (node_acts n i s C) = (worlds C)(i := s)" "received (node_acts n i s C) = received C"
  "in_flight (node_acts n i s C) = in_flight C @ concat (map (spread n i) (drop (length (sent (worlds C i))) (sent s)))"
  by (simp_all add: node_acts_def)

lemma voters_acts [simp]: "voters (node_acts n i s C) n c t = voters C n c t"
  by (simp add: voters_def)

text \<open>
  The situation in which node \<open>i\<close> handles an event: a message from another node has left the network and is recorded, so its token is free.
\<close>

definition about_to :: "int \<Rightarrow> cluster \<Rightarrow> int \<Rightarrow> node_event \<Rightarrow> bool" where
  "about_to n C i ev \<longleftrightarrow> cluster_inv n C \<and> 0 \<le> i \<and> i < n \<and>
     (\<forall>m. ev = Receive m \<longrightarrow> from_outside ev \<or> (\<exists>j. message_inv n C (j, i, m) \<and>
        (\<forall>t. is_request t m \<longrightarrow> tokens j i t C < requests t (sent (worlds C j))) \<and>
        (\<forall>t. is_grant t m \<and> cur_term (node (worlds C i)) \<le> t \<longrightarrow>
           t = cur_term (node (worlds C i)) \<and> 0 < requests t (sent (worlds C i)) \<and>
           (state (node (worlds C i)) = CANDIDATE \<longrightarrow> votes_collected (node (worlds C i)) \<le> int (card (voters C n i t))))))"

lemma about_to_inv:
  "about_to n C i ev \<Longrightarrow> cluster_inv n C" "about_to n C i ev \<Longrightarrow> 0 \<le> i" "about_to n C i ev \<Longrightarrow> i < n"
  "about_to n C i ev \<Longrightarrow> candidate_inv n C i"
  by (simp_all add: about_to_def cluster_inv_def)

text \<open>A message that comes from outside is no vote.\<close>

lemma outside_no_vote:
  "from_outside (Receive m) \<Longrightarrow> msg_type m \<noteq> REQUEST_VOTE_REQUEST \<and> msg_type m \<noteq> REQUEST_VOTE_RESPONSE"
  by (auto simp: message_types)

lemma about_to_request:
  assumes "about_to n C i (Receive m)" and "msg_type m = REQUEST_VOTE_REQUEST"
  shows "0 \<le> rvq_candidate_id (get_vote_request m) \<and> rvq_candidate_id (get_vote_request m) < n \<and> rvq_candidate_id (get_vote_request m) \<noteq> i \<and>
    tokens (rvq_candidate_id (get_vote_request m)) i (rvq_term (get_vote_request m)) C <
      requests (rvq_term (get_vote_request m)) (sent (worlds C (rvq_candidate_id (get_vote_request m))))"
proof -
  from assms obtain j where "message_inv n C (j, i, m)" "\<forall>t. is_request t m \<longrightarrow> tokens j i t C < requests t (sent (worlds C j))"
    using outside_no_vote [of m] unfolding about_to_def by blast
  with assms(2) show ?thesis by (auto simp: message_inv_def is_request_def)
qed

lemma about_to_grant:
  assumes "about_to n C i (Receive m)" and "msg_type m = REQUEST_VOTE_RESPONSE" and "rvs_vote_result_term_granted (get_vote_response m) \<noteq> 0"
    and "cur_term (node (worlds C i)) \<le> rvs_term (get_vote_response m)" and "state (node (worlds C i)) = CANDIDATE"
  shows "rvs_vote_result_term_granted (get_vote_response m) = 1" "rvs_term (get_vote_response m) = cur_term (node (worlds C i))"
    "0 < requests (cur_term (node (worlds C i))) (sent (worlds C i))"
    "votes_collected (node (worlds C i)) \<le> int (card (voters C n i (cur_term (node (worlds C i)))))"
proof -
  from assms(1,2) obtain j where j: "message_inv n C (j, i, m)"
    "\<And>t. is_grant t m \<and> cur_term (node (worlds C i)) \<le> t \<Longrightarrow> t = cur_term (node (worlds C i)) \<and> 0 < requests t (sent (worlds C i)) \<and>
       (state (node (worlds C i)) = CANDIDATE \<longrightarrow> votes_collected (node (worlds C i)) \<le> int (card (voters C n i t)))"
    using outside_no_vote [of m] unfolding about_to_def by blast
  from j(1) assms(2,3) show one: "rvs_vote_result_term_granted (get_vote_response m) = 1" by (auto simp: message_inv_def)
  with assms(2) have "is_grant (rvs_term (get_vote_response m)) m" by (simp add: is_grant_def)
  from j(2) [OF conjI [OF this assms(4)]] assms(5)
  show "rvs_term (get_vote_response m) = cur_term (node (worlds C i))" "0 < requests (cur_term (node (worlds C i))) (sent (worlds C i))"
    "votes_collected (node (worlds C i)) \<le> int (card (voters C n i (cur_term (node (worlds C i)))))" by auto
qed

lemma node_step_vote_inv:
  assumes "node_step env ev s = Inr s'" and "vote_inv s" and "event_ok ev" and "0 \<le> node_id (node s)"
  shows "vote_inv s'"
  using node_step_votes [OF assms(1)] vote_inv_quiet [OF assms(2)] vote_inv_votes [OF assms(2)] assms(3,4) by auto

lemma about_to_event_ok: "about_to n C i ev \<Longrightarrow> event_ok ev"
  using about_to_request [of n C i] by (cases ev) auto

text \<open>What a step sends, as far as votes are concerned.\<close>

lemma vote_step_sends:
  assumes "vote_step ev s s'"
  shows "(\<exists>out. sent s' = sent s @ out \<and> traffic out = []) \<or>
    (\<exists>p i lt. sent s' = sent s @ [(ToAll, set_partition_id p (vote_request (cur_term (node s)) (node_id (node s)) i lt))] \<and> voted_for (node s) = - 1) \<or>
    (\<exists>m p. ev = Receive m \<and> msg_type m = REQUEST_VOTE_REQUEST \<and> sent s' = sent s @
       [(ToNode (rvq_candidate_id (get_vote_request m)), set_partition_id p (vote_response (rvq_term (get_vote_request m)) 1))])"
  using assms by cases (auto simp: silent_def)

lemma candidate_requests_step:
  assumes "about_to n C i ev" and "vote_step ev (worlds C i) s"
  shows "requests t (sent s) \<le> 1 \<and> (0 < requests t (sent s) \<longrightarrow> (t, i) \<in> set (votes_in (sent s)))"
proof -
  note inv = about_to_inv(4) [OF assms(1)]
  then have old: "requests t (sent (worlds C i)) \<le> 1" "0 < requests t (sent (worlds C i)) \<longrightarrow> (t, i) \<in> set (votes_in (sent (worlds C i)))"
    and id: "node_id (node (worlds C i)) = i" unfolding candidate_inv_def Let_def by blast+
  from vote_step_sends [OF assms(2)] show ?thesis
  proof (elim disjE exE conjE)
    fix out assume "sent s = sent (worlds C i) @ out" "traffic out = []"
    with old show ?thesis by (auto simp: no_traffic_requests)
  next
    fix p k lt assume s: "sent s = sent (worlds C i) @ [(ToAll, set_partition_id p (vote_request (cur_term (node (worlds C i))) (node_id (node (worlds C i))) k lt))]"
      and v: "voted_for (node (worlds C i)) = - 1"
    have "requests (cur_term (node (worlds C i))) (sent (worlds C i)) = 0"
      using candidate_request(3) [OF inv, of "cur_term (node (worlds C i))"] v about_to_inv(2) [OF assms(1)] by force
    with s old id show ?thesis by (auto simp: votes_in_single)
  next
    fix m p assume "sent s = sent (worlds C i) @
       [(ToNode (rvq_candidate_id (get_vote_request m)), set_partition_id p (vote_response (rvq_term (get_vote_request m)) 1))]"
    with old show ?thesis by auto
  qed
qed

text \<open>A term a node has just entered holds none of its requests.\<close>

lemma no_later_request:
  assumes "candidate_inv n C i" and "cur_term (node (worlds C i)) < t"
  shows "requests t (sent (worlds C i)) = 0"
  using candidate_request(2) [OF assms(1), of t] assms(2) by force

lemma candidate_votes_step:
  assumes "about_to n C i ev" and "vote_step ev (worlds C i) s"
  shows "(voted_for (node s) = - 1 \<and> 0 < vote_timers s \<longrightarrow> votes_collected (node s) \<le> 0) \<and>
    (state (node s) = CANDIDATE \<and> 0 < requests (cur_term (node s)) (sent s) \<longrightarrow>
       votes_collected (node s) \<le> 1 + int (card (voters C n i (cur_term (node s)))))"
proof -
  let ?s = "worlds C i"
  note inv = about_to_inv(4) [OF assms(1)] and i = about_to_inv(2) [OF assms(1)]
  from inv have id: "node_id (node ?s) = i"
    and fresh: "voted_for (node ?s) = - 1 \<and> 0 < vote_timers ?s \<longrightarrow> votes_collected (node ?s) \<le> 0"
    and votes: "state (node ?s) = CANDIDATE \<and> 0 < requests (cur_term (node ?s)) (sent ?s) \<longrightarrow>
      votes_collected (node ?s) \<le> 1 + int (card (voters C n i (cur_term (node ?s))))"
    unfolding candidate_inv_def Let_def by blast+
  note later = no_later_request [OF inv]
  from assms(2) show ?thesis
  proof cases
    case other
    then obtain out where out: "sent s = sent ?s @ out" "traffic out = []" and same: "votes_collected (node s) = votes_collected (node ?s)"
      "voted_for (node s) = voted_for (node ?s)" "vote_timers s = vote_timers ?s" "cur_term (node ?s) \<le> cur_term (node s)"
      "state (node s) = state (node ?s) \<or> state (node s) = FOLLOWER" by (auto simp: silent_def)
    have "requests t (sent s) = requests t (sent ?s)" for t using out by (simp add: no_traffic_requests)
    with same fresh votes later [of "cur_term (node s)"] show ?thesis by (cases "cur_term (node s) = cur_term (node ?s)") auto
  next
    case new_term
    with later [of "cur_term (node s)"] show ?thesis by simp
  next
    case no_request
    with fresh votes show ?thesis by auto
  next
    case (request p k lt)
    with fresh id i show ?thesis by auto
  next
    case (grant m p)
    with about_to_request [of n C i m] assms(1) votes later [of "cur_term (node s)"] show ?thesis
      by (cases "cur_term (node s) = cur_term (node ?s)") auto
  next
    case leader_term
    then show ?thesis by simp
  next
    case (count m)
    note g = about_to_grant [OF assms(1) [unfolded count(1)] count(2,3,4,5)]
    have "voted_for (node ?s) = i" using candidate_request(3) [OF inv g(3)] by simp
    with count g i show ?thesis by (auto split: if_splits)
  qed
qed

lemma sent_grows: "node_step env ev s = Inr s' \<Longrightarrow> \<exists>out. sent s' = sent s @ out"
  using node_step_progress [of env ev s s'] by (simp add: progress_def)

lemma votes_grow:
  assumes "node_step env ev (worlds C i) = Inr s"
  shows "set (votes_in (sent (worlds C a))) \<subseteq> set (votes_in (sent (worlds (node_acts n i s C) a)))"
  using sent_grows [OF assms] by auto

lemma candidate_inv_step:
  assumes "about_to n C i ev" and "node_step env ev (worlds C i) = Inr s" and "0 \<le> c" and "c < n"
  shows "candidate_inv n (node_acts n i s C) c"
proof (cases "c = i")
  case False
  moreover have "candidate_inv n C c" using about_to_inv(1) [OF assms(1)] assms(3,4) by (simp add: cluster_inv_def)
  ultimately show ?thesis by (simp add: candidate_inv_def)
next
  case True
  note step = node_step_vote_step [OF assms(2)] and inv = about_to_inv(4) [OF assms(1)]
  from inv have old: "node_id (node (worlds C i)) = i" "total_nodes (node (worlds C i)) = n" "vote_inv (worlds C i)"
    unfolding candidate_inv_def Let_def by blast+
  have "vote_inv s"
    by (rule node_step_vote_inv [OF assms(2) old(3) about_to_event_ok [OF assms(1)]]) (use old about_to_inv(2) [OF assms(1)] in simp)
  moreover have "node_id (node s) = i" "total_nodes (node s) = n"
    using node_step_progress [OF assms(2)] old by (simp_all add: progress_def)
  ultimately show ?thesis
    using candidate_requests_step [OF assms(1) step] candidate_votes_step [OF assms(1) step] unfolding candidate_inv_def Let_def True by simp
qed

text \<open>The new messages.\<close>

lemma new_messages_step:
  assumes "about_to n C i ev" and "node_step env ev (worlds C i) = Inr s" and "x \<in> set (concat (map (spread n i) (drop (length (sent (worlds C i))) (sent s))))"
  shows "message_inv n (node_acts n i s C) x"
proof -
  note i = about_to_inv(2,3) [OF assms(1)]
  have id: "node_id (node (worlds C i)) = i" using about_to_inv(4) [OF assms(1)] unfolding candidate_inv_def Let_def by blast
  from vote_step_sends [OF node_step_vote_step [OF assms(2)]] show ?thesis
  proof (elim disjE exE conjE)
    fix out assume "sent s = sent (worlds C i) @ out" "traffic out = []"
    with no_traffic [of out x n i] assms(3) i show ?thesis by (auto simp: message_inv_def is_grant_def)
  next
    fix p k lt assume "sent s = sent (worlds C i) @ [(ToAll, set_partition_id p (vote_request (cur_term (node (worlds C i))) (node_id (node (worlds C i))) k lt))]"
    with assms(3) i id show ?thesis by (auto simp: message_inv_def message_types)
  next
    fix m p assume "ev = Receive m" "msg_type m = REQUEST_VOTE_REQUEST"
      and s: "sent s = sent (worlds C i) @
       [(ToNode (rvq_candidate_id (get_vote_request m)), set_partition_id p (vote_response (rvq_term (get_vote_request m)) 1))]"
    with about_to_request [of n C i m] assms(1,3) i show ?thesis by (auto simp: message_inv_def votes_in_single message_types)
  qed
qed

lemma messages_step:
  assumes "about_to n C i ev" and "node_step env ev (worlds C i) = Inr s"
    and "x \<in> set (in_flight (node_acts n i s C)) \<union> set (received (node_acts n i s C))"
  shows "message_inv n (node_acts n i s C) x"
proof (cases "x \<in> set (in_flight C) \<union> set (received C)")
  case True
  then have "message_inv n C x" using about_to_inv(1) [OF assms(1)] by (simp add: cluster_inv_def)
  with votes_grow [OF assms(2)] show ?thesis unfolding message_inv_def by (cases x) blast
next
  case False
  with assms(3) have "x \<in> set (concat (map (spread n i) (drop (length (sent (worlds C i))) (sent s))))" by auto
  then show ?thesis by (rule new_messages_step [OF assms(1,2)])
qed

lemma one_occurrence: "distinct xs \<Longrightarrow> length (filter (\<lambda>j. j = v \<and> P j) xs) \<le> 1"
  by (induction xs) (auto simp: filter_empty_conv)

lemma one_request_each:
  assumes "\<not> is_grant t m"
  shows "length (filter (token c v t) (spread n i (ToAll, m))) \<le> (if c = i \<and> is_request t m then 1 else 0)"
proof -
  have "filter (\<lambda>j. token c v t (i, j, m)) (filter (\<lambda>j. j \<noteq> i) [0..n - 1]) =
      (if c = i \<and> is_request t m then filter (\<lambda>j. j = v \<and> j \<noteq> i) [0..n - 1] else [])"
    using assms by (auto simp: token_def filter_filter intro: filter_cong)
  then show ?thesis using one_occurrence [of "[0..n - 1]" v "\<lambda>j. j \<noteq> i"] by (simp add: filter_map comp_def)
qed

lemma tokens_acts:
  "tokens c v t (node_acts n i s C) =
     tokens c v t C + length (filter (token c v t) (concat (map (spread n i) (drop (length (sent (worlds C i))) (sent s)))))"
  by (simp add: tokens_def)

lemma tokens_step:
  assumes "about_to n C i ev" and "node_step env ev (worlds C i) = Inr s" and "0 \<le> c" and "c < n"
  shows "tokens c v t (node_acts n i s C) \<le> requests t (sent (worlds (node_acts n i s C) c))"
proof -
  have old: "tokens c v t C \<le> requests t (sent (worlds C c))" using about_to_inv(1) [OF assms(1)] assms(3,4) by (simp add: cluster_inv_def)
  from vote_step_sends [OF node_step_vote_step [OF assms(2)]] show ?thesis
  proof (elim disjE exE conjE)
    fix out assume s: "sent s = sent (worlds C i) @ out" "traffic out = []"
    have "\<not> token c v t x" if "x \<in> set (concat (map (spread n i) out))" for x
      using no_traffic [OF s(2) that] by (auto simp: token_def is_request_def is_grant_def)
    then have none: "filter (token c v t) (concat (map (spread n i) out)) = []" by (simp only: filter_empty_conv) blast
    have "tokens c v t (node_acts n i s C) = tokens c v t C" unfolding tokens_acts s(1) append_eq_conv_conj [THEN iffD1, OF refl] using none by simp
    with old s(1) show ?thesis by auto
  next
    fix p k lt assume s: "sent s = sent (worlds C i) @ [(ToAll, set_partition_id p (vote_request (cur_term (node (worlds C i))) (node_id (node (worlds C i))) k lt))]"
    let ?m = "set_partition_id p (vote_request (cur_term (node (worlds C i))) (node_id (node (worlds C i))) k lt)"
    have "tokens c v t (node_acts n i s C) \<le> tokens c v t C + (if c = i \<and> is_request t ?m then 1 else 0)"
      using one_request_each [of t ?m c v n i] by (simp add: tokens_acts s)
    with old s show ?thesis by (auto split: if_splits)
  next
    fix m p assume m: "ev = Receive m" "msg_type m = REQUEST_VOTE_REQUEST"
      and s: "sent s = sent (worlds C i) @
       [(ToNode (rvq_candidate_id (get_vote_request m)), set_partition_id p (vote_response (rvq_term (get_vote_request m)) 1))]"
    from about_to_request [of n C i m] assms(1) m have "rvq_candidate_id (get_vote_request m) \<noteq> i"
      "tokens (rvq_candidate_id (get_vote_request m)) i (rvq_term (get_vote_request m)) C <
         requests (rvq_term (get_vote_request m)) (sent (worlds C (rvq_candidate_id (get_vote_request m))))" by auto
    with old s show ?thesis by (auto simp: tokens_acts token_def)
  qed
qed

text \<open>The elections.\<close>

lemma voters_have_voted:
  assumes "cluster_inv n C" and "v \<in> voters C n c t"
  shows "0 \<le> v \<and> v < n \<and> v \<noteq> c \<and> (t, c) \<in> set (votes_in (sent (worlds C v)))"
proof -
  from assms(2) obtain x where "x \<in> set (received C)" "got c v t x" and v: "0 \<le> v" "v < n" "v \<noteq> c" by (auto simp: voters_def)
  moreover from this(1) assms(1) have "message_inv n C x" by (simp add: cluster_inv_def)
  ultimately show ?thesis by (cases x) (auto simp: message_inv_def got_def)
qed

lemma finite_nodes: "finite {v. 0 \<le> v \<and> v < (n :: int) \<and> P v}"
  by (rule finite_subset [of _ "{0..<n}"]) auto

lemma elected_by_majority:
  assumes "about_to n C i ev" and "node_step env ev (worlds C i) = Inr s" and "state (node (worlds C i)) \<noteq> LEADER" and "state (node s) = LEADER"
  shows "n < 2 * int (card {v. 0 \<le> v \<and> v < n \<and> (cur_term (node s), i) \<in> set (votes_in (sent (worlds C v)))})"
proof -
  let ?s = "worlds C i" let ?V = "\<lambda>t. {v. 0 \<le> v \<and> v < n \<and> (t, i) \<in> set (votes_in (sent (worlds C v)))}"
  note inv = about_to_inv(4) [OF assms(1)]
  have total: "total_nodes (node ?s) = n" using inv unfolding candidate_inv_def Let_def by blast
  from node_step_vote_step [OF assms(2)] assms(3,4) show ?thesis
  proof cases
    case (count m)
    note g = about_to_grant [OF assms(1) [unfolded count(1)] count(2,3,4,5)]
    let ?t = "cur_term (node ?s)"
    have t: "cur_term (node s) = ?t" and votes: "votes_collected (node s) = votes_collected (node ?s) + 1" "votes_collected (node s) > n div 2"
      using count assms(4) g total by (auto split: if_splits)
    have sub: "insert i (voters C n i ?t) \<subseteq> ?V ?t"
      using voters_have_voted [OF about_to_inv(1) [OF assms(1)]] candidate_request(1) [OF inv g(3)] about_to_inv(2,3) [OF assms(1)] by auto
    have "card (insert i (voters C n i ?t)) = Suc (card (voters C n i ?t))"
      by (rule card_insert_disjoint) (auto simp: voters_def finite_nodes)
    with card_mono [OF finite_nodes sub] g(4) votes have "n div 2 < int (card (?V ?t))" by simp
    with t show ?thesis by simp
  qed (auto simp: silent_def)
qed

lemma elections_step:
  assumes "about_to n C i ev" and "node_step env ev (worlds C i) = Inr s" and "(c, t) \<in> set (elections (node_acts n i s C))"
  shows "0 \<le> c \<and> c < n \<and> n < 2 * int (card {v. 0 \<le> v \<and> v < n \<and> (t, c) \<in> set (votes_in (sent (worlds (node_acts n i s C) v)))})"
proof -
  have old: "0 \<le> c \<and> c < n \<and> n < 2 * int (card {v. 0 \<le> v \<and> v < n \<and> (t, c) \<in> set (votes_in (sent (worlds C v)))})"
  proof (cases "(c, t) \<in> set (elections C)")
    case True
    with about_to_inv(1) [OF assms(1)] show ?thesis by (auto simp: cluster_inv_def)
  next
    case False
    with assms(3) have "c = i" "t = cur_term (node s)" "state (node (worlds C i)) \<noteq> LEADER" "state (node s) = LEADER"
      by (auto simp: node_acts_def split: if_splits)
    with elected_by_majority [OF assms(1,2)] about_to_inv(2,3) [OF assms(1)] show ?thesis by simp
  qed
  have "{v. 0 \<le> v \<and> v < n \<and> (t, c) \<in> set (votes_in (sent (worlds C v)))} \<subseteq>
      {v. 0 \<le> v \<and> v < n \<and> (t, c) \<in> set (votes_in (sent (worlds (node_acts n i s C) v)))}"
    using votes_grow [OF assms(2)] by blast
  from card_mono [OF finite_nodes this] old show ?thesis by linarith
qed

lemma cluster_inv_step:
  assumes "about_to n C i ev" and "node_step env ev (worlds C i) = Inr s"
  shows "cluster_inv n (node_acts n i s C)"
  unfolding cluster_inv_def
  using candidate_inv_step [OF assms] messages_step [OF assms] tokens_step [OF assms] elections_step [OF assms] by blast

section \<open>Runs of a cluster\<close>

lemma token_kinds:
  "got c v t x \<Longrightarrow> token c v t x" "is_request t m \<Longrightarrow> \<not> is_grant t' m" "is_grant t m \<Longrightarrow> \<not> is_request t' m"
  by (auto simp: token_def got_def is_request_def is_grant_def message_types)

definition moved :: "(int \<times> int \<times> raft_message) list \<Rightarrow> int \<times> int \<times> raft_message \<Rightarrow> cluster \<Rightarrow> cluster" where
  "moved rest x C = C\<lparr>in_flight := rest, received := received C @ [x]\<rparr>"

lemma moved_fields [simp]: "worlds (moved rest x C) = worlds C" "in_flight (moved rest x C) = rest" "received (moved rest x C) = received C @ [x]"
  "elections (moved rest x C) = elections C"
  by (simp_all add: moved_def)

lemma tokens_moved:
  assumes "in_flight C = xs @ x # ys"
  shows "tokens c v t C = tokens c v t (moved (xs @ ys) x C) + (if token c v t x \<and> \<not> got c v t x then 1 else 0)"
  using assms token_kinds(1) [of c v t x] by (auto simp: tokens_def)

lemma voters_moved: "voters (moved rest (j, i, m) C) n c t = voters C n c t \<union> {v. v = j \<and> c = i \<and> 0 \<le> j \<and> j < n \<and> j \<noteq> i \<and> is_grant t m}"
  by (auto simp: voters_def got_def)

lemma fewer_tokens:
  assumes "cluster_inv n C" and "0 \<le> c" and "c < n"
  shows "tokens c v t D \<le> tokens c v t C \<Longrightarrow> tokens c v t D \<le> requests t (sent (worlds C c))"
  using assms unfolding cluster_inv_def by (meson order_trans)

lemma moved_inv:
  assumes "cluster_inv n C" and "in_flight C = xs @ x # ys"
  shows "cluster_inv n (moved (xs @ ys) x C)"
proof -
  let ?D = "moved (xs @ ys) x C"
  have "candidate_inv n ?D c" if "0 \<le> c" "c < n" for c
  proof -
    have "voters C n c t \<subseteq> voters ?D n c t" for t by (auto simp: voters_def)
    then have "card (voters C n c t) \<le> card (voters ?D n c t)" for t by (rule card_mono [rotated]) (simp add: voters_def finite_nodes)
    moreover have "candidate_inv n C c" using assms(1) that by (simp add: cluster_inv_def)
    ultimately show ?thesis unfolding candidate_inv_def Let_def by (force intro: order_trans)
  qed
  moreover have "message_inv n ?D = message_inv n C" by (simp add: message_inv_def fun_eq_iff)
  moreover have "tokens c v t ?D \<le> requests t (sent (worlds ?D c))" if "0 \<le> c" "c < n" for c v t
    using fewer_tokens [OF assms(1) that, of v t ?D] tokens_moved [OF assms(2), of c v t] by simp
  ultimately show ?thesis using assms unfolding cluster_inv_def by auto
qed

lemma about_to_receive:
  assumes "cluster_inv n C" and "in_flight C = xs @ (j, i, m) # ys"
  shows "about_to n (moved (xs @ ys) (j, i, m) C) i (Receive m)"
proof -
  let ?D = "moved (xs @ ys) (j, i, m) C"
  have msg: "message_inv n C (j, i, m)" using assms by (simp add: cluster_inv_def)
  then have ids: "0 \<le> j" "j < n" "0 \<le> i" "i < n" "j \<noteq> i" by (auto simp: message_inv_def)
  have tokens: "tokens c v t C \<le> requests t (sent (worlds C c))" if "0 \<le> c" "c < n" for c v t
    using assms(1) that by (simp add: cluster_inv_def)
  have request: "tokens j i t ?D < requests t (sent (worlds ?D j))" if "is_request t m" for t
    using tokens [OF ids(1,2), of i t] tokens_moved [OF assms(2), of j i t] that token_kinds(2) [OF that] by (simp add: token_def got_def)
  have grant: "t = cur_term (node (worlds ?D i)) \<and> 0 < requests t (sent (worlds ?D i)) \<and>
      (state (node (worlds ?D i)) = CANDIDATE \<longrightarrow> votes_collected (node (worlds ?D i)) \<le> int (card (voters ?D n i t)))"
    if "is_grant t m" "cur_term (node (worlds ?D i)) \<le> t" for t
  proof -
    have cand: "candidate_inv n C i" using assms(1) ids by (simp add: cluster_inv_def)
    have "0 < length (filter (token i j t) (in_flight C))" using assms(2) that(1) by (simp add: token_def)
    with tokens [OF ids(3,4), of j t] have r: "0 < requests t (sent (worlds C i))" unfolding tokens_def by linarith
    have "requests t (sent (worlds C i)) \<le> 1" using cand unfolding candidate_inv_def Let_def by blast
    with tokens [OF ids(3,4), of j t] \<open>0 < length (filter (token i j t) (in_flight C))\<close> have "length (filter (got i j t) (received C)) = 0"
      unfolding tokens_def by linarith
    then have "j \<notin> voters C n i t" by (auto simp: voters_def filter_empty_conv)
    moreover have "voters ?D n i t = insert j (voters C n i t)" using ids that(1) by (auto simp: voters_moved)
    ultimately have "card (voters ?D n i t) = Suc (card (voters C n i t))" by (simp add: voters_def finite_nodes)
    moreover from candidate_request(2) [OF cand r] that(2) have "t = cur_term (node (worlds C i))" by simp
    moreover from this r cand have "state (node (worlds C i)) = CANDIDATE \<longrightarrow> votes_collected (node (worlds C i)) \<le> 1 + int (card (voters C n i t))"
      unfolding candidate_inv_def Let_def by blast
    ultimately show ?thesis using r by simp
  qed
  have "message_inv n ?D (j, i, m)" using msg by (simp add: message_inv_def)
  with moved_inv [OF assms] ids request grant show ?thesis unfolding about_to_def by blast
qed

lemma lose_inv:
  assumes "cluster_inv n C" and "in_flight C = xs @ x # ys"
  shows "cluster_inv n (C\<lparr>in_flight := xs @ ys\<rparr>)"
proof -
  let ?D = "C\<lparr>in_flight := xs @ ys\<rparr>"
  have "tokens c v t ?D \<le> requests t (sent (worlds ?D c))" if "0 \<le> c" "c < n" for c v t
    using fewer_tokens [OF assms(1) that, of v t ?D] assms(2) by (simp add: tokens_def)
  moreover have "candidate_inv n ?D = candidate_inv n C" "message_inv n ?D = message_inv n C"
    by (simp_all add: candidate_inv_def message_inv_def voters_def fun_eq_iff)
  ultimately show ?thesis using assms unfolding cluster_inv_def by auto
qed

lemma new_cluster_inv:
  assumes "\<forall>i. 0 \<le> i \<and> i < n \<longrightarrow> node_id (nodes i) = i \<and> total_nodes (nodes i) = n"
  shows "cluster_inv n (new_cluster nodes)"
  using assms by (auto simp: cluster_inv_def new_cluster_def candidate_inv_def vote_inv_def tokens_def requests_def start_world_def)

lemma cluster_run_inv: "cluster_run n C D \<Longrightarrow> cluster_inv n C \<Longrightarrow> cluster_inv n D"
proof (induction rule: cluster_run.induct)
  case (cluster_outside C D i ev env s)
  then have "about_to n D i ev" unfolding about_to_def by blast
  with cluster_outside.hyps(5) show ?case by (rule cluster_inv_step [rotated])
next
  case (cluster_receive C D xs j i m ys env s)
  then have "about_to n (moved (xs @ ys) (j, i, m) D) i (Receive m)" by (intro about_to_receive) simp_all
  from cluster_inv_step [OF this] cluster_receive.hyps(3) show ?case by (simp add: moved_def)
next
  case (cluster_lose C D xs x ys)
  then show ?case by (intro lose_inv) simp_all
qed simp

lemma unique_election:
  assumes inv: "cluster_inv n C" and "(a, t) \<in> set (elections C)" and "(b, t) \<in> set (elections C)"
  shows "a = b"
proof -
  let ?V = "\<lambda>c. {v. 0 \<le> v \<and> v < n \<and> (t, c) \<in> set (votes_in (sent (worlds C v)))}"
  from assms have major: "n < 2 * int (card (?V a))" "n < 2 * int (card (?V b))" and n: "0 < n" by (auto simp: cluster_inv_def)
  have "?V a \<inter> ?V b \<noteq> {}"
  proof
    assume "?V a \<inter> ?V b = {}"
    then have "card (?V a \<union> ?V b) = card (?V a) + card (?V b)" by (intro card_Un_disjoint finite_nodes)
    moreover have "card (?V a \<union> ?V b) \<le> card {0..<n}" by (rule card_mono) auto
    ultimately show False using major n by simp
  qed
  then obtain v where v: "0 \<le> v" "v < n" "(t, a) \<in> set (votes_in (sent (worlds C v)))" "(t, b) \<in> set (votes_in (sent (worlds C v)))" by auto
  with inv have "vote_inv (worlds C v)" by (simp add: cluster_inv_def candidate_inv_def Let_def)
  with v show ?thesis unfolding vote_inv_def by blast
qed

text \<open>
  C1: in every run of a cluster whose nodes do not restart at most one node is elected in a term, whatever the order in which messages are received, the timers, the losses and the requests of clients: each
  election was decided by the votes of a majority, two majorities share a voter, and a voter gives one vote in a term.
\<close>

theorem one_election_per_term:
  assumes "cluster_run n (new_cluster nodes) C" and "\<forall>i. 0 \<le> i \<and> i < n \<longrightarrow> node_id (nodes i) = i \<and> total_nodes (nodes i) = n"
    and "(a, t) \<in> set (elections C)" and "(b, t) \<in> set (elections C)"
  shows "a = b"
  by (rule unique_election [OF cluster_run_inv [OF assms(1) new_cluster_inv [OF assms(2)]] assms(3,4)])

text \<open>A cluster of three in which node 0 asks for the votes of term 1 and node 1 gives it.\<close>

lemma sample_election:
  "\<exists>C. cluster_run 3 (new_cluster sample_node) C \<and> elections C = [(0, 1)]"
proof -
  let ?C0 = "new_cluster sample_node"
  let ?req = "request_of 1 0" and ?grant = "grant_of 1"
  have w0: "worlds ?C0 i = start_world (sample_node i)" "in_flight ?C0 = []" "elections ?C0 = []" for i by (simp_all add: new_cluster_def)
  obtain s1 where s1: "node_step sample_env VoteTimer (start_world (sample_node 0)) = Inr s1" "state (node s1) = CANDIDATE" "cur_term (node s1) = 1" "voted_for (node s1) = - 1"
    "votes_collected (node s1) = 0" "sent s1 = []" "vote_timers s1 = 1" "node_id (node s1) = 0" "total_nodes (node s1) = 3" "partition_id (node s1) = 0"
    "log_entries (node s1) = [sentinel]"
    by (simp add: timer_defs Let_def)
  let ?C1 = "node_acts 3 0 s1 ?C0"
  have run1: "cluster_run 3 ?C0 ?C1" by (rule cluster_outside [OF cluster_begin, of 0 _ VoteTimer sample_env]) (use s1(1) in \<open>simp_all add: w0\<close>)
  have C1: "worlds ?C1 0 = s1" "worlds ?C1 1 = start_world (sample_node 1)" "in_flight ?C1 = []" "elections ?C1 = []"
    using s1 by (simp_all add: w0 node_acts_def)
  obtain s2 where s2: "node_step sample_env VoteDelay s1 = Inr s2" "state (node s2) = CANDIDATE" "cur_term (node s2) = 1"
    "votes_collected (node s2) = 1" "sent s2 = [(ToAll, ?req)]" "total_nodes (node s2) = 3"
    using s1 by (simp add: run_simps request_of_def)
  let ?C2 = "node_acts 3 0 s2 ?C1"
  have run2: "cluster_run 3 ?C0 ?C2" by (rule cluster_outside [OF run1, of 0 VoteDelay sample_env]) (use s2(1) in simp_all)
  have C2: "worlds ?C2 0 = s2" "worlds ?C2 1 = start_world (sample_node 1)" "in_flight ?C2 = [] @ (0, 1, ?req) # [(0, 2, ?req)]" "elections ?C2 = []"
    using s1 s2 C1 by (simp_all add: node_acts_def upto.simps)
  obtain s3 where s3: "node_step sample_env (Receive ?req) (start_world (sample_node 1)) = Inr s3" "sent s3 = [(ToNode 0, ?grant)]" "state (node s3) = CANDIDATE"
    by (simp add: run_simps request_of_def grant_of_def)
  let ?C3 = "node_acts 3 1 s3 (?C2\<lparr>in_flight := [] @ [(0, 2, ?req)], received := received ?C2 @ [(0, 1, ?req)]\<rparr>)"
  have run3: "cluster_run 3 ?C0 ?C3" by (rule cluster_receive [OF run2 C2(3)]) (use s3(1) C2(2) in simp)
  have C3: "worlds ?C3 0 = s2" "in_flight ?C3 = [(0, 2, ?req)] @ (1, 0, ?grant) # []" "elections ?C3 = []"
    using C2 s3 by (simp_all add: node_acts_def)
  obtain s4 where s4: "node_step sample_env (Receive ?grant) s2 = Inr s4" "state (node s4) = LEADER" "cur_term (node s4) = 1"
    using s2 by (simp add: run_simps grant_of_def)
  let ?C4 = "node_acts 3 0 s4 (?C3\<lparr>in_flight := [(0, 2, ?req)] @ [], received := received ?C3 @ [(1, 0, ?grant)]\<rparr>)"
  have run4: "cluster_run 3 ?C0 ?C4" by (rule cluster_receive [OF run3 C3(2)]) (use s4(1) C3(1) in simp)
  have "elections ?C4 = [(0, 1)]" using C3 s2 s4 by (simp add: node_acts_def)
  with run4 show ?thesis by blast
qed

theorem one_election_per_term_witness:
  "\<exists>C. cluster_run 3 (new_cluster sample_node) C \<and> (0, 1) \<in> set (elections C) \<and> (\<forall>b. (b, 1) \<in> set (elections C) \<longrightarrow> b = 0)"
proof -
  obtain C where C: "cluster_run 3 (new_cluster sample_node) C" "elections C = [(0, 1)]" using sample_election by blast
  from one_election_per_term [OF C(1), of _ 1 0] C show ?thesis by auto
qed

end
