(* ===== verification/Cluster_Node_Queue.thy ===== *)
theory Cluster_Node_Queue
  imports Cluster_Node_Election
begin

text \<open>
  What a node does to its message queue: every step runs calls of the queue, and the log operations among them (insertions and commits) are exactly those of the
  entries that the step commits, in the order of the log. Delivery to active consumers leaves no message undelivered.
\<close>

section \<open>Entries as operations of the queue\<close>

definition entry_op :: "LogEntry \<Rightarrow> queue_op option" where
  "entry_op e =
     (if le_operation e = LogEntry_ADD then Some (Insert (le_message_id e) (le_message e))
      else if le_operation e = LogEntry_COMMIT then Some (Commit (le_message_id e))
      else None)"

definition log_ops :: "LogEntry list \<Rightarrow> queue_op list" where
  "log_ops es = List.map_filter entry_op es"

lemma log_ops_simps [simp]:
  "log_ops [] = []" "log_ops (e # es) = (case entry_op e of None \<Rightarrow> log_ops es | Some x \<Rightarrow> x # log_ops es)"
  "log_ops (es @ fs) = log_ops es @ log_ops fs"
  by (simp_all add: log_ops_def map_filter_def split: option.split)

lemma queue_run_append [simp]: "queue_run q (xs @ ys) = queue_run (queue_run q xs) ys"
  by (simp add: queue_run_def)

lemma apply_entry_run: "apply_entry e q = queue_run q (log_ops [e])"
  by (simp add: apply_entry_def entry_op_def)

lemma apply_entries_run: "fold apply_entry es q = queue_run q (log_ops es)"
  by (induction es arbitrary: q) (auto simp: apply_entry_def entry_op_def split: option.split)

lemma log_ops_are_log_ops: "filter is_log_op (log_ops es) = log_ops es"
  by (induction es) (auto simp: entry_op_def)

text \<open>The loop of \<open>commit_log_entries\<close> applies a slice of the log.\<close>

lemma commit_slice:
  assumes "0 \<le> a" and "b < int (length (log_entries n))"
  shows "fold commit_log_entry [a + 1..b] n =
    n\<lparr>queue := fold apply_entry (slice (nat a + 1) (nat b + 1) (log_entries n)) (queue n)\<rparr>"
proof -
  have "fold commit_log_entry [a + 1..a + int k] n =
      n\<lparr>queue := fold apply_entry (slice (nat a + 1) (nat a + 1 + k) (log_entries n)) (queue n)\<rparr>"
    if "a + int k < int (length (log_entries n))" for k
    using that
  proof (induction k)
    case 0
    then show ?case by simp
  next
    case (Suc k)
    have upto: "[a + 1..a + int (Suc k)] = [a + 1..a + int k] @ [a + int (Suc k)]"
      using upto_rec2 [of "a + 1" "a + int (Suc k)"] by simp
    let ?i = "nat a + 1 + k"
    have i: "?i < length (log_entries n)" "nat (a + int (Suc k)) = ?i" using Suc.prems assms(1) by linarith+
    have "slice (nat a + 1) (Suc ?i) (log_entries n) = slice (nat a + 1) ?i (log_entries n) @ [log_entries n ! ?i]"
      using slice_slice [of "nat a + 1" ?i "Suc ?i" "log_entries n"] i by (simp add: slice_single)
    moreover have "commit_log_entry (a + int (Suc k)) (n\<lparr>queue := q\<rparr>) = n\<lparr>queue := apply_entry (log_entries n ! ?i) q\<rparr>" for q
      using i Suc.prems assms(1) by (simp add: commit_log_entry_def)
    moreover have "fold commit_log_entry [a + 1..a + int k] n =
        n\<lparr>queue := fold apply_entry (slice (nat a + 1) ?i (log_entries n)) (queue n)\<rparr>"
      using Suc by simp
    ultimately show ?case unfolding upto by (simp del: of_nat_Suc)
  qed
  note run = this
  show ?thesis
  proof (cases "a \<le> b")
    case True
    then show ?thesis using run [of "nat (b - a)"] assms by (simp add: nat_diff_distrib)
  qed simp
qed

section \<open>Steps as runs of the queue\<close>

text \<open>The queue after a step is a run of calls on the queue before it, with the given log operations.\<close>

definition ran :: "queue_op list \<Rightarrow> world \<Rightarrow> world \<Rightarrow> bool" where
  "ran xs s s' \<longleftrightarrow> (queue_inv (queue (node s)) \<longrightarrow>
     (\<exists>ops. queue (node s') = queue_run (queue (node s)) ops \<and> filter is_log_op ops = xs))"

lemma ran_same: "queue (node s') = queue (node s) \<Longrightarrow> ran [] s s'"
  unfolding ran_def by (metis filter.simps(1) queue_run_simps(1))

lemma ran_trans: "ran xs s t \<Longrightarrow> ran ys t u \<Longrightarrow> ran (xs @ ys) s u"
  unfolding ran_def by (metis filter_append queue_run_append queue_run_inv)

lemma ran_trans_Nil: "ran [] s t \<Longrightarrow> ran xs t u \<Longrightarrow> ran xs s u" "ran xs s t \<Longrightarrow> ran [] t u \<Longrightarrow> ran xs s u"
  using ran_trans [of "[]" s t xs u] ran_trans [of xs s t "[]" u] by auto

lemma get_message_stored:
  assumes "queue_inv q" and "m \<in> set (undelivered_messages q)"
  shows "get_message m q = (opt_get [] (map_find (message_store q) m), q)"
proof -
  from assms obtain x where "map_find (message_store q) m = Some x" unfolding queue_inv_def by blast
  then show ?thesis by (simp add: get_message_def map_index_def)
qed

lemma ran_deliver:
  assumes "deliver_messages env ids s = Inr s'" and "distinct ids" and "set ids \<subseteq> set (undelivered_messages (queue (node s)))"
  shows "ran [] s s'"
  using assms
proof (induction ids arbitrary: s)
  case Nil
  then show ?case by (simp add: ran_same)
next
  case (Cons m ids)
  show ?case
  proof (cases "queue_inv (queue (node s))")
    case inv: True
    let ?q = "queue (node s)"
    have m: "m \<in> set (undelivered_messages ?q)" using Cons.prems by simp
    let ?s2 = "\<lambda>c cm. update_node (\<lambda>n. n\<lparr>queue := snd (deliver_message_to_client_id m c (queue n))\<rparr>)
        ((update_node (\<lambda>n. n\<lparr>queue := ?q\<rparr>) s)\<lparr>clients := cm\<rparr>)"
    from Cons.prems(1) get_message_stored [OF inv m] obtain c cm where
      r: "(if c = - 1 then Inr ((update_node (\<lambda>n. n\<lparr>queue := ?q\<rparr>) s)\<lparr>clients := cm\<rparr>) else deliver_messages env ids (?s2 c cm)) = Inr s'"
      by (auto simp: Let_def split: prod.splits)
    show ?thesis
    proof (cases "c = - 1")
      case True
      with r show ?thesis by (auto intro!: ran_same)
    next
      case False
      have q2: "queue (node (?s2 c cm)) = queue_run ?q [Deliver m c]"
        using m by (simp add: get_all_undelivered_messages_def)
      have "ran [] s (?s2 c cm)"
        unfolding ran_def q2 by (intro impI exI [of _ "[Deliver m c]"]) simp
      moreover have "ran [] (?s2 c cm) s'"
      proof (rule Cons.IH)
        show "deliver_messages env ids (?s2 c cm) = Inr s'" using r False by simp
        show "distinct ids" using Cons.prems by simp
        show "set ids \<subseteq> set (undelivered_messages (queue (node (?s2 c cm))))"
          using Cons.prems by (auto simp: deliver_message_to_client_id_def case_prod_beta)
      qed
      ultimately show ?thesis by (rule ran_trans_Nil)
    qed
  qed (simp add: ran_def)
qed

lemma ran_delivery:
  assumes "trigger_message_delivery env s = Inr s'"
  shows "ran [] s s'"
proof (cases "queue_inv (queue (node s))")
  case True
  with assms show ?thesis
    by (auto simp: trigger_message_delivery_def get_all_undelivered_messages_def queue_inv_distinct
        split: if_splits intro: ran_same ran_deliver)
qed (simp add: ran_def)

lemma ran_commit:
  assumes "commit_log_entries env (a + 1) (b + 1) s = Inr s'" and "0 \<le> a" and "b < int (length (log_entries (node s)))"
  shows "ran (log_ops (slice (nat a + 1) (nat b + 1) (log_entries (node s)))) s s'"
proof -
  let ?es = "slice (nat a + 1) (nat b + 1) (log_entries (node s))"
  let ?s = "update_node (fold commit_log_entry [a + 1..b]) s"
  have "queue (node ?s) = queue_run (queue (node s)) (log_ops ?es)"
    using commit_slice [OF assms(2,3)] by (simp add: apply_entries_run)
  then have "ran (log_ops ?es) s ?s"
    unfolding ran_def using log_ops_are_log_ops by blast
  moreover have "ran [] ?s s'" using assms(1) by (intro ran_delivery) (simp add: commit_log_entries_def)
  ultimately show ?thesis by (rule ran_trans_Nil)
qed

text \<open>The entries between the commit indices of two worlds, in the log of the first.\<close>

definition newly_committed :: "world \<Rightarrow> world \<Rightarrow> LogEntry list" where
  "newly_committed s s' = slice (nat (commit_index (node s)) + 1) (nat (commit_index (node s')) + 1) (log_entries (node s))"

lemma newly_committed_same: "commit_index (node s') = commit_index (node s) \<Longrightarrow> newly_committed s s' = []"
  by (simp add: newly_committed_def)

text \<open>
  A step that commits applies the entries it commits, which are in the log, and hands the last of them to the storage; any other step leaves the commit
  index and the storage.
\<close>

definition stored_commit :: "int \<Rightarrow> cluster_node \<Rightarrow> cluster_node_storage" where
  "stored_commit i n = (if i = commit_index n then node_storage n
     else (node_storage n)\<lparr>log_entry_buffers := log_entry_buffers (node_storage n) @ [log_entries n ! nat i], metadata_buffer := \<lparr>last_committed = i\<rparr>\<rparr>)"

definition applies :: "world \<Rightarrow> world \<Rightarrow> bool" where
  "applies s s' \<longleftrightarrow> ran (log_ops (newly_committed s s')) s s' \<and>
     (commit_index (node s') = commit_index (node s) \<or> commit_index (node s') < int (length (log_entries (node s)))) \<and>
     node_storage (node s') = stored_commit (commit_index (node s')) (node s)"

lemma applies_ran:
  "ran [] s s' \<Longrightarrow> commit_index (node s') = commit_index (node s) \<Longrightarrow> node_storage (node s') = node_storage (node s) \<Longrightarrow> applies s s'"
  by (simp add: applies_def newly_committed_same stored_commit_def)

lemma applies_same:
  "queue (node s') = queue (node s) \<Longrightarrow> commit_index (node s') = commit_index (node s) \<Longrightarrow>
   node_storage (node s') = node_storage (node s) \<Longrightarrow> applies s s'"
  by (simp add: applies_ran ran_same)

lemma applies_commit_and_store:
  assumes "andThen (commit_log_entries env (commit_index (node s) + 1) (b + 1) s) (\<lambda>s. let s = update_node (\<lambda>n. n\<lparr>commit_index := f n\<rparr>) s
      in store_entries (commit_index (node s)) (b + 1) s) = Inr s'"
    and "\<And>q. f ((node s)\<lparr>queue := q\<rparr>) = b" and "0 \<le> commit_index (node s)" and "commit_index (node s) < b"
  shows "applies s s'"
proof -
  from assms(1) obtain t where t: "commit_log_entries env (commit_index (node s) + 1) (b + 1) s = Inr t"
    and st: "store_entries (commit_index (node (update_node (\<lambda>n. n\<lparr>commit_index := f n\<rparr>) t))) (b + 1)
        (update_node (\<lambda>n. n\<lparr>commit_index := f n\<rparr>) t) = Inr s'"
    by (auto simp: Let_def)
  from commit_log_entries_frame [OF t] obtain q cm where
    t': "t = s\<lparr>node := (node s)\<lparr>queue := q\<rparr>, clients := cm\<rparr>"
    unfolding delivered_def by blast
  have b: "b < int (length (log_entries (node s)))"
    using st t' by (auto simp: store_entries_def store_log_entries_and_metadata_def split: if_splits)
  from store_entries_frame [OF st] t' assms(2) have s': "commit_index (node s') = b" "queue (node s') = queue (node t)"
    by auto
  have "slice (nat b) (nat (b + 1)) (log_entries (node s)) = [log_entries (node s) ! nat b]"
    using b assms(3,4) slice_single [of "nat b" "log_entries (node s)"] by (simp add: nat_add_distrib)
  then have "node_storage (node s') = stored_commit b (node s)"
    using st t' assms(2-4) by (auto simp: store_entries_def store_log_entries_and_metadata_def stored_commit_def split: if_splits)
  moreover have "ran (log_ops (newly_committed s s')) s t"
    unfolding newly_committed_def s'(1) by (rule ran_commit [OF t assms(3) b])
  moreover have "ran [] t s'" using s'(2) by (rule ran_same)
  ultimately show ?thesis using s' b by (auto simp: applies_def intro: ran_trans_Nil)
qed

lemma applies_commit_from_leader:
  assumes "commit_from_leader env req s = Inr s'" and "0 \<le> commit_index (node s)"
  shows "applies s s'"
proof (cases "commit_index (node s) < aeq_leader_commit req \<and> aeq_leader_commit req < int (length (log_entries (node s)))")
  case True
  with assms(1) have "andThen (commit_log_entries env (commit_index (node s) + 1) (aeq_leader_commit req + 1) s) (\<lambda>s.
      let s = update_node (\<lambda>n. n\<lparr>commit_index := aeq_leader_commit req\<rparr>) s
      in store_entries (commit_index (node s)) (aeq_leader_commit req + 1) s) = Inr s'"
    by (simp only: commit_from_leader_def if_True simp_thms)
  from applies_commit_and_store [OF this _ assms(2)] True show ?thesis by simp
next
  case False
  with assms(1) show ?thesis by (simp only: commit_from_leader_def if_False) (simp add: applies_same)
qed

lemma applies_commit_from_majority:
  assumes "commit_from_majority env i s = Inr s'" and "0 \<le> commit_index (node s)"
  shows "applies s s'"
proof (cases "commit_index (node s) < i \<and> int (count_synced_nodes i (node s)) + 1 > total_nodes (node s) div 2")
  case True
  with assms(1) have "andThen (commit_log_entries env (commit_index (node s) + 1) (i + 1) s) (\<lambda>s.
      let s = update_node (\<lambda>n. n\<lparr>commit_index := max (commit_index n) i\<rparr>) s
      in store_entries (commit_index (node s)) (i + 1) s) = Inr s'"
    by (simp only: commit_from_majority_def if_True simp_thms)
  from applies_commit_and_store [OF this _ assms(2)] True show ?thesis by simp
next
  case False
  with assms(1) show ?thesis by (simp only: commit_from_majority_def if_False) (simp add: applies_same)
qed

section \<open>The handlers\<close>

lemma applies_between:
  assumes "queue (node t) = queue (node s)" "commit_index (node t) = commit_index (node s)" "log_entries (node t) = log_entries (node s)"
    "node_storage (node t) = node_storage (node s)"
    and "applies t u" and "queue (node v) = queue (node u)" "commit_index (node v) = commit_index (node u)"
    "node_storage (node v) = node_storage (node u)"
  shows "applies s v"
proof -
  have new: "newly_committed s v = newly_committed t u" using assms by (simp add: newly_committed_def)
  have "ran [] s t" "ran [] u v" using assms(1,6) by (auto intro: ran_same)
  with assms(5) have "ran (log_ops (newly_committed s v)) s v"
    unfolding new applies_def using ran_trans_Nil by blast
  moreover have "stored_commit (commit_index (node v)) (node s) = stored_commit (commit_index (node u)) (node t)"
    using assms by (simp add: stored_commit_def)
  ultimately show ?thesis using assms by (simp add: applies_def)
qed

lemma post_message_same: "post_message env d m s = Inr s' \<Longrightarrow> node s' = node s"
  by (auto dest: post_message_Inr)

lemma applies_append_request:
  assumes "handle_append_entries_request env req s = Inr s'" and "0 \<le> commit_index (node s)"
  shows "applies s s'"
proof (cases "aeq_term req < cur_term (node s)")
  case True
  with assms(1) show ?thesis
    by (auto simp: handle_append_entries_request_def append_entries_rejected_def intro!: applies_same dest!: post_message_same)
next
  case False
  let ?s = "follow_leader env req s"
  have s: "queue (node ?s) = queue (node s)" "commit_index (node ?s) = commit_index (node s)" "log_entries (node ?s) = log_entries (node s)"
    "node_storage (node ?s) = node_storage (node s)"
    by (simp_all add: follow_leader_def)
  from assms(1) False consider (reject) "append_entries_rejected env (aeq_leader_id req) ?s = Inr s'"
    | (accept) t where "commit_from_leader env req ?s = Inr t" "append_from_leader env req t = Inr s'"
    by (auto simp: handle_append_entries_request_def Let_def split: if_splits)
  then show ?thesis
  proof cases
    case reject
    then show ?thesis using s by (auto simp: append_entries_rejected_def intro!: applies_same dest!: post_message_same)
  next
    case accept
    from append_from_leader_Inr [OF accept(2)] have "queue (node s') = queue (node t)" "commit_index (node s') = commit_index (node t)"
      "node_storage (node s') = node_storage (node t)"
      by auto
    moreover have "applies ?s t"
      using applies_commit_from_leader [OF accept(1)] assms(2) s by simp
    ultimately show ?thesis using applies_between [of ?s s t s'] s by blast
  qed
qed

lemma applies_append_response:
  assumes "handle_append_entries_response env resp s = Inr s'" and "0 \<le> commit_index (node s)"
  shows "applies s s'"
proof -
  let ?f = "aes_follower_id resp" and ?i = "aes_last_index_synced resp"
  let ?s = "request_answered ?f s"
  have s: "queue (node ?s) = queue (node s)" "commit_index (node ?s) = commit_index (node s)" "log_entries (node ?s) = log_entries (node s)"
    "node_storage (node ?s) = node_storage (node s)"
    by (simp_all add: request_answered_def case_prod_beta Let_def)
  from assms obtain t where
    t: "(if aes_append_result_success resp \<noteq> 0 then append_succeeded env ?f ?i ?s else Inr (append_failed resp ?f ?s)) = Inr t"
    and upd: "trigger_entry_update env ?f t = Inr s'"
    by (auto simp: handle_append_entries_response_def Let_def)
  have s': "queue (node s') = queue (node t)" "commit_index (node s') = commit_index (node t)"
      "node_storage (node s') = node_storage (node t)"
    using trigger_entry_update_frame [OF upd] by (auto simp: replicated_def)
  show ?thesis
  proof (cases "aes_append_result_success resp \<noteq> 0")
    case True
    let ?s2 = "update_node (\<lambda>n. n\<lparr>matched_index := map_set ?f ?i (matched_index n)\<rparr>) ?s"
    from True t obtain u where u: "commit_from_majority env ?i ?s2 = Inr u"
      and t': "queue (node t) = queue (node u)" "commit_index (node t) = commit_index (node u)"
      "node_storage (node t) = node_storage (node u)"
      by (auto simp: append_succeeded_def case_prod_beta Let_def)
    have "applies ?s2 u"
      using applies_commit_from_majority [OF u] assms(2) s by simp
    then show ?thesis using applies_between [of ?s2 s u s'] s s' t' by simp
  next
    case False
    with t have "queue (node t) = queue (node ?s)" "commit_index (node t) = commit_index (node ?s)"
      "node_storage (node t) = node_storage (node ?s)"
      by (auto simp: append_failed_def case_prod_beta Let_def)
    then show ?thesis using s s' by (intro applies_same) simp_all
  qed
qed

lemma applies_delivery:
  assumes "trigger_message_delivery env t = Inr s'" and "ran [] s t" and "commit_index (node t) = commit_index (node s)"
    and "node_storage (node t) = node_storage (node s)"
  shows "applies s s'"
  using ran_trans_Nil(1) [OF assms(2) ran_delivery [OF assms(1)]] trigger_message_delivery_frame [OF assms(1)] assms(3,4)
  by (auto simp: delivered_def intro: applies_ran)

lemma applies_open_queue:
  assumes "handle_client_open_queue env s = Inr s'"
  shows "applies s s'"
proof -
  have same: "queue (node t) = queue (node s) \<and> commit_index (node t) = commit_index (node s) \<and> node_storage (node t) = node_storage (node s)" if "reply_to_client env m s = Inr t" for m t
    using reply_to_client_frame [OF that] by auto
  show ?thesis
  proof (cases "state (node s) = LEADER")
    case True
    with assms obtain t where "reply_to_client env (open_queue_response Status_SUCCESS [] None) s = Inr t"
        and "trigger_message_delivery env t = Inr s'"
      by (auto simp: handle_client_open_queue_def)
    then show ?thesis using same by (auto intro: applies_delivery ran_same)
  next
    case False
    with assms same show ?thesis by (auto simp: handle_client_open_queue_def intro!: applies_same)
  qed
qed

lemma applies_replicated: "replicated (update_node (\<lambda>n. n\<lparr>log_entries := log_entries n @ [e]\<rparr>) s) s' \<Longrightarrow> applies s s'"
  by (auto simp: replicated_def intro!: applies_same)

lemma node_step_applies:
  assumes "node_step env ev s = Inr s'" and "0 \<le> commit_index (node s)"
  shows "applies s s'"
proof (cases ev)
  case (Receive m)
  with assms(1) have "local_message_handler env m s = Inr s'" by simp
  then show ?thesis
    using applies_append_request [OF _ assms(2)] applies_append_response [OF _ assms(2)]
    by (auto simp: local_message_handler_def handle_client_put_message_def handle_client_commit_message_def
        handle_request_vote_request_def handle_request_vote_response_def Let_def
        split: if_splits dest!: post_message_same dest: add_log_entry_frame applies_open_queue
        intro: applies_same applies_replicated)
next
  case (ConsumerLost c)
  let ?s = "update_node (\<lambda>n. n\<lparr>queue := snd (handle_client_disconnected c (queue n))\<rparr>) s"
  have "ran [] s ?s"
    unfolding ran_def by (intro impI exI [of _ "[Disconnect c]"]) simp
  with ConsumerLost assms(1) show ?thesis
    by (auto simp: consumer_disconnected_def intro: applies_delivery)
qed (use assms(1) in \<open>auto simp: timer_defs Let_def split: if_splits dest!: post_message_same intro!: applies_same\<close>)

end
