(* ===== verification/Cluster_Node_Replica.thy ===== *)
theory Cluster_Node_Replica
  imports Cluster_Node_Queue "HOL-Library.Sublist"
begin

text \<open>
  The queue of a node as the state machine of its log: what a step applies to it, what two nodes with the same committed entries agree on, and that
  a leader hands every message to a consumer.
\<close>

section \<open>What a step keeps of the log\<close>

lemma append_keeps_prefix:
  assumes "append_log_entries_from i es log = Inr log'" and "0 \<le> i" and "k \<le> length log"
    and "\<And>j. j < length es \<Longrightarrow> nat i + j < k \<Longrightarrow> le_term (log ! (nat i + j)) = le_term (es ! j)"
  shows "take k log' = take k log"
  using assms
proof (induction es arbitrary: i log)
  case (Cons e es)
  from Cons.prems(1) obtain mid where mid: "append_log_entry i e log = Inr mid"
    and rest: "append_log_entries_from (i + 1) es mid = Inr log'" by auto
  have m: "take k mid = take k log \<and> k \<le> length mid"
    using mid Cons.prems(2,3) Cons.prems(4) [of 0]
    by (cases "nat i < k")
      (auto simp: append_log_entry_def log_at_def clean_log_entries_out_of_sync_def split: if_splits)
  have nth: "mid ! j = log ! j" if "j < k" for j
    using m that by (metis nth_take)
  have "take k log' = take k mid"
  proof (rule Cons.IH [OF rest])
    show "le_term (mid ! (nat (i + 1) + j)) = le_term (es ! j)" if "j < length es" "nat (i + 1) + j < k" for j
      using Cons.prems(2) Cons.prems(4) [of "Suc j"] that nth by (simp add: nat_add_distrib)
  qed (use m Cons.prems(2) in auto)
  with m show ?case by simp
qed simp

text \<open>
  A request of a leader respects what the node has committed, or commits by it, when its entries have the terms of the node's own entries there. In Raft
  every leader of a later term has the committed entries, so every request does.
\<close>

definition respects_commits :: "node_event \<Rightarrow> world \<Rightarrow> bool" where
  "respects_commits ev s \<longleftrightarrow> (case ev of
       Receive m \<Rightarrow> msg_type m = APPEND_ENTRIES_REQUEST \<longrightarrow> (let req = get_append_request m in
         \<forall>j < length (aeq_entries req). let i = aeq_prev_log_index req + 1 + int j in
           i < int (length (log_entries (node s))) \<and> (i \<le> commit_index (node s) \<or> i \<le> aeq_leader_commit req) \<longrightarrow>
           le_term (log_entries (node s) ! nat i) = le_term (aeq_entries req ! j))
     | _ \<Rightarrow> True)"

lemma append_request_keeps_committed:
  assumes "handle_append_entries_request env req s = Inr s'" and "0 \<le> commit_index (node s)"
    and "commit_index (node s) < int (length (log_entries (node s)))"
    and "\<And>j. j < length (aeq_entries req) \<Longrightarrow> aeq_prev_log_index req + 1 + int j < int (length (log_entries (node s))) \<Longrightarrow>
      aeq_prev_log_index req + 1 + int j \<le> commit_index (node s) \<or> aeq_prev_log_index req + 1 + int j \<le> aeq_leader_commit req \<Longrightarrow>
      le_term (log_entries (node s) ! nat (aeq_prev_log_index req + 1 + int j)) = le_term (aeq_entries req ! j)"
  shows "take (nat (commit_index (node s')) + 1) (log_entries (node s')) = take (nat (commit_index (node s')) + 1) (log_entries (node s))"
proof (cases "log_entries (node s') = log_entries (node s)")
  case False
  let ?s = "follow_leader env req s" and ?p = "aeq_prev_log_index req"
  have s: "commit_index (node ?s) = commit_index (node s)" "log_entries (node ?s) = log_entries (node s)"
    by (simp_all add: follow_leader_def)
  from assms(1) False obtain t where sync: "check_if_previous_log_in_sync (aeq_prev_log_term req) ?p (log_entries (node s)) = Inr True"
    and t: "commit_from_leader env req ?s = Inr t" and a: "append_from_leader env req t = Inr s'"
    using s by (auto simp: handle_append_entries_request_def append_entries_rejected_def Let_def split: if_splits dest!: post_message_same)
  have p: "0 \<le> ?p" using sync by (auto simp: check_if_previous_log_in_sync_def log_at_def split: if_splits)
  have logt: "log_entries (node t) = log_entries (node s)"
    using commit_from_leader_frame [OF t] s by (auto simp: committed_def)
  have c: "commit_index (node s') = commit_index (node t)" using append_from_leader_Inr [OF a] by auto
  have bound: "commit_index (node s') < int (length (log_entries (node s)))"
    and le: "commit_index (node s') \<le> commit_index (node s) \<or> commit_index (node s') \<le> aeq_leader_commit req"
    and pos: "0 \<le> commit_index (node s')"
  proof -
    have "commit_index (node t) = commit_index (node s) \<or>
        (commit_index (node t) = aeq_leader_commit req \<and> commit_index (node s) < aeq_leader_commit req \<and>
         aeq_leader_commit req < int (length (log_entries (node s))))"
      using t s by (auto simp: commit_from_leader_def Let_def split: if_splits dest!: commit_log_entries_frame store_entries_frame)
    then show "commit_index (node s') < int (length (log_entries (node s)))"
      "commit_index (node s') \<le> commit_index (node s) \<or> commit_index (node s') \<le> aeq_leader_commit req" "0 \<le> commit_index (node s')"
      using assms(2,3) c by auto
  qed
  obtain log where log: "append_log_entries ?p (aeq_entries req) (log_entries (node t)) = Inr log" "log_entries (node s') = log"
    using a by (auto simp: append_from_leader_def Let_def dest!: post_message_same)
  show ?thesis unfolding log(2)
  proof (rule append_keeps_prefix)
    show "append_log_entries_from (?p + 1) (aeq_entries req) (log_entries (node s)) = Inr log"
      using log(1) logt by (simp add: append_log_entries_def)
    show "nat (commit_index (node s')) + 1 \<le> length (log_entries (node s))" using bound pos by linarith
    show "le_term (log_entries (node s) ! (nat (?p + 1) + j)) = le_term (aeq_entries req ! j)"
      if "j < length (aeq_entries req)" "nat (?p + 1) + j < nat (commit_index (node s')) + 1" for j
    proof -
      have eq: "nat (?p + 1 + int j) = nat (?p + 1) + j" using p by simp
      have "?p + 1 + int j \<le> commit_index (node s')" using that(2) p pos by linarith
      then show ?thesis using assms(4) [OF that(1)] bound le unfolding eq by linarith
    qed
  qed (use p in simp)
qed simp

lemma append_response_keeps_log:
  assumes "handle_append_entries_response env resp s = Inr s'"
  shows "log_entries (node s') = log_entries (node s)"
proof -
  have "log_entries (node (request_answered f s)) = log_entries (node s)" "log_entries (node (append_failed resp f s)) = log_entries (node s)"
    for f s by (simp_all add: request_answered_def append_failed_def case_prod_beta Let_def)
  moreover have "log_entries (node t') = log_entries (node t)" if "append_succeeded env f i t = Inr t'" for f i t t'
    using that by (auto simp: append_succeeded_def case_prod_beta Let_def committed_def dest!: commit_from_majority_frame)
  moreover have "log_entries (node t') = log_entries (node t)" if "trigger_entry_update env f t = Inr t'" for f t t'
    using trigger_entry_update_frame [OF that] by (auto simp: replicated_def)
  ultimately show ?thesis
    using assms by (auto simp: handle_append_entries_response_def Let_def split: if_splits)
qed

lemma delivery_keeps_log:
  "trigger_message_delivery env s = Inr s' \<Longrightarrow> log_entries (node s') = log_entries (node s)"
  by (auto simp: delivered_def dest!: trigger_message_delivery_frame)

lemma client_keeps_log:
  "add_log_entry env e s = Inr s' \<Longrightarrow> log_entries (node s') = log_entries (node s) @ [e]"
  "handle_client_open_queue env s = Inr s' \<Longrightarrow> log_entries (node s') = log_entries (node s)"
  by (auto simp: handle_client_open_queue_def replicated_def split: if_splits
      dest!: add_log_entry_frame reply_to_client_frame delivery_keeps_log)

lemma node_step_keeps_committed:
  assumes "node_step env ev s = Inr s'" and "respects_commits ev s"
    and "0 \<le> commit_index (node s)" and "commit_index (node s) < int (length (log_entries (node s)))"
  shows "take (nat (commit_index (node s')) + 1) (log_entries (node s')) = take (nat (commit_index (node s')) + 1) (log_entries (node s))"
proof (cases "\<exists>m. ev = Receive m \<and> msg_type m = APPEND_ENTRIES_REQUEST")
  case True
  then obtain m where m: "ev = Receive m" "msg_type m = APPEND_ENTRIES_REQUEST" by blast
  with assms(1) have "handle_append_entries_request env (get_append_request m) s = Inr s'" by (simp add: local_message_handler_def)
  then show ?thesis
    by (rule append_request_keeps_committed [OF _ assms(3,4)]) (use assms(2) m in \<open>auto simp: respects_commits_def Let_def\<close>)
next
  case False
  have "\<exists>es. log_entries (node s') = log_entries (node s) @ es"
    using assms(1) False
    by (cases ev)
      (auto simp: local_message_handler_def handle_client_put_message_def handle_client_commit_message_def
        handle_request_vote_request_def handle_request_vote_response_def consumer_disconnected_def timer_defs Let_def
        split: if_splits dest!: post_message_same append_response_keeps_log client_keeps_log delivery_keeps_log)
  moreover have "nat (commit_index (node s')) + 1 \<le> length (log_entries (node s))"
    using node_step_applies [OF assms(1,3)] assms(3,4) node_step_progress [OF assms(1)]
    by (auto simp: applies_def progress_def)
  ultimately show ?thesis by auto
qed

section \<open>The queue as the state machine of the log\<close>

text \<open>Runs in which no leader contradicts what the node has committed.\<close>

inductive raft_run :: "wire \<Rightarrow> server_configuration \<Rightarrow> world \<Rightarrow> world \<Rightarrow> bool" for w cfg where
  raft_start: "raft_run w cfg s s"
| raft_step: "raft_run w cfg s t \<Longrightarrow> env_wire env = w \<Longrightarrow> server_config env = cfg \<Longrightarrow> event_ok ev \<Longrightarrow>
    respects_commits ev t \<Longrightarrow> node_step env ev t = Inr u \<Longrightarrow> raft_run w cfg s u"

text \<open>A node that has committed what is in its queue: the entries up to its commit index, in their order.\<close>

definition committed_entries :: "cluster_node \<Rightarrow> LogEntry list" where
  "committed_entries n = slice 1 (nat (commit_index n) + 1) (log_entries n)"

definition queue_is_log :: "cluster_node \<Rightarrow> bool" where
  "queue_is_log n \<longleftrightarrow> 0 \<le> commit_index n \<and> commit_index n < int (length (log_entries n)) \<and>
     (\<exists>ops. queue n = queue_run empty_queue ops \<and> filter is_log_op ops = log_ops (committed_entries n))"

lemma queue_is_log_inv: "queue_is_log n \<Longrightarrow> queue_inv (queue n)"
  unfolding queue_is_log_def using queue_run_inv [OF queue_inv_empty] by metis

lemma slice_take: "slice i j (take k xs) = slice i (min j k) xs"
  by (simp add: slice_def min.commute)

lemma queue_is_log_step:
  assumes "node_step env ev s = Inr s'" and "respects_commits ev s" and "queue_is_log (node s)"
  shows "queue_is_log (node s')" and "committed_entries (node s') = committed_entries (node s) @ newly_committed s s'"
proof -
  let ?c = "nat (commit_index (node s))" and ?c' = "nat (commit_index (node s'))"
  from assms(3) have pos: "0 \<le> commit_index (node s)" and len: "commit_index (node s) < int (length (log_entries (node s)))"
    by (simp_all add: queue_is_log_def)
  have mono: "commit_index (node s) \<le> commit_index (node s')" using node_step_progress [OF assms(1)] by (simp add: progress_def)
  from node_step_applies [OF assms(1) pos] have run: "ran (log_ops (newly_committed s s')) s s'"
    and len': "commit_index (node s') < int (length (log_entries (node s)))"
    using len by (auto simp: applies_def)
  have keep: "take (?c' + 1) (log_entries (node s')) = take (?c' + 1) (log_entries (node s))"
    by (rule node_step_keeps_committed [OF assms(1,2) pos len])
  have "length (take (?c' + 1) (log_entries (node s'))) = ?c' + 1" unfolding keep using len' pos mono by simp
  then have bound: "commit_index (node s') < int (length (log_entries (node s')))" by simp
  have "committed_entries (node s') = slice 1 (?c' + 1) (take (?c' + 1) (log_entries (node s')))"
    by (simp add: committed_entries_def slice_take)
  also have "\<dots> = slice 1 (?c + 1) (log_entries (node s)) @ slice (?c + 1) (?c' + 1) (log_entries (node s))"
    unfolding keep using mono by (simp add: slice_take slice_slice)
  finally have split: "committed_entries (node s') = committed_entries (node s) @ newly_committed s s'"
    by (simp add: committed_entries_def newly_committed_def)
  from assms(3) obtain xs where xs: "queue (node s) = queue_run empty_queue xs" "filter is_log_op xs = log_ops (committed_entries (node s))"
    by (auto simp: queue_is_log_def)
  from run queue_is_log_inv [OF assms(3)] obtain ys where
    "queue (node s') = queue_run (queue (node s)) ys" "filter is_log_op ys = log_ops (newly_committed s s')"
    by (auto simp: ran_def)
  with xs split have "queue (node s') = queue_run empty_queue (xs @ ys) \<and> filter is_log_op (xs @ ys) = log_ops (committed_entries (node s'))"
    by simp
  with bound pos mono show "queue_is_log (node s')" unfolding queue_is_log_def by (intro conjI exI [of _ "xs @ ys"]) auto
  show "committed_entries (node s') = committed_entries (node s) @ newly_committed s s'" by (rule split)
qed

lemmas committed_entries_step = queue_is_log_step(2)

lemma raft_run_queue_is_log: "raft_run w cfg s u \<Longrightarrow> queue_is_log (node s) \<Longrightarrow> queue_is_log (node u)"
  by (induction rule: raft_run.induct) (auto intro: queue_is_log_step(1))

lemma queue_is_log_fields:
  assumes "queue_is_log n"
  shows "message_store (queue n) = message_store (fold apply_entry (committed_entries n) empty_queue) \<and>
    committed_messages (queue n) = committed_messages (fold apply_entry (committed_entries n) empty_queue) \<and>
    persisted_status (status_of (queue n) m) = status_of (fold apply_entry (committed_entries n) empty_queue) m"
proof -
  from assms obtain ops where "queue n = queue_run empty_queue ops" "filter is_log_op ops = log_ops (committed_entries n)"
    by (auto simp: queue_is_log_def)
  moreover from this(2) have "fold apply_entry (committed_entries n) empty_queue = queue_run empty_queue (filter is_log_op ops)"
    by (simp add: apply_entries_run)
  ultimately show ?thesis
    using queue_run_log_fields [of empty_queue empty_queue ops] by (simp add: queue_run_status queue_inv_empty persisted_status_fold)
qed

section \<open>Replicas\<close>

text \<open>A follower that receives one message of a client, and then learns that it is committed.\<close>

definition hello :: LogEntry where
  "hello = log_entry 1 1 42 LogEntry_ADD ''hello''"

definition follower_run :: "(node_env \<times> node_event) list" where
  "follower_run = [(sample_env, Receive (append_request 1 0 0 0 [hello] 0)), (sample_env, Receive (append_request 1 0 1 1 [] 1))]"

lemma append_request_fields [simp]:
  "aeq_term (get_append_request (append_request t l pi pt es lc)) = t"
  "aeq_leader_id (get_append_request (append_request t l pi pt es lc)) = l"
  "aeq_prev_log_index (get_append_request (append_request t l pi pt es lc)) = pi"
  "aeq_prev_log_term (get_append_request (append_request t l pi pt es lc)) = pt"
  "aeq_entries (get_append_request (append_request t l pi pt es lc)) = es"
  "aeq_leader_commit (get_append_request (append_request t l pi pt es lc)) = lc"
  by (simp_all add: append_request_def load_defs get_defs message_getter_defs)

lemma log_entry_fields [simp]:
  "le_index (log_entry i t m op s) = i" "le_term (log_entry i t m op s) = t" "le_message_id (log_entry i t m op s) = m"
  "le_operation (log_entry i t m op s) = op" "le_message (log_entry i t m op s) = s"
  by (simp_all add: log_entry_def message_getter_defs)

lemmas append_run_simps = run_simps handle_append_entries_request_def follow_leader_def append_from_leader_def commit_from_leader_def
  check_if_previous_log_in_sync_def log_at_def append_log_entries_def append_log_entry_def commit_log_entries_def
  trigger_message_delivery_def store_entries_def store_log_entries_and_metadata_def commit_log_entry_def

lemma follower_runs:
  "in_int32 k \<Longrightarrow> \<exists>u. run_events follower_run (start_world (sample_node k)) = Inr u \<and> commit_index (node u) = 1 \<and> log_entries (node u) = [sentinel, hello]"
  by (simp add: append_run_simps follower_run_def hello_def del: andThen_Inr)

lemma follower_run_is_raft_run:
  assumes "run_events follower_run (start_world (sample_node k)) = Inr u"
  shows "raft_run varint_wire sample_config (start_world (sample_node k)) u"
proof -
  let ?first = "Receive (append_request 1 0 0 0 [hello] 0)" and ?second = "Receive (append_request 1 0 1 1 [] 1)"
  from assms obtain t where t: "node_step sample_env ?first (start_world (sample_node k)) = Inr t" "node_step sample_env ?second t = Inr u"
    by (auto simp: run_events_def follower_run_def simp del: node_step.simps)
  have "respects_commits ?first (start_world (sample_node k))" "respects_commits ?second t"
    by (simp_all add: respects_commits_def)
  with t show ?thesis
    by (auto intro!: raft_step [OF raft_step [OF raft_start]] simp: message_types simp del: node_step.simps)
qed

lemma sample_node_queue [simp]: "queue (sample_node k) = empty_queue"
  by (simp add: sample_node_def initial_node_def Let_def)

lemma sample_node_is_log: "queue_is_log (sample_node k)"
  unfolding queue_is_log_def by (intro conjI exI [of _ "[]"]) (simp_all add: committed_entries_def slice_def)

text \<open>
  A step of a node applies to its queue exactly the entries between the old and the new commit index, once each and in the order of
  the log; everything else it does to the queue is delivering and taking back messages. The queue stays well formed.
\<close>

lemma step_applies_committed_entries:
  assumes "node_step env ev s = Inr s'" and "0 \<le> commit_index (node s)" and "queue_inv (queue (node s))"
  shows "queue_inv (queue (node s')) \<and>
    (\<exists>ops. queue (node s') = queue_run (queue (node s)) ops \<and>
      filter is_log_op ops =
        log_ops (slice (nat (commit_index (node s)) + 1) (nat (commit_index (node s')) + 1) (log_entries (node s))))"
  using node_step_applies [OF assms(1,2)] assms(3) queue_run_inv [OF assms(3)]
  unfolding applies_def ran_def newly_committed_def by metis

text \<open>
  C10: over every run in which no leader contradicts a committed entry, the committed entries of a node only grow at the end, and its queue is the state
  machine of the log: stored and committed messages, and which messages are waiting, are those of replaying the committed entries on an empty queue.
\<close>

theorem queue_is_replay_of_log:
  assumes "raft_run w cfg s u" and "queue_is_log (node s)"
  shows "let r = fold apply_entry (committed_entries (node u)) empty_queue; q = queue (node u)
    in message_store q = message_store r \<and> committed_messages q = committed_messages r \<and>
       (\<forall>m. persisted_status (status_of q m) = status_of r m)"
  using queue_is_log_fields [OF raft_run_queue_is_log [OF assms]] by (simp add: Let_def)

theorem queue_is_replay_of_log_witness:
  "\<exists>u. raft_run varint_wire sample_config (start_world (sample_node 1)) u \<and> committed_entries (node u) = [hello] \<and>
     message_store (queue (node u)) = [(42, ''hello'')]"
proof -
  obtain u where u: "run_events follower_run (start_world (sample_node 1)) = Inr u" "commit_index (node u) = 1"
      "log_entries (node u) = [sentinel, hello]"
    using follower_runs [of 1] by auto
  note run = follower_run_is_raft_run [OF u(1)]
  have es: "committed_entries (node u) = [hello]" using u by (simp add: committed_entries_def slice_def numeral_2_eq_2)
  with queue_is_replay_of_log [OF run] sample_node_is_log have "message_store (queue (node u)) = [(42, ''hello'')]"
    by (simp add: Let_def apply_entry_def hello_def insert_message_def empty_queue_def map_find_def)
  with run es show ?thesis by blast
qed



text \<open>
  C9: two nodes that have committed the same entries, each over a run in which no leader contradicts what it has committed, hold the same messages,
  have the same messages committed, and agree on which of the others are to be delivered.
\<close>

theorem replicas_agree:
  assumes "raft_run w cfg s u" and "queue_is_log (node s)" and "raft_run w' cfg' t v" and "queue_is_log (node t)"
    and "committed_entries (node u) = committed_entries (node v)"
  shows "message_store (queue (node u)) = message_store (queue (node v)) \<and>
    committed_messages (queue (node u)) = committed_messages (queue (node v)) \<and>
    (\<forall>m. persisted_status (status_of (queue (node u)) m) = persisted_status (status_of (queue (node v)) m))"
  using queue_is_log_fields [OF raft_run_queue_is_log [OF assms(1,2)]] queue_is_log_fields [OF raft_run_queue_is_log [OF assms(3,4)]] assms(5)
  by simp

theorem replicas_agree_witness:
  "\<exists>u v. raft_run varint_wire sample_config (start_world (sample_node 1)) u \<and>
     raft_run varint_wire sample_config (start_world (sample_node 2)) v \<and>
     committed_entries (node u) = [hello] \<and> message_store (queue (node u)) = message_store (queue (node v))"
proof -
  obtain u where u: "run_events follower_run (start_world (sample_node 1)) = Inr u" "commit_index (node u) = 1"
      "log_entries (node u) = [sentinel, hello]"
    using follower_runs [of 1] by auto
  obtain v where v: "run_events follower_run (start_world (sample_node 2)) = Inr v" "commit_index (node v) = 1"
      "log_entries (node v) = [sentinel, hello]"
    using follower_runs [of 2] by auto
  note runs = follower_run_is_raft_run [OF u(1)] follower_run_is_raft_run [OF v(1)]
  have es: "committed_entries (node u) = [hello]" "committed_entries (node v) = [hello]"
    using u v by (simp_all add: committed_entries_def slice_def numeral_2_eq_2)
  with replicas_agree [OF runs(1) _ runs(2)] sample_node_is_log have "message_store (queue (node u)) = message_store (queue (node v))"
    by simp
  with runs es show ?thesis by blast
qed

text \<open>A follower with an entry of a deposed leader that hears from the new one.\<close>

definition stale :: LogEntry where
  "stale = log_entry 1 1 13 LogEntry_ADD ''stale''"

definition chosen :: LogEntry where
  "chosen = log_entry 1 2 42 LogEntry_ADD ''chosen''"

definition overwritten_run :: "(node_env \<times> node_event) list" where
  "overwritten_run = [(sample_env, Receive (append_request 1 0 0 0 [stale] 0)), (sample_env, Receive (append_request 2 2 0 0 [chosen] 1))]"


end
