(* ===== verification/Cluster_Node_Commit.thy ===== *)
theory Cluster_Node_Commit
  imports Cluster_Node_Replica
begin

text \<open>
  When a node commits, what it hands to its storage, and what it has after a restart.
\<close>

section \<open>Who decides on a commit\<close>

lemma commit_from_leader_index:
  assumes "commit_from_leader env req s = Inr s'"
  shows "commit_index (node s') = commit_index (node s) \<or>
    commit_index (node s') = aeq_leader_commit req \<and> aeq_leader_commit req < int (length (log_entries (node s)))"
  using assms
  by (auto simp: commit_from_leader_def Let_def split: if_splits dest!: commit_log_entries_frame store_entries_frame)

lemma append_request_commits:
  assumes "handle_append_entries_request env req s = Inr s'" and "commit_index (node s') \<noteq> commit_index (node s)"
  shows "aeq_term req \<ge> cur_term (node s) \<and> commit_index (node s') = aeq_leader_commit req \<and>
    aeq_leader_commit req < int (length (log_entries (node s))) \<and> state (node s') \<noteq> CANDIDATE \<and> cur_leader (node s') = aeq_leader_id req"
proof -
  let ?s = "follow_leader env req s"
  have s: "commit_index (node ?s) = commit_index (node s)" "log_entries (node ?s) = log_entries (node s)"
      "state (node ?s) \<noteq> CANDIDATE" "cur_leader (node ?s) = aeq_leader_id req"
    using node_state.exhaust by (auto simp: follow_leader_def)
  from assms s obtain t where stale: "\<not> aeq_term req < cur_term (node s)"
    and t: "commit_from_leader env req ?s = Inr t" and a: "append_from_leader env req t = Inr s'"
    by (auto simp: handle_append_entries_request_def append_entries_rejected_def Let_def split: if_splits dest!: post_message_same)
  have same: "commit_index (node s') = commit_index (node t)" "state (node s') = state (node t)" "cur_leader (node s') = cur_leader (node t)"
    using append_from_leader_Inr [OF a] by auto
  have "state (node t) = state (node ?s)" "cur_leader (node t) = cur_leader (node ?s)"
    using commit_from_leader_frame [OF t] by (auto simp: committed_def)
  with same s stale commit_from_leader_index [OF t] assms(2) show ?thesis by auto
qed

lemma commit_from_majority_index:
  assumes "commit_from_majority env i s = Inr s'" and "commit_index (node s') \<noteq> commit_index (node s)"
  shows "commit_index (node s') = i \<and> commit_index (node s) < i \<and> int (count_synced_nodes i (node s)) + 1 > total_nodes (node s) div 2"
  using assms
  by (auto simp: commit_from_majority_def Let_def split: if_splits dest!: commit_log_entries_frame store_entries_frame simp: delivered_def)

lemma append_response_commits:
  assumes "handle_append_entries_response env resp s = Inr s'" and "commit_index (node s') \<noteq> commit_index (node s)"
  shows "aes_append_result_success resp \<noteq> 0 \<and> commit_index (node s') = aes_last_index_synced resp \<and>
    2 * (int (count_synced_nodes (commit_index (node s')) (node s')) + 1) > total_nodes (node s')"
proof -
  let ?f = "aes_follower_id resp" and ?i = "aes_last_index_synced resp"
  let ?s = "request_answered ?f s"
  have s: "commit_index (node ?s) = commit_index (node s)" by (simp add: request_answered_def case_prod_beta Let_def)
  from assms obtain t where
    t: "(if aes_append_result_success resp \<noteq> 0 then append_succeeded env ?f ?i ?s else Inr (append_failed resp ?f ?s)) = Inr t"
    and upd: "trigger_entry_update env ?f t = Inr s'"
    by (auto simp: handle_append_entries_response_def Let_def)
  have s': "commit_index (node s') = commit_index (node t)" "matched_index (node s') = matched_index (node t)" "total_nodes (node s') = total_nodes (node t)"
    using trigger_entry_update_frame [OF upd] by (auto simp: replicated_def)
  have "commit_index (node (append_failed resp f v)) = commit_index (node v)" for f v
    by (simp add: append_failed_def case_prod_beta Let_def)
  then have ok: "aes_append_result_success resp \<noteq> 0" using t s s'(1) assms(2) by auto
  let ?s2 = "update_node (\<lambda>n. n\<lparr>matched_index := map_set ?f ?i (matched_index n)\<rparr>) ?s"
  from ok t obtain u where u: "commit_from_majority env ?i ?s2 = Inr u"
    and t': "t = update_node (\<lambda>n. n\<lparr>matched_index := snd (map_index 0 ?f (matched_index (node u))),
        next_index := map_set ?f (fst (map_index 0 ?f (matched_index (node u))) + 1) (next_index n)\<rparr>) u"
    by (auto simp: append_succeeded_def case_prod_beta Let_def)
  have keep: "matched_index (node u) = map_set ?f ?i (matched_index (node ?s))" "total_nodes (node u) = total_nodes (node ?s)"
    using commit_from_majority_frame [OF u] by (auto simp: committed_def)
  have "snd (map_index 0 ?f (matched_index (node u))) = matched_index (node u)"
    unfolding keep by (simp add: map_index_def)
  with t' s' keep have node: "count_synced_nodes i (node s') = count_synced_nodes i (node ?s2)" "total_nodes (node s') = total_nodes (node ?s2)" for i
    by (simp_all add: count_synced_nodes_def)
  have "commit_index (node u) \<noteq> commit_index (node ?s2)" using assms(2) s s' t' by simp
  from commit_from_majority_index [OF u this] have "commit_index (node s') = ?i"
    "int (count_synced_nodes ?i (node s')) + 1 > total_nodes (node s') div 2" using s' t' unfolding node by simp_all
  with ok show ?thesis by simp
qed

text \<open>
  C12: a node commits only on a request of a leader whose term is not behind its own, up to the commit index of that leader and within its own log, or on a
  follower's answer after which it knows a majority of the cluster, itself included, to hold the log up to the new commit index.
\<close>

theorem commit_by_leader_or_majority:
  assumes "node_step env ev s = Inr s'" and "commit_index (node s') \<noteq> commit_index (node s)"
  shows "\<exists>m. ev = Receive m \<and>
    (msg_type m = APPEND_ENTRIES_REQUEST \<and> aeq_term (get_append_request m) \<ge> cur_term (node s) \<and> state (node s') \<noteq> CANDIDATE \<and>
       commit_index (node s') = aeq_leader_commit (get_append_request m) \<and> commit_index (node s') < int (length (log_entries (node s))) \<or>
     msg_type m = APPEND_ENTRIES_RESPONSE \<and> aes_append_result_success (get_append_response m) \<noteq> 0 \<and>
       commit_index (node s') = aes_last_index_synced (get_append_response m) \<and>
       2 * (int (count_synced_nodes (commit_index (node s')) (node s')) + 1) > total_nodes (node s'))"
proof -
  have other: "commit_index (node s') = commit_index (node s)"
    if "\<not> (\<exists>m. ev = Receive m \<and> (msg_type m = APPEND_ENTRIES_REQUEST \<or> msg_type m = APPEND_ENTRIES_RESPONSE))"
    using assms(1) that
    by (cases ev)
      (auto simp: local_message_handler_def handle_client_put_message_def handle_client_commit_message_def handle_client_open_queue_def
        handle_request_vote_request_def handle_request_vote_response_def consumer_disconnected_def timer_defs Let_def replicated_def delivered_def
        split: if_splits dest!: post_message_same add_log_entry_frame reply_to_client_frame trigger_message_delivery_frame)
  with assms(2) obtain m where ev: "ev = Receive m" and m: "msg_type m = APPEND_ENTRIES_REQUEST \<or> msg_type m = APPEND_ENTRIES_RESPONSE" by blast
  from m show ?thesis
  proof
    assume m: "msg_type m = APPEND_ENTRIES_REQUEST"
    with assms(1) ev have "handle_append_entries_request env (get_append_request m) s = Inr s'"
      by (simp add: local_message_handler_def)
    from append_request_commits [OF this assms(2)] m ev show ?thesis by simp
  next
    assume m: "msg_type m = APPEND_ENTRIES_RESPONSE"
    with assms(1) ev have "handle_append_entries_response env (get_append_response m) s = Inr s'"
      by (simp add: local_message_handler_def message_types)
    from append_response_commits [OF this assms(2)] m ev show ?thesis by blast
  qed
qed

text \<open>A leader of three nodes that hears from node 1 that it holds the first message.\<close>

definition leader_node :: cluster_node where
  "leader_node = (sample_node 0)\<lparr>state := LEADER, cur_term := 1, log_entries := [sentinel, hello]\<rparr>"

lemma append_response_fields [simp]:
  "msg_type (append_response t f ok i) = APPEND_ENTRIES_RESPONSE"
  "aes_term (get_append_response (append_response t f ok i)) = t"
  "aes_follower_id (get_append_response (append_response t f ok i)) = f"
  "aes_append_result_success (get_append_response (append_response t f ok i)) = ok"
  "aes_last_index_synced (get_append_response (append_response t f ok i)) = i"
  by (simp_all add: append_response_def load_defs get_defs message_getter_defs msg_type_def)

lemmas response_simps = append_run_simps handle_append_entries_response_def request_answered_def append_succeeded_def commit_from_majority_def
  trigger_entry_update_def case_prod_beta

lemma no_consumers [simp]: "\<not> has_consumers ClientManager_new"
  by (simp add: has_consumers_def ClientManager_new_def)

lemma count_synced_pos:
  assumes "map_find (matched_index n) f = Some i"
  shows "0 < count_synced_nodes i n"
proof -
  have "(f, i) \<in> set (matched_index n)" using assms by (auto simp: map_find_def dest: map_of_SomeD)
  then have "(f, i) \<in> set (filter (\<lambda>(f, m). m \<ge> i) (matched_index n))" by simp
  then show ?thesis unfolding count_synced_nodes_def by (rule length_pos_if_in_set)
qed

lemma count_synced_self [simp]: "Suc 0 \<le> count_synced_nodes i (n\<lparr>matched_index := map_set f i m\<rparr>)"
  using count_synced_pos [of "n\<lparr>matched_index := map_set f i m\<rparr>" f i] by (simp add: Suc_le_eq)

lemma leader_commits:
  "\<exists>s'. node_step sample_env (Receive (append_response 1 1 1 1)) (start_world leader_node) = Inr s' \<and> commit_index (node s') = 1"
  by (simp add: response_simps leader_node_def del: andThen_Inr)

theorem commit_by_leader_or_majority_witness:
  "\<exists>s'. node_step sample_env (Receive (append_response 1 1 1 1)) (start_world leader_node) = Inr s' \<and> commit_index (node s') = 1 \<and>
     2 * (int (count_synced_nodes 1 (node s')) + 1) > total_nodes (node s')"
proof -
  obtain s' where s': "node_step sample_env (Receive (append_response 1 1 1 1)) (start_world leader_node) = Inr s'" "commit_index (node s') = 1"
    using leader_commits by blast
  moreover have "commit_index (node s') \<noteq> commit_index (node (start_world leader_node))" using s' by (simp add: leader_node_def)
  ultimately show ?thesis
    using commit_by_leader_or_majority [OF s'(1)] by (auto simp: message_types)
qed

section \<open>What is stored\<close>

text \<open>
  A step that moves the commit index hands to the storage the entry at the new commit index, that one only, and the new commit index as metadata; every
  other step leaves the storage alone.
\<close>

lemma commit_stores_last_entry:
  assumes "node_step env ev s = Inr s'" and "0 \<le> commit_index (node s)"
  shows "let c = commit_index (node s'); st = node_storage (node s)
    in node_storage (node s') = (if c = commit_index (node s) then st
         else st\<lparr>log_entry_buffers := log_entry_buffers st @ [log_entries (node s) ! nat c], metadata_buffer := \<lparr>last_committed = c\<rparr>\<rparr>)"
  using node_step_applies [OF assms] by (simp add: applies_def stored_commit_def Let_def)

text \<open>What is on disk or on its way there is what is committed.\<close>

definition disk_is_log :: "wire \<Rightarrow> file_system \<Rightarrow> cluster_node \<Rightarrow> bool" where
  "disk_is_log w fs n \<longleftrightarrow> stored_log w (node_storage n, fs) = committed_entries n \<and>
     last_committed (metadata_buffer (node_storage n)) = commit_index n"

lemma stored_commit_log:
  "stored_log w (stored_commit i n, fs) = stored_log w (node_storage n, fs) @ (if i = commit_index n then [] else [log_entries n ! nat i])"
  by (simp add: stored_commit_def stored_log_def durable_log_def storage_load_log_entry_from_file_def)

text \<open>
  As long as a node commits one entry at a time and no leader contradicts a committed entry, what it has stored is exactly what it has committed.
\<close>

lemma single_commits_keep_disk:
  assumes "node_step env ev s = Inr s'" and "respects_commits ev s" and "queue_is_log (node s)" and "disk_is_log w fs (node s)"
    and "commit_index (node s') \<le> commit_index (node s) + 1"
  shows "disk_is_log w fs (node s')"
proof -
  let ?c = "commit_index (node s)" and ?c' = "commit_index (node s')"
  from assms(3) have pos: "0 \<le> ?c" and len: "?c < int (length (log_entries (node s)))" by (simp_all add: queue_is_log_def)
  from node_step_applies [OF assms(1) pos] have st: "node_storage (node s') = stored_commit ?c' (node s)"
    and len': "?c' < int (length (log_entries (node s)))" using len by (auto simp: applies_def)
  have "committed_entries (node s') = committed_entries (node s) @ newly_committed s s'"
    by (rule committed_entries_step [OF assms(1-3)])
  moreover have "newly_committed s s' = (if ?c' = ?c then [] else [log_entries (node s) ! nat ?c'])"
  proof (cases "?c' = ?c")
    case False
    with assms(5) node_step_progress [OF assms(1)] have "?c' = ?c + 1" by (simp add: progress_def)
    then have c': "nat ?c' = nat ?c + 1" "nat ?c + 1 < length (log_entries (node s))" using pos len' by linarith+
    from False show ?thesis unfolding newly_committed_def c'(1) using c'(2) slice_single by simp
  qed (simp add: newly_committed_same)
  ultimately show ?thesis
    using assms(4) unfolding disk_is_log_def st stored_commit_log by (simp add: stored_commit_def)
qed

lemma sample_storage:
  "node_storage (sample_node k) = ClusterNodeStorage_new 0 0 k" "log_entry_buffers (ClusterNodeStorage_new g p k) = []"
  "last_committed (metadata_buffer (ClusterNodeStorage_new g p k)) = g"
  by (simp_all add: sample_node_def initial_node_def ClusterNodeStorage_new_def Let_def)

lemma empty_disk_log: "durable_log varint_wire (st, empty_disk) = []"
  using varint.load_missing [of empty_disk] by (simp add: durable_log_def storage_load_log_entry_from_file_def empty_disk_def)

lemma leader_node_ok: "queue_is_log leader_node" "disk_is_log varint_wire empty_disk leader_node"
  "storage_valid varint_wire (node_storage leader_node, empty_disk)"
proof -
  have n: "commit_index leader_node = 0" "log_entries leader_node = [sentinel, hello]" "queue leader_node = empty_queue"
    "node_storage leader_node = ClusterNodeStorage_new 0 0 0"
    by (simp_all add: leader_node_def sample_storage)
  show "queue_is_log leader_node" unfolding queue_is_log_def
    by (intro conjI exI [of _ "[]"]) (simp_all add: n committed_entries_def)
  show "disk_is_log varint_wire empty_disk leader_node"
    by (simp add: n disk_is_log_def stored_log_def empty_disk_log sample_storage committed_entries_def)
  show "storage_valid varint_wire (node_storage leader_node, empty_disk)"
    unfolding n by (rule new_storage_valid) simp
qed

text \<open>A follower that learns of two commits at once.\<close>

definition second :: LogEntry where
  "second = log_entry 2 1 43 LogEntry_ADD ''second''"

definition two_commits_run :: "(node_env \<times> node_event) list" where
  "two_commits_run = [(sample_env, Receive (append_request 1 0 0 0 [hello] 0)), (sample_env, Receive (append_request 1 0 1 1 [second] 0)),
     (sample_env, Receive (append_request 1 0 2 1 [] 2))]"


section \<open>Restart\<close>

lemma new_node_replays:
  assumes "storage_load_log_entry_from_file w [sentinel] st fs = Inr (r, sentinel # es)"
    and "storage_load_metadata_from_file \<lparr>last_committed = 0\<rparr> st fs = (0, \<lparr>last_committed = c\<rparr>)"
  shows "ClusterNode_new w cfg st heart_beat votes fs =
    Inr ((initial_node cfg st heart_beat votes)\<lparr>log_entries := sentinel # es, queue := fold apply_entry es empty_queue, commit_index := c\<rparr>)"
proof -
  let ?n = "(initial_node cfg st heart_beat votes)\<lparr>log_entries := sentinel # es\<rparr>"
  have i: "log_entries (initial_node cfg st heart_beat votes) = [sentinel]" "queue (initial_node cfg st heart_beat votes) = empty_queue"
    by (simp_all add: initial_node_def Let_def)
  have "fold commit_log_entry [0 + 1..int (length es)] ?n = ?n\<lparr>queue := fold apply_entry es empty_queue\<rparr>"
    by (subst commit_slice) (simp_all add: i slice_def)
  then show ?thesis
    using assms unfolding ClusterNode_new_def Let_def i
    by (simp add: check_if_previous_log_in_sync_def log_at_def i)
qed


text \<open>A node with one committed message, which its storage has buffered.\<close>

definition stored_node :: cluster_node where
  "stored_node = (sample_node 1)\<lparr>log_entries := [sentinel, sample_entry], commit_index := 1, queue := fold apply_entry [sample_entry] empty_queue,
     node_storage := (ClusterNodeStorage_new 0 0 1)\<lparr>log_entry_buffers := [sample_entry], metadata_buffer := \<lparr>last_committed = 1\<rparr>\<rparr>\<rparr>"

lemma stored_node_ok: "queue_is_log stored_node" "disk_is_log varint_wire empty_disk stored_node"
  "storage_valid varint_wire (node_storage stored_node, empty_disk)" "committed_entries stored_node = [sample_entry]"
proof -
  have n: "commit_index stored_node = 1" "log_entries stored_node = [sentinel, sample_entry]"
    "queue stored_node = queue_run empty_queue (log_ops [sample_entry])"
    by (simp_all add: stored_node_def apply_entry_run)
  show es: "committed_entries stored_node = [sample_entry]" by (simp add: n committed_entries_def slice_def numeral_2_eq_2)
  show "queue_is_log stored_node" unfolding queue_is_log_def
    by (intro conjI exI [of _ "log_ops [sample_entry]"]) (simp_all only: n es log_ops_are_log_ops, simp_all)
  show "disk_is_log varint_wire empty_disk stored_node"
    unfolding disk_is_log_def es n(1) by (simp add: stored_log_def empty_disk_log stored_node_def)
  have "list_all (entry_ok varint_wire) [sample_entry]" using sample_storable by (simp add: storable_def)
  then show "storage_valid varint_wire (node_storage stored_node, empty_disk)"
    using new_storage_valid [of 0 varint_wire 0 1] by (simp add: stored_node_def empty_disk_def ClusterNodeStorage_new_def)
qed


section \<open>A follower with more entries than the leader\<close>

lemma commit_beyond_log:
  assumes "int (length (log_entries (node s))) \<le> i" and "commit_index (node s) < i" and "0 \<le> commit_index (node s)"
    and "\<not> has_consumers (clients s)" and "int (count_synced_nodes i (node s)) + 1 > total_nodes (node s) div 2"
  shows "commit_from_majority env i s = Inl OutOfBounds"
proof -
  let ?t = "update_node (fold commit_log_entry [commit_index (node s) + 1..i]) s"
  obtain q where q: "fold commit_log_entry [commit_index (node s) + 1..i] (node s) = (node s)\<lparr>queue := q\<rparr>" using commit_all_frame by blast
  have "commit_log_entries env (commit_index (node s) + 1) (i + 1) s = Inr ?t"
    unfolding commit_log_entries_def trigger_message_delivery_def using assms(4) by simp
  with q assms show ?thesis
    by (simp add: commit_from_majority_def Let_def store_entries_def store_log_entries_and_metadata_def)
qed

text \<open>
  The answer of a follower that reports an entry beyond the end of the log of its leader makes a leader of two or three nodes read outside its log: the leader
  takes the last entry of the follower as replicated, and hands entries it does not have to the storage.
\<close>

lemma longer_follower_log_crashes_leader:
  assumes "aes_append_result_success resp \<noteq> 0" and "int (length (log_entries (node s))) \<le> aes_last_index_synced resp"
    and "commit_index (node s) < aes_last_index_synced resp" and "0 \<le> commit_index (node s)" and "total_nodes (node s) \<le> 3"
    and "\<not> has_consumers (clients s)"
  shows "handle_append_entries_response env resp s = Inl OutOfBounds"
proof -
  let ?f = "aes_follower_id resp" and ?i = "aes_last_index_synced resp"
  let ?s = "update_node (\<lambda>n. n\<lparr>matched_index := map_set ?f ?i (matched_index n)\<rparr>) (request_answered ?f s)"
  have s: "commit_index (node ?s) = commit_index (node s)" "log_entries (node ?s) = log_entries (node s)"
      "total_nodes (node ?s) = total_nodes (node s)" "clients ?s = clients s"
    by (simp_all add: request_answered_def case_prod_beta Let_def)
  have "0 < count_synced_nodes ?i (node ?s)" by (rule count_synced_pos [of _ ?f]) simp
  then have most: "int (count_synced_nodes ?i (node ?s)) + 1 > total_nodes (node ?s) div 2" using assms(5) unfolding s by linarith
  then have "commit_from_majority env ?i ?s = Inl OutOfBounds"
    by (intro commit_beyond_log) (use assms s in simp_all)
  then show ?thesis using assms(1) by (simp add: handle_append_entries_response_def append_succeeded_def Let_def)
qed

end
