(* ===== verification/Cluster_Logs.thy ===== *)
theory Cluster_Logs
  imports Cluster_Elections Cluster_Node_Commit
begin

text \<open>
  The logs of a cluster: the Log Matching property of Raft for every run in which the leaders behave as Raft demands. For each term there is the log its leader has built, which only grows;
  every entry of that term in any log, and every request to append, comes from it.
\<close>

section \<open>The log in a step of a node\<close>

text \<open>An append request whose previous entry and entries are those of a log.\<close>

definition fragment :: "LogEntry list \<Rightarrow> AppendEntriesRequest \<Rightarrow> bool" where
  "fragment log req \<longleftrightarrow> (let p = nat (aeq_prev_log_index req); k = length (aeq_entries req) in
     0 \<le> aeq_prev_log_index req \<and> p + 1 + k \<le> length log \<and> le_term (log ! p) = aeq_prev_log_term req \<and> aeq_entries req = slice (p + 1) (p + 1 + k) log)"

definition indexed :: "LogEntry list \<Rightarrow> bool" where
  "indexed log \<longleftrightarrow> log \<noteq> [] \<and> (\<forall>k < length log. le_index (log ! k) = int k)"

definition from_log :: "cluster_node \<Rightarrow> destination \<times> raft_message \<Rightarrow> bool" where
  "from_log n x \<longleftrightarrow> msg_type (snd x) = APPEND_ENTRIES_REQUEST \<and> aeq_term (get_append_request (snd x)) = cur_term n \<and>
     fragment (log_entries n) (get_append_request (snd x))"

text \<open>
  In an orderly run a leader hears of a later term only from the leader of that term, and answers to append requests reach leaders only. The code does not see to that: a leader that is asked for its
  vote, or refused, in a later term goes on as its leader, and a node that is no longer leader goes on sending its log.
\<close>

fun orderly :: "node_event \<Rightarrow> cluster_node \<Rightarrow> bool" where
  "orderly (Receive m) n \<longleftrightarrow>
     (if state n = LEADER
      then (msg_type m = REQUEST_VOTE_REQUEST \<longrightarrow> rvq_term (get_vote_request m) \<le> cur_term n) \<and>
           (msg_type m = APPEND_ENTRIES_RESPONSE \<longrightarrow> aes_append_result_success (get_append_response m) = 0 \<longrightarrow>
              aes_term (get_append_response m) \<le> cur_term n)
      else msg_type m \<noteq> APPEND_ENTRIES_RESPONSE)"
| "orderly _ n \<longleftrightarrow> True"

inductive log_change :: "node_event \<Rightarrow> world \<Rightarrow> world \<Rightarrow> bool" where
  keep: "log_entries (node s') = log_entries (node s) \<Longrightarrow> sent s' = sent s @ out \<Longrightarrow> list_all (\<lambda>x. \<not> is_append_request x) out \<Longrightarrow>
    (state (node s) = LEADER \<Longrightarrow> state (node s') = LEADER \<and> cur_term (node s') = cur_term (node s) \<or> cur_term (node s) < cur_term (node s') \<and> state (node s') \<noteq> LEADER) \<Longrightarrow>
    log_change ev s s'"
| lead: "state (node s) = LEADER \<Longrightarrow> state (node s') = LEADER \<Longrightarrow> cur_term (node s') = cur_term (node s) \<Longrightarrow>
    log_entries (node s') = log_entries (node s) @ es \<Longrightarrow>
    es = [] \<or> (\<exists>e. es = [e] \<and> le_index e = int (length (log_entries (node s))) \<and> le_term e = cur_term (node s)) \<Longrightarrow>
    sent s' = sent s @ out \<Longrightarrow> list_all (from_log (node s')) out \<Longrightarrow> log_change ev s s'"
| follow: "msg_type m = APPEND_ENTRIES_REQUEST \<Longrightarrow> cur_term (node s) \<le> aeq_term (get_append_request m) \<Longrightarrow> cur_term (node s') = aeq_term (get_append_request m) \<Longrightarrow>
    (state (node s) = LEADER \<longrightarrow> cur_term (node s) = cur_term (node s') \<or> state (node s') \<noteq> LEADER) \<Longrightarrow> 
    (state (node s) \<noteq> LEADER \<longrightarrow> state (node s') \<noteq> LEADER) \<Longrightarrow>
    check_if_previous_log_in_sync (aeq_prev_log_term (get_append_request m)) (aeq_prev_log_index (get_append_request m)) (log_entries (node s)) = Inr True \<Longrightarrow>
    append_log_entries (aeq_prev_log_index (get_append_request m)) (aeq_entries (get_append_request m)) (log_entries (node s)) = Inr (log_entries (node s')) \<Longrightarrow>
    sent s' = sent s @ out \<Longrightarrow> list_all (\<lambda>x. \<not> is_append_request x) out \<Longrightarrow> log_change (Receive m) s s'"

lemma no_append_messages [simp]:
  "\<not> is_append_request (d, set_partition_id p (append_response t f ok i))" "\<not> is_append_request (d, set_partition_id p (vote_response t g))"
  "\<not> is_append_request (d, set_partition_id p (vote_request t c i lt))"
  by (simp_all add: is_append_request_def message_types)

lemma get_append_request_partition [simp]: "get_append_request (set_partition_id p m) = get_append_request m"
  by (simp add: get_append_request_def set_partition_id_def fm_append_entries_request_def)

text \<open>The requests that replication sends are pieces of the log.\<close>

lemma trigger_entry_update_sends:
  assumes "trigger_entry_update env f s = Inr s'"
  shows "\<exists>out. sent s' = sent s @ out \<and> list_all (from_log (node s')) out"
proof -
  obtain i ni where ni: "map_index 0 f (next_index (node s)) = (i, ni)" by (metis prod.exhaust)
  obtain k pm where pm: "map_index 0 f (pending_append_reqs (node s)) = (k, pm)" by (metis prod.exhaust)
  let ?log = "log_entries (node s)"
  have piece: "fragment ?log (get_append_request (append_request t l (i - 1) (le_term (?log ! nat (i - 1))) [?log ! nat i] c))"
    if "1 \<le> i" "i \<le> int (length ?log) - 1" for t l c
  proof -
    have n: "nat (i - 1) + 1 = nat i" "nat i < length ?log" using that by auto
    then have "slice (nat i) (nat i + 1) ?log = [?log ! nat i]" by (simp add: slice_def take_Suc_conv_app_nth)
    with n that show ?thesis by (simp add: fragment_def Let_def)
  qed
  from assms ni pm consider "sent s' = sent s"
    | "sent s' = sent s @ [(ToNode f, set_partition_id (partition_id (node s))
          (append_request (cur_term (node s)) (node_id (node s)) (i - 1) (le_term (?log ! nat (i - 1))) [?log ! nat i] (commit_index (node s))))]"
      "cur_term (node s') = cur_term (node s)" "log_entries (node s') = ?log" "1 \<le> i" "i \<le> int (length ?log) - 1"
    by (auto simp: trigger_entry_update_def Let_def split: if_splits dest!: post_message_Inr)
  then show ?thesis
  proof cases
    case 1
    then show ?thesis by (intro exI [of _ "[]"]) simp
  next
    case 2
    with piece show ?thesis by (simp add: from_log_def)
  qed
qed

lemma from_log_cong: "cur_term n = cur_term n' \<Longrightarrow> log_entries n = log_entries n' \<Longrightarrow> from_log n = from_log n'"
  by (simp add: from_log_def fun_eq_iff)

lemma replicated_same: "replicated s s' \<Longrightarrow> cur_term (node s') = cur_term (node s) \<and> log_entries (node s') = log_entries (node s) \<and> state (node s') = state (node s)"
  by (auto simp: replicated_def)

lemma replicated_from_log: "replicated s s' \<Longrightarrow> from_log (node s') = from_log (node s)"
  using replicated_same [of s s'] by (intro from_log_cong) simp_all

lemma add_log_entry_sends:
  assumes "add_log_entry env e s = Inr s'"
  shows "\<exists>out. sent s' = sent s @ out \<and> list_all (from_log (node s')) out"
proof -
  let ?s = "update_node (\<lambda>n. n\<lparr>log_entries := log_entries n @ [e]\<rparr>) s"
  let ?P = "\<lambda>t. replicated ?s t \<and> (\<exists>out. sent t = sent s @ out \<and> list_all (from_log (node ?s)) out)"
  from assms have run: "forEach (trigger_entry_update env) (map_keys (next_index (node ?s))) ?s = Inr s'"
    by (simp add: add_log_entry_def Let_def)
  have "?P s'"
  proof (rule forEach_keeps [where P = ?P, OF _ run])
    fix f t u assume u: "trigger_entry_update env f t = Inr u" and t: "?P t"
    note fr = trigger_entry_update_frame [OF u]
    with t have rep: "replicated ?s u" by (blast intro: replicated_trans)
    then have "from_log (node u) = from_log (node ?s)" by (rule replicated_from_log)
    with trigger_entry_update_sends [OF u] obtain o2 where "sent u = sent t @ o2" "list_all (from_log (node ?s)) o2" by auto
    moreover from t obtain o1 where "sent t = sent s @ o1" "list_all (from_log (node ?s)) o1" by blast
    ultimately have "sent u = sent s @ (o1 @ o2) \<and> list_all (from_log (node ?s)) (o1 @ o2)" by simp
    with rep show "?P u" by blast
  qed (auto simp: replicated_refl)
  then show ?thesis using replicated_from_log [of ?s s'] by simp
qed

lemma append_request_log_change:
  assumes "handle_append_entries_request env (get_append_request m) s = Inr s'" and "msg_type m = APPEND_ENTRIES_REQUEST"
  shows "log_change (Receive m) s s'"
proof (cases "aeq_term (get_append_request m) < cur_term (node s)")
  case True
  with assms show ?thesis
    by (auto simp: handle_append_entries_request_def append_entries_rejected_def intro!: keep dest!: post_message_Inr)
next
  case False
  let ?req = "get_append_request m" and ?s = "follow_leader env (get_append_request m) s"
  have log: "log_entries (node ?s) = log_entries (node s)" by (simp add: follow_leader_def)
  from assms(1) False obtain in_sync where sync: "check_if_previous_log_in_sync (aeq_prev_log_term ?req) (aeq_prev_log_index ?req) (log_entries (node s)) = Inr in_sync"
    and rest: "(if \<not> in_sync then append_entries_rejected env (aeq_leader_id ?req) ?s else andThen (commit_from_leader env ?req ?s) (append_from_leader env ?req)) = Inr s'"
    using log by (auto simp: handle_append_entries_request_def Let_def)
  show ?thesis
  proof (cases in_sync)
    case in_sync: False
    with rest False show ?thesis
      by (auto simp: append_entries_rejected_def follow_leader_def split: if_splits intro!: keep dest!: post_message_Inr)
  next
    case True
    with rest obtain t where "commit_from_leader env ?req ?s = Inr t" and ap: "append_from_leader env ?req t = Inr s'" by auto
    from commit_from_leader_frame [OF this(1)] have t: "log_entries (node t) = log_entries (node s)" "cur_term (node t) = aeq_term ?req"
      "state (node t) = state (node ?s)" "sent t = sent s" by (auto simp: committed_def follow_leader_def)
    from append_from_leader_Inr [OF ap] t obtain x where
      "append_log_entries (aeq_prev_log_index ?req) (aeq_entries ?req) (log_entries (node s)) = Inr (log_entries (node s'))"
      "sent s' = sent s @ [x]" "\<not> is_append_request x" "cur_term (node s') = aeq_term ?req" "state (node s') = state (node ?s)" by auto
    then show ?thesis using sync True False assms(2) by (intro follow) (auto simp: follow_leader_def)
  qed
qed

lemma append_response_log_change:
  assumes "handle_append_entries_response env resp s = Inr s'" and "state (node s) = LEADER"
    and "aes_append_result_success resp = 0 \<Longrightarrow> aes_term resp \<le> cur_term (node s)"
  shows "log_change ev s s'"
proof -
  let ?f = "aes_follower_id resp" and ?i = "aes_last_index_synced resp"
  let ?s = "request_answered ?f s"
  have s: "state (node ?s) = LEADER" "cur_term (node ?s) = cur_term (node s)" "log_entries (node ?s) = log_entries (node s)" "sent ?s = sent s"
    using assms(2) by (simp_all add: request_answered_def case_prod_beta Let_def)
  from assms(1) obtain t where
    t: "(if aes_append_result_success resp \<noteq> 0 then append_succeeded env ?f ?i ?s else Inr (append_failed resp ?f ?s)) = Inr t"
    and upd: "trigger_entry_update env ?f t = Inr s'"
    by (auto simp: handle_append_entries_response_def Let_def)
  have same: "state (node t) = LEADER \<and> cur_term (node t) = cur_term (node s) \<and> log_entries (node t) = log_entries (node s) \<and> sent t = sent s"
  proof (cases "aes_append_result_success resp \<noteq> 0")
    case True
    with t obtain u where "commit_from_majority env ?i (update_node (\<lambda>n. n\<lparr>matched_index := map_set ?f ?i (matched_index n)\<rparr>) ?s) = Inr u"
      and "t = (let r = map_index 0 ?f (matched_index (node u)) in
        update_node (\<lambda>n. n\<lparr>matched_index := snd r, next_index := map_set ?f (fst r + 1) (next_index n)\<rparr>) u)"
      by (auto simp: append_succeeded_def case_prod_beta Let_def)
    with commit_from_majority_frame [OF this(1)] s show ?thesis by (auto simp: committed_def Let_def)
  next
    case False
    with t s assms(3) show ?thesis by (auto simp: append_failed_def case_prod_beta Let_def)
  qed
  from trigger_entry_update_sends [OF upd] obtain out where "sent s' = sent t @ out" "list_all (from_log (node s')) out" by blast
  with same replicated_same [OF trigger_entry_update_frame [OF upd]] assms(2) show ?thesis by (intro lead [where es = "[]"]) auto
qed

lemma heartbeat_log_change:
  assumes "send_heartbeat env s = Inr s'" and "indexed (log_entries (node s))"
  shows "log_change ev s s'"
proof (cases "state (node s) = LEADER")
  case True
  let ?log = "log_entries (node s)"
  from assms(2) have "?log \<noteq> []" "le_index (last ?log) = int (length ?log) - 1" by (auto simp: indexed_def last_conv_nth of_nat_diff Suc_le_eq)
  then have "fragment ?log (get_append_request (append_request t l (le_index (last ?log)) (le_term (last ?log)) [] c))" for t l c
    by (auto simp: fragment_def Let_def slice_def last_conv_nth nat_diff_distrib')
  with assms(1) True show ?thesis
    by (intro lead [where es = "[]"]) (auto simp: send_heartbeat_def log_back_def from_log_def split: if_splits dest!: post_message_Inr)
next
  case False
  with assms(1) show ?thesis by (intro keep [where out = "[]"]) (auto simp: send_heartbeat_def)
qed

lemma create_log_change:
  assumes "add_log_entry env e s = Inr s'" and "state (node s) = LEADER" and "le_index e = int (length (log_entries (node s)))" and "le_term e = cur_term (node s)"
  shows "log_change ev s s'"
proof -
  from add_log_entry_sends [OF assms(1)] obtain out where "sent s' = sent s @ out" "list_all (from_log (node s')) out" by blast
  with replicated_same [OF add_log_entry_frame [OF assms(1)]] assms show ?thesis by (intro lead [where es = "[e]"]) auto
qed

lemma delivered_log_change: "delivered s s' \<Longrightarrow> log_change ev s s'"
  by (intro keep [where out = "[]"]) (auto simp: delivered_def)

lemma open_queue_log_change: "handle_client_open_queue env s = Inr s' \<Longrightarrow> log_change ev s s'"
  by (intro keep [where out = "[]"])
    (auto simp: handle_client_open_queue_def delivered_def split: if_splits dest!: reply_to_client_frame trigger_message_delivery_frame)

lemma vote_request_log_change:
  assumes "handle_request_vote_request env req s = Inr s'" and "state (node s) = LEADER \<Longrightarrow> rvq_term req \<le> cur_term (node s)"
  shows "log_change ev s s'"
  using assms by (auto simp: handle_request_vote_request_def Let_def split: if_splits intro!: keep dest!: post_message_Inr)

lemma node_step_log_change:
  assumes "node_step env ev s = Inr s'" and "orderly ev (node s)" and "indexed (log_entries (node s))"
  shows "log_change ev s s'"
proof (cases ev)
  case (Receive m)
  with assms(1) have h: "local_message_handler env m s = Inr s'" by simp
  note ord = assms(2) [unfolded Receive]
  consider "msg_type m = APPEND_ENTRIES_REQUEST" | "msg_type m = APPEND_ENTRIES_RESPONSE" | "msg_type m = REQUEST_VOTE_REQUEST" | "msg_type m = REQUEST_VOTE_RESPONSE"
    | "msg_type m \<notin> {APPEND_ENTRIES_REQUEST, APPEND_ENTRIES_RESPONSE, REQUEST_VOTE_REQUEST, REQUEST_VOTE_RESPONSE}" by blast
  then show ?thesis
  proof cases
    case 1
    with h Receive show ?thesis by (auto simp: local_message_handler_def intro: append_request_log_change)
  next
    case 2
    with ord have "state (node s) = LEADER" by (auto split: if_splits)
    with h 2 ord show ?thesis by (intro append_response_log_change) (auto simp: local_message_handler_def message_types)
  next
    case 3
    with h ord show ?thesis by (intro vote_request_log_change) (auto simp: local_message_handler_def message_types)
  next
    case 4
    with h have "s' = handle_request_vote_response (get_vote_response m) s" by (simp add: local_message_handler_def message_types)
    then show ?thesis by (intro keep [where out = "[]"]) (auto simp: handle_request_vote_response_def Let_def)
  next
    case 5
    have id: "log_change ev t t" for t by (intro keep [where out = "[]"]) auto
    from h 5 show ?thesis
      by (auto simp: local_message_handler_def handle_client_put_message_def handle_client_commit_message_def id split: if_splits
          intro: open_queue_log_change create_log_change)
  qed
next
  case HeartbeatTimer
  with assms heartbeat_log_change show ?thesis by simp
next
  case VoteTimer
  with assms(1) show ?thesis by (intro keep [where out = "[]"]) (auto simp: check_heartbeat_def Let_def split: if_splits)
next
  case VoteDelay
  with assms(1) show ?thesis
    by (auto simp: vote_delay_expired_def send_vote_request_def Let_def split: if_splits intro!: keep dest!: post_message_Inr)
next
  case (ConsumerLost c)
  let ?s = "update_node (\<lambda>n. n\<lparr>queue := snd (handle_client_disconnected c (queue n))\<rparr>) s"
  from ConsumerLost assms(1) have "delivered ?s s'" by (intro trigger_message_delivery_frame) (simp add: consumer_disconnected_def)
  moreover have "delivered s ?s" by (rule deliveredI [where q = "snd (handle_client_disconnected c (queue (node s)))" and cm = "clients s"]) (simp add: update_node_def)
  ultimately show ?thesis by (blast intro: delivered_log_change delivered_trans)
next
  case (ClientsChanged cm)
  with assms(1) show ?thesis by (intro keep [where out = "[]"]) auto
qed

section \<open>The logs of the terms\<close>

text \<open>
  \<open>G t\<close> is the log of the leader of term \<open>t\<close>. A log is made of these when each entry, with all before it, is in the log of its term.
\<close>

definition of_terms :: "(int \<Rightarrow> LogEntry list) \<Rightarrow> LogEntry list \<Rightarrow> bool" where
  "of_terms G log \<longleftrightarrow> indexed log \<and> hd log = sentinel \<and>
     (\<forall>k < length log. k < length (G (le_term (log ! k))) \<and> take (Suc k) (G (le_term (log ! k))) = take (Suc k) log)"

definition extends :: "(int \<Rightarrow> LogEntry list) \<Rightarrow> (int \<Rightarrow> LogEntry list) \<Rightarrow> bool" where
  "extends G G' \<longleftrightarrow> (\<forall>t. prefix (G t) (G' t))"

lemma of_terms_extends:
  assumes "of_terms G log" and "extends G G'"
  shows "of_terms G' log"
  unfolding of_terms_def
proof (intro conjI allI impI)
  fix k assume k: "k < length log"
  let ?t = "le_term (log ! k)"
  from assms(1) k have "k < length (G ?t)" "take (Suc k) (G ?t) = take (Suc k) log" by (simp_all add: of_terms_def)
  moreover from assms(2) obtain r where "G' ?t = G ?t @ r" unfolding extends_def prefix_def by blast
  ultimately show "k < length (G' ?t)" "take (Suc k) (G' ?t) = take (Suc k) log" by simp_all
qed (use assms(1) in \<open>simp_all add: of_terms_def\<close>)

lemma of_terms_match: "of_terms G a \<Longrightarrow> of_terms G b \<Longrightarrow> logs_match a b"
  unfolding of_terms_def logs_match_def by (metis min_less_iff_conj)

lemma of_terms_take:
  assumes "of_terms G log" and "0 < j"
  shows "of_terms G (take j log)"
proof -
  have "hd (take j log) = hd log" using assms(2) by (cases j) (auto simp: take_Suc)
  then show ?thesis using assms by (auto simp: of_terms_def indexed_def)
qed

lemma of_terms_append:
  assumes "of_terms G log" and "le_index e = int (length log)" and "length log < length (G (le_term e))" and "take (Suc (length log)) (G (le_term e)) = log @ [e]"
  shows "of_terms G (log @ [e])"
proof -
  have "log \<noteq> []" using assms(1) by (simp add: of_terms_def indexed_def)
  then show ?thesis using assms by (auto simp: of_terms_def indexed_def nth_append less_Suc_eq)
qed

text \<open>A follower that appends a piece of such a log has such a log again.\<close>

lemma of_terms_follow:
  assumes "of_terms G log" and "of_terms G M" and "fragment M req"
    and "check_if_previous_log_in_sync (aeq_prev_log_term req) (aeq_prev_log_index req) log = Inr True"
    and "append_log_entries (aeq_prev_log_index req) (aeq_entries req) log = Inr log'"
  shows "of_terms G log'"
proof -
  let ?p = "nat (aeq_prev_log_index req)" and ?k = "length (aeq_entries req)"
  from assms(3) have p: "0 \<le> aeq_prev_log_index req" "?p + 1 + ?k \<le> length M" "le_term (M ! ?p) = aeq_prev_log_term req"
    and es: "aeq_entries req = slice (?p + 1) (?p + 1 + ?k) M" unfolding fragment_def Let_def by blast+
  from assms(4) have sync: "aeq_prev_log_index req < int (length log)" "le_term (log ! ?p) = aeq_prev_log_term req"
    by (simp_all add: check_sync_True)
  have log': "log' = take (?p + 1) log @ raft_append (drop (?p + 1) log) (aeq_entries req)"
    using append_log_entries_eq [OF p(1) sync(1), of "aeq_entries req"] assms(5) by simp
  have less: "?p < length log" using sync(1) p(1) by linarith
  have agree: "take (?p + 1 + ?k) log' = take (?p + 1 + ?k) M"
    using append_agrees(1) [OF of_terms_match [OF assms(1,2)] less, of ?k] p sync es log' by simp
  show ?thesis
  proof (cases "length log' \<le> ?p + 1 + ?k")
    case True
    with agree have "log' = take (?p + 1 + ?k) M" by simp
    with of_terms_take [OF assms(2), of "?p + 1 + ?k"] show ?thesis by simp
  next
    case False
    with less have "length (raft_append (drop (?p + 1) log) (aeq_entries req)) > ?k" by (simp add: log')
    from raft_append_longer [OF this] assms(1) log' show ?thesis by simp
  qed
qed

section \<open>Orderly runs of a cluster\<close>

inductive orderly_run :: "int \<Rightarrow> cluster \<Rightarrow> cluster \<Rightarrow> bool" for n where
  orderly_begin: "orderly_run n C C"
| orderly_outside: "orderly_run n C D \<Longrightarrow> 0 \<le> i \<Longrightarrow> i < n \<Longrightarrow> from_outside ev \<Longrightarrow> orderly ev (node (worlds D i)) \<Longrightarrow>
    node_step env ev (worlds D i) = Inr s \<Longrightarrow> orderly_run n C (node_acts n i s D)"
| orderly_receive: "orderly_run n C D \<Longrightarrow> in_flight D = xs @ (j, i, m) # ys \<Longrightarrow> orderly (Receive m) (node (worlds D i)) \<Longrightarrow>
    node_step env (Receive m) (worlds D i) = Inr s \<Longrightarrow> orderly_run n C (node_acts n i s (moved (xs @ ys) (j, i, m) D))"
| orderly_lose: "orderly_run n C D \<Longrightarrow> in_flight D = xs @ x # ys \<Longrightarrow> orderly_run n C (D\<lparr>in_flight := xs @ ys\<rparr>)"

lemma orderly_run_is_run: "orderly_run n C D \<Longrightarrow> cluster_run n C D"
  by (induction rule: orderly_run.induct) (auto intro: cluster_run.intros simp: moved_def)

definition append_inv :: "(int \<Rightarrow> LogEntry list) \<Rightarrow> cluster \<Rightarrow> int \<times> int \<times> raft_message \<Rightarrow> bool" where
  "append_inv G C x \<longleftrightarrow> (case x of (a, b, m) \<Rightarrow> msg_type m = APPEND_ENTRIES_REQUEST \<longrightarrow>
     (a, aeq_term (get_append_request m)) \<in> set (elections C) \<and> (\<exists>M. of_terms G M \<and> fragment M (get_append_request m)))"

definition leader_inv :: "(int \<Rightarrow> LogEntry list) \<Rightarrow> cluster \<Rightarrow> int \<Rightarrow> bool" where
  "leader_inv G C i \<longleftrightarrow> (let n = node (worlds C i) in of_terms G (log_entries n) \<and>
     (state n = LEADER \<longrightarrow> (i, cur_term n) \<in> set (elections C) \<and> log_entries n = G (cur_term n)) \<and>
     (\<forall>t. (i, t) \<in> set (elections C) \<longrightarrow> t \<le> cur_term n \<and> (t = cur_term n \<longrightarrow> state n = LEADER)))"

definition logs_inv :: "int \<Rightarrow> (int \<Rightarrow> LogEntry list) \<Rightarrow> cluster \<Rightarrow> bool" where
  "logs_inv n G C \<longleftrightarrow> cluster_inv n C \<and> (\<forall>i. 0 \<le> i \<and> i < n \<longrightarrow> leader_inv G C i) \<and>
     (\<forall>t. (\<forall>c. (c, t) \<notin> set (elections C)) \<longrightarrow> G t = [] \<or> G t = [sentinel]) \<and> (\<forall>x \<in> set (in_flight C). append_inv G C x)"

lemma elections_acts: "(c, t) \<in> set (elections (node_acts n i s C)) \<longleftrightarrow>
    (c, t) \<in> set (elections C) \<or> c = i \<and> t = cur_term (node s) \<and> state (node (worlds C i)) \<noteq> LEADER \<and> state (node s) = LEADER"
  by (auto simp: node_acts_def)

lemma append_inv_mono:
  assumes "append_inv G C x" and "extends G G'" and "set (elections C) \<subseteq> set (elections D)"
  shows "append_inv G' D x"
  using assms of_terms_extends [OF _ assms(2)] unfolding append_inv_def by (cases x) blast

text \<open>What is to be shown of a step of node \<open>i\<close>.\<close>

lemma logs_inv_acts:
  assumes inv: "logs_inv n G C" and new: "cluster_inv n (node_acts n i s C)" and ext: "extends G G'"
    and self: "leader_inv G' (node_acts n i s C) i"
    and others: "\<And>j t. j \<noteq> i \<Longrightarrow> (j, t) \<in> set (elections C) \<Longrightarrow> G' t = G t"
    and unelected: "\<And>t. (\<And>c. (c, t) \<notin> set (elections (node_acts n i s C))) \<Longrightarrow> G' t = G t"
    and msgs: "\<And>x. x \<in> set (concat (map (spread n i) (drop (length (sent (worlds C i))) (sent s)))) \<Longrightarrow> append_inv G' (node_acts n i s C) x"
  shows "logs_inv n G' (node_acts n i s C)"
proof -
  let ?D = "node_acts n i s C"
  have grow: "set (elections C) \<subseteq> set (elections ?D)" by (auto simp: node_acts_def)
  have "leader_inv G' ?D j" if "0 \<le> j" "j < n" for j
  proof (cases "j = i")
    case False
    from inv that have "leader_inv G C j" by (simp add: logs_inv_def)
    moreover have "(j, t) \<in> set (elections ?D) \<longleftrightarrow> (j, t) \<in> set (elections C)" for t using False by (simp add: elections_acts)
    ultimately show ?thesis using False others [OF False] of_terms_extends [OF _ ext] by (simp add: leader_inv_def Let_def)
  qed (use self in simp)
  moreover have "G' t = [] \<or> G' t = [sentinel]" if "\<forall>c. (c, t) \<notin> set (elections ?D)" for t
    using unelected [of t] that inv grow unfolding logs_inv_def by (metis subsetD)
  moreover have "append_inv G' ?D x" if "x \<in> set (in_flight ?D)" for x
  proof (cases "x \<in> set (in_flight C)")
    case True
    with inv have "append_inv G C x" by (simp add: logs_inv_def)
    then show ?thesis using ext grow by (rule append_inv_mono)
  qed (use that msgs in auto)
  ultimately show ?thesis using new unfolding logs_inv_def by blast
qed

lemma no_new_requests:
  assumes "sent s = sent (worlds C i) @ out" and "list_all (\<lambda>x. \<not> is_append_request x) out"
    and "x \<in> set (concat (map (spread n i) (drop (length (sent (worlds C i))) (sent s))))"
  shows "append_inv G D x"
proof -
  from assms(1,3) obtain d m where "(d, m) \<in> set out" "x \<in> set (spread n i (d, m))" by auto
  with assms(2) spread_member [of x n i d m] show ?thesis by (auto simp: append_inv_def list_all_iff is_append_request_def)
qed

lemma new_requests:
  assumes "sent s = sent (worlds C i) @ out" and "list_all (from_log (node s)) out"
    and "x \<in> set (concat (map (spread n i) (drop (length (sent (worlds C i))) (sent s))))"
    and "(i, cur_term (node s)) \<in> set (elections D)" and "of_terms G (log_entries (node s))"
  shows "append_inv G D x"
proof -
  from assms(1,3) obtain d m where "(d, m) \<in> set out" "x \<in> set (spread n i (d, m))" by auto
  moreover from this(1) assms(2) have "from_log (node s) (d, m)" by (auto simp: list_all_iff)
  ultimately show ?thesis using assms(4,5) spread_member [of x n i d m] by (auto simp: append_inv_def from_log_def)
qed

lemma leader_invD:
  assumes "logs_inv n G C" and "0 \<le> i" and "i < n"
  shows "of_terms G (log_entries (node (worlds C i)))"
    and "state (node (worlds C i)) = LEADER \<Longrightarrow> (i, cur_term (node (worlds C i))) \<in> set (elections C)"
    and "state (node (worlds C i)) = LEADER \<Longrightarrow> log_entries (node (worlds C i)) = G (cur_term (node (worlds C i)))"
    and "(i, t) \<in> set (elections C) \<Longrightarrow> t \<le> cur_term (node (worlds C i))"
    and "(i, cur_term (node (worlds C i))) \<in> set (elections C) \<Longrightarrow> state (node (worlds C i)) = LEADER"
  using assms unfolding logs_inv_def leader_inv_def Let_def by blast+

lemma extends_refl [simp]: "extends G G"
  by (simp add: extends_def)

lemma extends_upd: "prefix (G t) log \<Longrightarrow> extends G (G(t := log))"
  by (simp add: extends_def)

text \<open>A step in which the log stays as it is; the node may be elected.\<close>

lemma logs_keep:
  assumes inv: "logs_inv n G C" and new: "cluster_inv n (node_acts n i s C)" and i: "0 \<le> i" "i < n"
    and mono: "cur_term (node (worlds C i)) \<le> cur_term (node s)"
    and log: "log_entries (node s) = log_entries (node (worlds C i))"
    and out: "sent s = sent (worlds C i) @ out" "list_all (\<lambda>x. \<not> is_append_request x) out"
    and led: "state (node (worlds C i)) = LEADER \<Longrightarrow> state (node s) = LEADER \<and> cur_term (node s) = cur_term (node (worlds C i)) \<or>
      cur_term (node (worlds C i)) < cur_term (node s) \<and> state (node s) \<noteq> LEADER"
  shows "\<exists>G'. logs_inv n G' (node_acts n i s C)"
proof (cases "state (node (worlds C i)) \<noteq> LEADER \<and> state (node s) = LEADER")
  case False
  note inv_i = leader_invD [OF inv i]
  have "leader_inv G (node_acts n i s C) i"
    unfolding leader_inv_def Let_def
  proof (intro conjI impI allI)
    fix t assume "(i, t) \<in> set (elections (node_acts n i s C))"
    with False have t: "(i, t) \<in> set (elections C)" by (auto simp: elections_acts)
    with inv_i(4) [OF t] mono show "t \<le> cur_term (node (worlds (node_acts n i s C) i))" by simp
    show "state (node (worlds (node_acts n i s C) i)) = LEADER" if "t = cur_term (node (worlds (node_acts n i s C) i))"
      using inv_i(4) [OF t] inv_i(5) t that mono led by fastforce
  qed (use inv_i(1-3) False log led in \<open>auto simp: elections_acts\<close>)
  then have "logs_inv n G (node_acts n i s C)" by (rule logs_inv_acts [OF inv new extends_refl]) (use no_new_requests [OF out] in auto)
  then show ?thesis by blast
next
  case True
  let ?t = "cur_term (node s)" and ?log = "log_entries (node (worlds C i))"
  note inv_i = leader_invD [OF inv i]
  have none: "(c, ?t) \<notin> set (elections C)" for c
  proof
    assume c: "(c, ?t) \<in> set (elections C)"
    with True unique_election [OF new, of c ?t i] have "c = i" by (simp add: elections_acts)
    with c inv_i(4) [of ?t] inv_i(5) True mono show False by auto
  qed
  have log_i: "?log = sentinel # tl ?log" using inv_i(1) by (metis hd_Cons_tl indexed_def of_terms_def)
  from inv none have "G ?t = [] \<or> G ?t = [sentinel]" by (simp add: logs_inv_def)
  then have "prefix (G ?t) ?log" using log_i by (metis Cons_prefix_Cons Nil_prefix)
  then have ext: "extends G (G(?t := ?log))" by (rule extends_upd)
  have "leader_inv (G(?t := ?log)) (node_acts n i s C) i"
    unfolding leader_inv_def Let_def
    using True log of_terms_extends [OF inv_i(1) ext] inv_i(4) mono by (auto simp: elections_acts intro: order_trans)
  then have "logs_inv n (G(?t := ?log)) (node_acts n i s C)"
    by (rule logs_inv_acts [OF inv new ext]) (use none True no_new_requests [OF out] in \<open>auto simp: elections_acts\<close>)
  then show ?thesis by blast
qed

text \<open>A step of a leader: its log is that of its term, and only this log grows.\<close>

lemma logs_lead:
  assumes inv: "logs_inv n G C" and new: "cluster_inv n (node_acts n i s C)" and i: "0 \<le> i" "i < n"
    and led: "state (node (worlds C i)) = LEADER" "state (node s) = LEADER" "cur_term (node s) = cur_term (node (worlds C i))"
    and log: "log_entries (node s) = log_entries (node (worlds C i)) @ es"
    and es: "es = [] \<or> (\<exists>e. es = [e] \<and> le_index e = int (length (log_entries (node (worlds C i)))) \<and> le_term e = cur_term (node (worlds C i)))"
    and out: "sent s = sent (worlds C i) @ out" "list_all (from_log (node s)) out"
  shows "\<exists>G'. logs_inv n G' (node_acts n i s C)"
proof -
  let ?t = "cur_term (node s)" and ?log = "log_entries (node s)"
  let ?G = "G(?t := ?log)"
  note inv_i = leader_invD [OF inv i]
  have G: "G ?t = log_entries (node (worlds C i))" and elected: "(i, ?t) \<in> set (elections C)" using inv_i(2,3) led by simp_all
  then have ext: "extends G ?G" using log by (intro extends_upd) simp
  have terms: "of_terms ?G ?log"
    using es of_terms_extends [OF inv_i(1) ext] of_terms_append [of ?G "log_entries (node (worlds C i))"] log led(3) by auto
  have same: "set (elections (node_acts n i s C)) = set (elections C)" using led by (simp add: node_acts_def)
  have "leader_inv ?G (node_acts n i s C) i"
    unfolding leader_inv_def Let_def using terms elected inv_i(4) led same by auto
  moreover have "?G t = G t" if "j \<noteq> i" "(j, t) \<in> set (elections C)" for j t
    using unique_election [OF new, of j ?t i] that elected same by auto
  ultimately have "logs_inv n ?G (node_acts n i s C)"
    by (rule logs_inv_acts [OF inv new ext]) (use elected same new_requests [OF out _ _ terms] in auto)
  then show ?thesis by blast
qed

lemma logs_follow:
  assumes inv: "logs_inv n G C" and new: "cluster_inv n (node_acts n i s C)" and i: "0 \<le> i" "i < n"
    and req: "append_inv G C (a, i, m)" "a \<noteq> i" "msg_type m = APPEND_ENTRIES_REQUEST"
    and trm: "cur_term (node (worlds C i)) \<le> aeq_term (get_append_request m)" "cur_term (node s) = aeq_term (get_append_request m)"
    and led: "state (node (worlds C i)) = LEADER \<longrightarrow> cur_term (node (worlds C i)) = cur_term (node s) \<or> state (node s) \<noteq> LEADER"
      "state (node (worlds C i)) \<noteq> LEADER \<longrightarrow> state (node s) \<noteq> LEADER"
    and sync: "check_if_previous_log_in_sync (aeq_prev_log_term (get_append_request m)) (aeq_prev_log_index (get_append_request m))
      (log_entries (node (worlds C i))) = Inr True"
    and log: "append_log_entries (aeq_prev_log_index (get_append_request m)) (aeq_entries (get_append_request m)) (log_entries (node (worlds C i))) =
      Inr (log_entries (node s))"
    and out: "sent s = sent (worlds C i) @ out" "list_all (\<lambda>x. \<not> is_append_request x) out"
  shows "\<exists>G'. logs_inv n G' (node_acts n i s C)"
proof -
  let ?t = "cur_term (node s)"
  note inv_i = leader_invD [OF inv i]
  from req(1,3) obtain M where elected: "(a, ?t) \<in> set (elections C)" and M: "of_terms G M" "fragment M (get_append_request m)"
    using trm(2) by (auto simp: append_inv_def)
  have no: "(i, ?t) \<notin> set (elections C)" using unique_election [OF new, of a ?t i] elected req(2) by (auto simp: elections_acts)
  then have foll: "state (node s) \<noteq> LEADER" using inv_i(2) led by fastforce
  have "of_terms G (log_entries (node s))" by (rule of_terms_follow [OF inv_i(1) M sync log])
  moreover have "t \<le> ?t \<and> t \<noteq> ?t" if "(i, t) \<in> set (elections C)" for t using inv_i(4) [OF that] no that trm by auto
  ultimately have "leader_inv G (node_acts n i s C) i" unfolding leader_inv_def Let_def using foll by (auto simp: elections_acts)
  then have "logs_inv n G (node_acts n i s C)" by (rule logs_inv_acts [OF inv new extends_refl]) (use no_new_requests [OF out] in auto)
  then show ?thesis by blast
qed

lemma logs_inv_step:
  assumes inv: "logs_inv n G C" and about: "about_to n C i ev" and step: "node_step env ev (worlds C i) = Inr s" and ord: "orderly ev (node (worlds C i))"
    and req: "\<And>m. ev = Receive m \<Longrightarrow> msg_type m = APPEND_ENTRIES_REQUEST \<Longrightarrow> \<exists>a. append_inv G C (a, i, m) \<and> a \<noteq> i"
  shows "\<exists>G'. logs_inv n G' (node_acts n i s C)"
proof -
  note new = cluster_inv_step [OF about step] and i = about_to_inv(2,3) [OF about]
  have mono: "cur_term (node (worlds C i)) \<le> cur_term (node s)" using node_step_progress [OF step] by (simp add: progress_def)
  have "indexed (log_entries (node (worlds C i)))" using leader_invD(1) [OF inv i] by (simp add: of_terms_def)
  from node_step_log_change [OF step ord this] show ?thesis
  proof cases
    case (keep out)
    then show ?thesis by (rule logs_keep [OF inv new i mono])
  next
    case (lead es out)
    then show ?thesis by (rule logs_lead [OF inv new i])
  next
    case (follow m out)
    from req [OF follow(1,2)] obtain a where "append_inv G C (a, i, m)" "a \<noteq> i" by blast
    from logs_follow [OF inv new i this follow(2-10)] show ?thesis .
  qed
qed

lemma outside_no_append: "from_outside (Receive m) \<Longrightarrow> msg_type m \<noteq> APPEND_ENTRIES_REQUEST"
  by (auto simp: message_types)

lemma orderly_run_inv: "orderly_run n C D \<Longrightarrow> \<exists>G. logs_inv n G C \<Longrightarrow> \<exists>G. logs_inv n G D"
proof (induction rule: orderly_run.induct)
  case (orderly_outside C D i ev env s)
  then obtain G where G: "logs_inv n G D" by blast
  then have "about_to n D i ev" using orderly_outside.hyps unfolding about_to_def logs_inv_def by blast
  with logs_inv_step [OF G] orderly_outside.hyps outside_no_append show ?case by blast
next
  case (orderly_receive C D xs j i m ys env s)
  then obtain G where G: "logs_inv n G D" by blast
  let ?D = "moved (xs @ ys) (j, i, m) D"
  from G have c: "cluster_inv n D" and m: "append_inv G D (j, i, m)" "message_inv n D (j, i, m)"
    using orderly_receive.hyps(2) by (auto simp: logs_inv_def cluster_inv_def)
  have "leader_inv G ?D k = leader_inv G D k" "append_inv G ?D x = append_inv G D x" for k x by (simp_all add: leader_inv_def append_inv_def)
  then have "logs_inv n G ?D" using G moved_inv [OF c orderly_receive.hyps(2)] orderly_receive.hyps(2) unfolding logs_inv_def by auto
  moreover have "append_inv G ?D (j, i, m) \<and> j \<noteq> i" using m by (simp add: append_inv_def message_inv_def)
  ultimately show ?case
    using logs_inv_step [of n G ?D i "Receive m" env s] about_to_receive [OF c orderly_receive.hyps(2)] orderly_receive.hyps(3,4) by auto
next
  case (orderly_lose C D xs x ys)
  then obtain G where G: "logs_inv n G D" by blast
  let ?D = "D\<lparr>in_flight := xs @ ys\<rparr>"
  have "leader_inv G ?D k = leader_inv G D k" "append_inv G ?D x = append_inv G D x" for k x by (simp_all add: leader_inv_def append_inv_def)
  then have "logs_inv n G ?D" using G lose_inv [OF _ orderly_lose.hyps(2)] orderly_lose.hyps(2) unfolding logs_inv_def by auto
  then show ?case by blast
qed

text \<open>Nodes as the constructor leaves them when there are no files: a log with only the first entry.\<close>

definition fresh_nodes :: "int \<Rightarrow> (int \<Rightarrow> cluster_node) \<Rightarrow> bool" where
  "fresh_nodes n nodes \<longleftrightarrow> (\<forall>i. 0 \<le> i \<and> i < n \<longrightarrow> (\<exists>cfg storage heart_beat votes.
     nodes i = initial_node cfg storage heart_beat votes \<and> cfg_node_id cfg = i \<and> cfg_total_nodes cfg = n))"

lemma fresh_node:
  assumes "fresh_nodes n nodes" and "0 \<le> i" and "i < n"
  shows "node_id (nodes i) = i" "total_nodes (nodes i) = n" "state (nodes i) = CANDIDATE" "log_entries (nodes i) = [sentinel]"
  using assms unfolding fresh_nodes_def by (force simp: initial_node_def Let_def)+

lemma new_cluster_logs:
  assumes "fresh_nodes n nodes"
  shows "logs_inv n (\<lambda>t. if t = 0 then [sentinel] else []) (new_cluster nodes)"
proof -
  let ?G = "\<lambda>t :: int. if t = 0 then [sentinel] else []"
  have "of_terms ?G [sentinel]" by (simp add: of_terms_def indexed_def sentinel_def message_getter_defs)
  then have "leader_inv ?G (new_cluster nodes) i" if "0 \<le> i" "i < n" for i
    using fresh_node [OF assms that] by (simp add: leader_inv_def new_cluster_def start_world_def)
  moreover have "cluster_inv n (new_cluster nodes)" by (rule new_cluster_inv) (use fresh_node [OF assms] in simp)
  ultimately show ?thesis by (simp add: logs_inv_def) (simp add: new_cluster_def)
qed

text \<open>
  C2: Log Matching, and that leaders have the entries of their terms, for every orderly run of a cluster of new nodes: whenever the logs of two nodes have an entry of the same term at the same position they are
  equal up to it, and a leader has every entry of its term that is in any log.
\<close>

theorem logs_of_cluster_match:
  assumes "orderly_run n (new_cluster nodes) C" and "fresh_nodes n nodes" and "0 \<le> i" and "i < n" and "0 \<le> j" and "j < n"
  defines "a \<equiv> node (worlds C i)" and "b \<equiv> node (worlds C j)"
  shows "logs_match (log_entries a) (log_entries b) \<and>
    (state a = LEADER \<longrightarrow> (\<forall>k < length (log_entries b). le_term (log_entries b ! k) = cur_term a \<longrightarrow>
       k < length (log_entries a) \<and> log_entries a ! k = log_entries b ! k))"
proof -
  from orderly_run_inv [OF assms(1)] new_cluster_logs [OF assms(2)] obtain G where G: "logs_inv n G C" by blast
  note inv = leader_invD [OF G assms(3,4)] leader_invD [OF G assms(5,6)]
  have "k < length (log_entries a) \<and> log_entries a ! k = log_entries b ! k"
    if "state a = LEADER" "k < length (log_entries b)" "le_term (log_entries b ! k) = cur_term a" for k
  proof -
    from inv(3,6) that have k: "k < length (log_entries a)" "take (Suc k) (log_entries a) = take (Suc k) (log_entries b)"
      by (auto simp: of_terms_def a_def b_def)
    then show ?thesis by (metis lessI nth_take)
  qed
  with of_terms_match [OF inv(1,6)] show ?thesis unfolding a_def b_def by blast
qed

section \<open>Playing a run\<close>

text \<open>A run given by its moves: an event of a node, or the delivery of the message at a position of the network.\<close>

datatype move = Act node_env int node_event | Deliver node_env nat

fun play_move :: "int \<Rightarrow> move \<Rightarrow> cluster \<Rightarrow> cpp_error + cluster" where
  "play_move n (Act env i ev) C =
     (if 0 \<le> i \<and> i < n \<and> from_outside ev \<and> orderly ev (node (worlds C i))
      then andThen (node_step env ev (worlds C i)) (\<lambda>s. Inr (node_acts n i s C)) else Inl OutOfBounds)"
| "play_move n (Deliver env k) C =
     (if k < length (in_flight C)
      then case in_flight C ! k of (j, i, m) \<Rightarrow>
        if orderly (Receive m) (node (worlds C i))
        then andThen (node_step env (Receive m) (worlds C i)) (\<lambda>s.
          Inr (node_acts n i s (moved (take k (in_flight C) @ drop (Suc k) (in_flight C)) (j, i, m) C)))
        else Inl OutOfBounds
      else Inl OutOfBounds)"

definition play :: "int \<Rightarrow> move list \<Rightarrow> cluster \<Rightarrow> cpp_error + cluster" where
  "play n = forEach (play_move n)"

lemma play_move_run:
  assumes "orderly_run n C D" and "play_move n mv D = Inr E"
  shows "orderly_run n C E"
proof (cases mv)
  case (Act env i ev)
  with assms(2) show ?thesis by (auto split: if_splits intro: orderly_outside [OF assms(1)])
next
  case (Deliver env k)
  obtain j i m where x: "in_flight D ! k = (j, i, m)" by (metis prod_cases3)
  with Deliver assms(2) have k: "k < length (in_flight D)" "orderly (Receive m) (node (worlds D i))"
    and "\<exists>s. node_step env (Receive m) (worlds D i) = Inr s \<and> E = node_acts n i s (moved (take k (in_flight D) @ drop (Suc k) (in_flight D)) (j, i, m) D)"
    by (auto split: if_splits)
  moreover have "in_flight D = take k (in_flight D) @ (j, i, m) # drop (Suc k) (in_flight D)" using id_take_nth_drop [OF k(1)] x by simp
  ultimately show ?thesis by (blast intro: orderly_receive [OF assms(1)])
qed

lemma play_run: "play n mvs C = Inr D \<Longrightarrow> orderly_run n C D"
  unfolding play_def by (rule forEach_keeps [where P = "orderly_run n C"]) (auto intro: play_move_run orderly_begin simp del: play_move.simps)

definition put_event :: "string \<Rightarrow> node_event" where
  "put_event x = Receive (loadClientPutMessageRequest (ClientPutMessage_new\<lparr>cpm_message_fld := Some x\<rparr>) RaftMessage_new)"

text \<open>
  Node 0 is elected in term 1 and replicates x to both others and z to node 1. Node 2, which hears nothing more, is elected in term 2 by node 1 and puts y after x. Its first request to node 1 carries
  x; node 1 has x, and answers with the index of z, the last entry of its log. The answer of node 1 to the request with z arrives last.
\<close>

definition diverging_run :: "move list" where
  "diverging_run =
     [Act sample_env 0 VoteTimer, Act sample_env 0 VoteDelay, Deliver sample_env 0, Deliver sample_env 1,
      Act sample_env 0 (put_event ''x''), Deliver sample_env 1, Deliver sample_env 1, Deliver sample_env 1, Deliver sample_env 1,
      Act sample_env 0 (put_event ''z''), Deliver sample_env 1,
      Act (sample_env\<lparr>now := 200\<rparr>) 2 VoteTimer, Act sample_env 2 VoteDelay, Deliver sample_env 4, Deliver sample_env 4,
      Act sample_env 2 (put_event ''y''), Deliver sample_env 5, Deliver sample_env 5, Deliver sample_env 2]"

text \<open>What a node is, for the runs below: its state and term, the terms and messages of its log, and its commit index.\<close>

definition look :: "cluster \<Rightarrow> int \<Rightarrow> node_state \<times> int \<times> (int \<times> string) list \<times> int" where
  "look C i = (let n = node (worlds C i) in (state n, cur_term n, map (\<lambda>e. (le_term e, le_message e)) (log_entries n), commit_index n))"

lemma diverging_run_plays:
  "(case play 3 diverging_run (new_cluster sample_node) of Inl _ \<Rightarrow> [] | Inr C \<Rightarrow> map (look C) [0, 1, 2]) =
   [(LEADER, 1, [(0, []), (1, ''x''), (1, ''z'')], 2), (FOLLOWER, 2, [(0, []), (1, ''x''), (1, ''z'')], 1), (LEADER, 2, [(0, []), (1, ''x''), (2, ''y'')], 2)]"
  by code_simp

lemma diverging_cluster:
  obtains C where "orderly_run 3 (new_cluster sample_node) C" "look C 0 = (LEADER, 1, [(0, []), (1, ''x''), (1, ''z'')], 2)"
    "look C 1 = (FOLLOWER, 2, [(0, []), (1, ''x''), (1, ''z'')], 1)" "look C 2 = (LEADER, 2, [(0, []), (1, ''x''), (2, ''y'')], 2)"
  using diverging_run_plays play_run [of 3 diverging_run "new_cluster sample_node"] by (auto split: sum.splits)

lemma sample_nodes_fresh: "fresh_nodes 3 sample_node"
  unfolding fresh_nodes_def sample_node_def by (metis cluster_node_config.select_convs(2,3))

lemma look_nth:
  assumes "look C i = (st, t, es, c)"
  shows "state (node (worlds C i)) = st" "cur_term (node (worlds C i)) = t" "commit_index (node (worlds C i)) = c"
    "length (log_entries (node (worlds C i))) = length es"
    "k < length es \<Longrightarrow> (le_term (log_entries (node (worlds C i)) ! k), le_message (log_entries (node (worlds C i)) ! k)) = es ! k"
  using assms by (auto simp: look_def Let_def)

theorem logs_of_cluster_match_witness:
  "\<exists>C. orderly_run 3 (new_cluster sample_node) C \<and> state (node (worlds C 0)) = LEADER \<and> length (log_entries (node (worlds C 1))) = 3 \<and>
     log_entries (node (worlds C 0)) ! 2 = log_entries (node (worlds C 1)) ! 2 \<and>
     logs_match (log_entries (node (worlds C 0))) (log_entries (node (worlds C 1)))"
proof -
  obtain C where C: "orderly_run 3 (new_cluster sample_node) C" "look C 0 = (LEADER, 1, [(0, []), (1, ''x''), (1, ''z'')], 2)"
    "look C 1 = (FOLLOWER, 2, [(0, []), (1, ''x''), (1, ''z'')], 1)" using diverging_cluster by blast
  have "2 < length (log_entries (node (worlds C 1)))" "le_term (log_entries (node (worlds C 1)) ! 2) = 1"
    using look_nth(4) [OF C(3)] look_nth(5) [OF C(3), of 2] by simp_all
  with logs_of_cluster_match [OF C(1) sample_nodes_fresh, of 0 1] look_nth(1,2) [OF C(2)] look_nth(4) [OF C(3)] C(1) show ?thesis
    by (intro exI [of _ C]) auto
qed

text \<open>
  C34: what is committed is not safe, even in an orderly run without a loss. In a cluster of three, node 0 and node 2 have both committed the entry at position 2 and disagree on it, since votes
  are given to candidates without the committed entries; and the entry that node 2 has committed is in no other log, since a follower reports the end of its log as synced and not the last entry that was compared.
\<close>

theorem committed_entries_diverge:
  "\<exists>C. orderly_run 3 (new_cluster sample_node) C \<and> commit_index (node (worlds C 0)) = 2 \<and> commit_index (node (worlds C 2)) = 2 \<and>
     log_entries (node (worlds C 0)) ! 2 \<noteq> log_entries (node (worlds C 2)) ! 2 \<and>
     log_entries (node (worlds C 2)) ! 2 \<notin> set (log_entries (node (worlds C 0))) \<and>
     log_entries (node (worlds C 2)) ! 2 \<notin> set (log_entries (node (worlds C 1)))"
proof -
  obtain C where C: "orderly_run 3 (new_cluster sample_node) C" "look C 0 = (LEADER, 1, [(0, []), (1, ''x''), (1, ''z'')], 2)"
    "look C 1 = (FOLLOWER, 2, [(0, []), (1, ''x''), (1, ''z'')], 1)" "look C 2 = (LEADER, 2, [(0, []), (1, ''x''), (2, ''y'')], 2)"
    using diverging_cluster by blast
  have y: "le_message (log_entries (node (worlds C 2)) ! 2) = ''y''" using look_nth(5) [OF C(4), of 2] by simp
  have other: "log_entries (node (worlds C 2)) ! 2 \<notin> set (log_entries (node (worlds C i)))" if "i \<in> {0, 1}" for i
  proof -
    have "map (\<lambda>e. (le_term e, le_message e)) (log_entries (node (worlds C i))) = [(0, []), (1, ''x''), (1, ''z'')]"
      using that C(2,3) by (auto simp: look_def Let_def)
    then have "map snd (map (\<lambda>e. (le_term e, le_message e)) (log_entries (node (worlds C i)))) = [[], ''x'', ''z'']" by simp
    then have "map le_message (log_entries (node (worlds C i))) = [[], ''x'', ''z'']" by (simp add: comp_def)
    from arg_cong [OF this, of set] have "''y'' \<notin> le_message ` set (log_entries (node (worlds C i)))" by simp
    with y show ?thesis by (metis imageI)
  qed
  moreover have "log_entries (node (worlds C 0)) ! 2 \<in> set (log_entries (node (worlds C 0)))" using look_nth(4) [OF C(2)] by simp
  ultimately have "log_entries (node (worlds C 0)) ! 2 \<noteq> log_entries (node (worlds C 2)) ! 2" by auto
  with other [of 0] other [of 1] C(1) look_nth(3) [OF C(2)] look_nth(3) [OF C(4)] show ?thesis by blast
qed

text \<open>
  Node 0, which led term 1 and follows the leader of term 2, with an entry of its own; and node 2, the leader of term 2, which has committed another entry in that place.
\<close>

definition deposed_world :: world where
  "deposed_world = start_world ((sample_node 0)\<lparr>state := FOLLOWER, cur_term := 2, cur_leader := 2, log_entries := [sentinel, stale]\<rparr>)"

definition new_leader_world :: world where
  "new_leader_world = start_world ((sample_node 2)\<lparr>state := LEADER, cur_term := 2, log_entries := [sentinel, chosen], commit_index := 1\<rparr>)"

definition stale_request :: raft_message where
  "stale_request = set_partition_id 0 (append_request 2 0 0 0 [stale] 0)"


end
