(* ===== verification/Cluster_Node_Delivery.thy ===== *)
theory Cluster_Node_Delivery
  imports Cluster_Node_Commit
begin

text \<open>
  \<open>trigger_message_delivery\<close> of a leader with connected consumers: the contracts of the queue and of the client manager together give that every waiting message
  reaches a consumer.
\<close>

definition outgoing :: "cluster_node \<Rightarrow> message_id_type \<Rightarrow> raft_message" where
  "outgoing n m = set_partition_id (partition_id n) (server_send m (opt_get [] (map_find (message_store (queue n)) m)))"

text \<open>The message fits in a frame.\<close>

definition deliverable :: "wire \<Rightarrow> cluster_node \<Rightarrow> message_id_type \<Rightarrow> bool" where
  "deliverable w n m \<longleftrightarrow>
     (\<exists>buf. serialize_raft_message w n (server_send m (opt_get [] (map_find (message_store (queue n)) m))) = Inr (outgoing n m, buf))"

definition deliver_to :: "message_id_type \<times> client_id_type \<Rightarrow> message_queue \<Rightarrow> message_queue" where
  "deliver_to = (\<lambda>(m, c) q. snd (deliver_message_to_client_id m c q))"

lemma deliver_to_store [simp]: "message_store (deliver_to x q) = message_store q"
  by (simp add: deliver_to_def deliver_message_to_client_id_def case_prod_beta Let_def)

lemma outgoing_queue [simp]: "message_store q = message_store (queue n) \<Longrightarrow> outgoing (n\<lparr>queue := q\<rparr>) = outgoing n"
  by (simp add: outgoing_def fun_eq_iff)

lemma deliverable_queue [simp]: "message_store q = message_store (queue n) \<Longrightarrow> deliverable w (n\<lparr>queue := q\<rparr>) m = deliverable w n m"
  by (simp add: deliverable_def serialize_raft_message_def)

lemma deliver_to_pending:
  assumes "queue_inv q" and "m \<in> set (undelivered_messages q)"
  shows "queue_inv (deliver_to (m, c) q) \<and> set (undelivered_messages (deliver_to (m, c) q)) = set (undelivered_messages q) - {m}"
proof -
  have "status_of q m = Undelivered"
    using mq.pending_status [OF assms(1)] assms(2) by (auto simp: get_all_undelivered_messages_def)
  with mq.inv_deliver [OF assms(1) this, of c] mq.pending_status [OF assms(1)] mq.pending_status [of "deliver_to (m, c) q"]
    mq.status_deliver [OF assms(1) this, of c]
  show ?thesis by (auto simp: deliver_to_def get_all_undelivered_messages_def split: if_splits)
qed

text \<open>One round of the loop.\<close>

lemma deliver_messages_round:
  assumes "queue_inv (queue (node s))" and "m \<in> set (undelivered_messages (queue (node s)))" and "deliverable (env_wire env) (node s) m"
    and "deliver_one_message_round_robin (partition_id (node s)) (outgoing (node s) m) (clients s) = Inr (c, cm)" and "c \<noteq> - 1"
  shows "deliver_messages env (m # ids) s = deliver_messages env ids (s\<lparr>clients := cm, node := (node s)\<lparr>queue := deliver_to (m, c) (queue (node s))\<rparr>\<rparr>)"
  using assms get_message_stored [OF assms(1,2)] by (auto simp: deliverable_def Let_def update_node_def deliver_to_def)

lemma target_is_consumer: "active p cm \<Longrightarrow> cmgr.target_at p cm i \<in> set (consumers p cm)"
  by (auto simp: cmgr.target_at_def active_def nat_less_iff intro!: nth_mem)

lemma deliver_to_consumer:
  assumes "active p cm" and "- 1 \<notin> set (consumers p cm)"
  obtains c cm' where "deliver_one_message_round_robin p x cm = Inr (c, cm')" "c \<noteq> - 1" "active p cm'" "consumers p cm' = consumers p cm"
proof -
  from cmgr.deliver_next [OF assms(1), of x] obtain cm' where
    "deliver_one_message_round_robin p x cm = Inr (cmgr.target_at p cm 0, cm')" "active p cm'" "consumers p cm' = consumers p cm" by (auto simp: cmgr.target_at_def)
  moreover have "cmgr.target_at p cm 0 \<noteq> - 1" using target_is_consumer [OF assms(1), of 0] assms(2) by auto
  ultimately show ?thesis by (intro that)
qed

lemma deliver_messages_ok:
  assumes "queue_inv (queue (node s))" and "distinct ids" and "set ids \<subseteq> set (undelivered_messages (queue (node s)))"
    and "active (partition_id (node s)) (clients s)" and "- 1 \<notin> set (consumers (partition_id (node s)) (clients s))"
    and "\<forall>m \<in> set ids. deliverable (env_wire env) (node s) m"
  shows "\<exists>cs cm. deliver_seq (deliver_one_message_round_robin (partition_id (node s))) (map (outgoing (node s)) ids) (clients s) = Inr (cs, cm) \<and>
    length cs = length ids \<and>
    deliver_messages env ids s = Inr (s\<lparr>node := (node s)\<lparr>queue := fold deliver_to (zip ids cs) (queue (node s))\<rparr>, clients := cm\<rparr>)"
  using assms
proof (induction ids arbitrary: s)
  case (Cons m ids)
  let ?n = "node s" and ?q = "queue (node s)" and ?p = "partition_id (node s)"
  have m: "m \<in> set (undelivered_messages ?q)" using Cons.prems by simp
  obtain c cm where d: "deliver_one_message_round_robin ?p (outgoing ?n m) (clients s) = Inr (c, cm)" "c \<noteq> - 1" and cm: "active ?p cm"
      "consumers ?p cm = consumers ?p (clients s)"
    by (rule deliver_to_consumer [OF Cons.prems(4,5)])
  let ?s = "s\<lparr>clients := cm, node := ?n\<lparr>queue := deliver_to (m, c) ?q\<rparr>\<rparr>"
  have step: "deliver_messages env (m # ids) s = deliver_messages env ids ?s"
    using Cons.prems(6) by (intro deliver_messages_round [OF Cons.prems(1) m _ d]) simp
  from deliver_to_pending [OF Cons.prems(1) m, of c] have q: "queue_inv (deliver_to (m, c) ?q)"
    "set (undelivered_messages (deliver_to (m, c) ?q)) = set (undelivered_messages ?q) - {m}" by auto
  have "\<exists>cs cm'. deliver_seq (deliver_one_message_round_robin ?p) (map (outgoing ?n) ids) cm = Inr (cs, cm') \<and> length cs = length ids \<and>
      deliver_messages env ids ?s = Inr (?s\<lparr>node := (node ?s)\<lparr>queue := fold deliver_to (zip ids cs) (queue (node ?s))\<rparr>, clients := cm'\<rparr>)"
    using Cons.IH [of ?s] Cons.prems cm q by auto
  then obtain cs cm' where r: "deliver_seq (deliver_one_message_round_robin ?p) (map (outgoing ?n) ids) cm = Inr (cs, cm')" "length cs = length ids"
      "deliver_messages env ids ?s = Inr (?s\<lparr>node := (node ?s)\<lparr>queue := fold deliver_to (zip ids cs) (queue (node ?s))\<rparr>, clients := cm'\<rparr>)"
    by blast
  show ?case
    unfolding step using r d(1) by (intro exI [of _ "c # cs"] exI [of _ cm']) simp
qed simp

lemma zip_map_filter:
  "map fst (filter (\<lambda>(m, x). x = c) (zip (map f xs) ys)) = map (f \<circ> fst) (filter (\<lambda>(m, x). x = c) (zip xs ys))"
  by (induction xs ys rule: list_induct2') auto

text \<open>The deliveries of a leader: the consumer each waiting message goes to, and what is left behind.\<close>

definition turns :: "world \<Rightarrow> (message_id_type \<times> client_id_type) list" where
  "turns s = (let ids = undelivered_messages (queue (node s))
     in zip ids (map (cmgr.target_at (partition_id (node s)) (clients s)) [0..<length ids]))"

lemma turns_keys [simp]: "fst ` set (turns s) = set (undelivered_messages (queue (node s)))"
  by (simp add: turns_def Let_def flip: set_map)

lemma turns_consumer: "active (partition_id (node s)) (clients s) \<Longrightarrow> (m, c) \<in> set (turns s) \<Longrightarrow> c \<in> set (consumers (partition_id (node s)) (clients s))"
  by (auto simp: turns_def Let_def target_is_consumer dest!: set_zip_rightD)

lemma leader_delivery:
  assumes "state (node s) = LEADER" and "queue_inv (queue (node s))" and "active (partition_id (node s)) (clients s)"
    and "- 1 \<notin> set (consumers (partition_id (node s)) (clients s))"
    and "\<forall>m \<in> set (undelivered_messages (queue (node s))). deliverable (env_wire env) (node s) m"
  obtains q cm where "trigger_message_delivery env s = Inr (s\<lparr>node := (node s)\<lparr>queue := q\<rparr>, clients := cm\<rparr>)"
    "queue_inv q" "undelivered_messages q = []" "message_store q = message_store (queue (node s))"
    "active (partition_id (node s)) cm" "consumers (partition_id (node s)) cm = consumers (partition_id (node s)) (clients s)"
    "\<And>m. status_of q m = (case map_of (turns s) m of Some c \<Rightarrow> Delivered c | None \<Rightarrow> status_of (queue (node s)) m)"
    "\<And>c. inbox cm c = inbox (clients s) c @ map (outgoing (node s) \<circ> fst) (filter (\<lambda>(m, x). x = c) (turns s))"
proof -
  let ?p = "partition_id (node s)" and ?cm = "clients s" and ?q = "queue (node s)"
  let ?ids = "undelivered_messages ?q"
  let ?cs = "map (cmgr.target_at ?p ?cm) [0..<length ?ids]" and ?out = "map (outgoing (node s)) ?ids"
  from deliver_messages_ok [OF assms(2) queue_inv_distinct [OF assms(2)] order_refl assms(3,4,5)] obtain cs cm where
    r: "deliver_seq (deliver_one_message_round_robin ?p) ?out ?cm = Inr (cs, cm)"
      "deliver_messages env ?ids s = Inr (s\<lparr>node := (node s)\<lparr>queue := fold deliver_to (zip ?ids cs) ?q\<rparr>, clients := cm\<rparr>)"
    by blast
  from cmgr.deliver_seq_targets [OF assms(3), of ?out] r(1) have cs: "cs = ?cs" and after: "active ?p cm" "consumers ?p cm = consumers ?p ?cm"
    and written: "inbox cm c = inbox ?cm c @ map fst (filter (\<lambda>(m, x). x = c) (zip ?out ?cs))" for c
    by auto
  have given: "turns s = zip ?ids cs" by (simp add: turns_def cs Let_def)
  have waiting: "set ?ids = {m. status_of ?q m = Undelivered}"
    using mq.pending_status [OF assms(2)] by (simp add: get_all_undelivered_messages_def)
  let ?q' = "fold deliver_to (zip ?ids cs) ?q"
  from mq.deliver_all_status [OF assms(2) queue_inv_distinct [OF assms(2)] equalityD1 [OF waiting], of cs] cs
  have inv: "queue_inv ?q'" and status: "status_of ?q' m = (case map_of (turns s) m of Some c \<Rightarrow> Delivered c | None \<Rightarrow> status_of ?q m)" for m
    by (simp_all add: deliver_to_def given)
  have "status_of ?q' m \<noteq> Undelivered" for m
    using status [of m] waiting turns_keys [of s] by (auto simp: map_of_eq_None_iff split: option.splits)
  then have none: "undelivered_messages ?q' = []"
    using mq.pending_status [OF inv] by (simp add: get_all_undelivered_messages_def)
  have store: "message_store (fold deliver_to xs q) = message_store q" for xs q by (induction xs arbitrary: q) simp_all
  have "has_consumers ?cm" using assms(3) by (auto simp: active_def has_consumers_def consumers_def)
  then have "trigger_message_delivery env s = Inr (s\<lparr>node := (node s)\<lparr>queue := ?q'\<rparr>, clients := cm\<rparr>)"
    using assms(1) r(2) by (simp add: trigger_message_delivery_def get_all_undelivered_messages_def)
  then show ?thesis
    by (rule that [OF _ inv none store after status]) (simp add: written given cs zip_map_filter)
qed

text \<open>
  C13: a leader whose partition has connected consumers, and whose waiting messages fit in a frame, hands out every one of them: each is delivered to one consumer, in the
  order of the ids and round robin from the consumer whose turn it is, and written to that consumer's session after what was written before; nothing is left waiting and no
  other message changes its status.
\<close>

theorem leader_delivers_everything:
  assumes "state (node s) = LEADER" and "queue_inv (queue (node s))" and "active (partition_id (node s)) (clients s)"
    and "- 1 \<notin> set (consumers (partition_id (node s)) (clients s))"
    and "\<forall>m \<in> set (undelivered_messages (queue (node s))). deliverable (env_wire env) (node s) m"
  shows "\<exists>s'. trigger_message_delivery env s = Inr s' \<and>
    (let p = partition_id (node s); cm = clients s; ids = get_all_undelivered_messages [] (queue (node s));
         turn = (\<lambda>i. consumers p cm ! nat ((delivered_count p cm + int i) mod int (length (consumers p cm))));
         given = zip ids (map turn [0..<length ids])
     in get_all_undelivered_messages [] (queue (node s')) = [] \<and>
        (\<forall>m. status_of (queue (node s')) m = (case map_of given m of Some c \<Rightarrow> Delivered c | None \<Rightarrow> status_of (queue (node s)) m)) \<and>
        (\<forall>c. inbox (clients s') c = inbox cm c @ map (outgoing (node s) \<circ> fst) (filter (\<lambda>(m, x). x = c) given)))"
proof -
  let ?p = "partition_id (node s)" and ?cm = "clients s"
  have turn: "cmgr.target_at ?p ?cm = (\<lambda>i. consumers ?p ?cm ! nat ((delivered_count ?p ?cm + int i) mod int (length (consumers ?p ?cm))))"
    by (rule ext) (rule cmgr.target_at_def)
  obtain q cm where r: "trigger_message_delivery env s = Inr (s\<lparr>node := (node s)\<lparr>queue := q\<rparr>, clients := cm\<rparr>)" "undelivered_messages q = []"
    "\<And>m. status_of q m = (case map_of (turns s) m of Some c \<Rightarrow> Delivered c | None \<Rightarrow> status_of (queue (node s)) m)"
    "\<And>c. inbox cm c = inbox ?cm c @ map (outgoing (node s) \<circ> fst) (filter (\<lambda>(m, x). x = c) (turns s))"
    by (rule leader_delivery [OF assms]) blast
  show ?thesis
    by (rule exI, rule conjI [OF r(1)]) (use r(2-4) in \<open>simp add: Let_def get_all_undelivered_messages_def turns_def turn\<close>)
qed

text \<open>A leader with two consumers and one waiting message.\<close>

definition serving_world :: world where
  "serving_world = \<lparr>node = (sample_node 0)\<lparr>state := LEADER, queue := snd (insert_message 42 ''hello'' empty_queue)\<rparr>,
     clients = two_consumers, sent = [], vote_timers = 0\<rparr>"

lemma serving_ok:
  "state (node serving_world) = LEADER" "queue_inv (queue (node serving_world))" "partition_id (node serving_world) = 0"
  "clients serving_world = two_consumers"
  "undelivered_messages (queue (node serving_world)) = [42]" "deliverable varint_wire (node serving_world) 42"
proof -
  let ?n = "node serving_world"
  show n: "state ?n = LEADER" "partition_id ?n = 0" "clients serving_world = two_consumers"
    by (simp_all add: serving_world_def)
  have q: "queue ?n = snd (insert_message 42 ''hello'' empty_queue)" by (simp add: serving_world_def)
  show "queue_inv (queue ?n)" unfolding q by (rule insert_message_inv [OF queue_inv_empty])
  show "undelivered_messages (queue ?n) = [42]"
    by (simp add: q insert_message_def empty_queue_def map_find_def set_insert_def insort_insert_key_def)
  have "message_store (queue ?n) = [(42, ''hello'')]" by (simp add: q insert_message_def empty_queue_def map_find_def)
  then show "deliverable varint_wire ?n 42"
    using varint.server_send_ok [of ?n 42 "''hello''"]
    by (simp add: deliverable_def outgoing_def n map_find_def MAX_BODY_LENGTH_def in_int64_def)
qed

theorem leader_delivers_everything_witness:
  "\<exists>s'. trigger_message_delivery sample_env serving_world = Inr s' \<and> get_all_undelivered_messages [] (queue (node s')) = [] \<and>
     status_of (queue (node s')) 42 = Delivered 7 \<and> inbox (clients s') 7 = [outgoing (node serving_world) 42] \<and> inbox (clients s') 9 = []"
proof -
  have active: "active (partition_id (node serving_world)) (clients serving_world)"
    unfolding serving_ok by (rule two_consumers_active)
  have "- 1 \<notin> set (consumers (partition_id (node serving_world)) (clients serving_world))"
    "\<forall>m \<in> set (undelivered_messages (queue (node serving_world))). deliverable (env_wire sample_env) (node serving_world) m"
    by (simp_all add: serving_ok)
  from leader_delivers_everything [OF serving_ok(1,2) active this] obtain s' where
    "trigger_message_delivery sample_env serving_world = Inr s'" "undelivered_messages (queue (node s')) = []"
    "\<forall>m. status_of (queue (node s')) m = (case map_of [(42, 7)] m of Some c \<Rightarrow> Delivered c | None \<Rightarrow> status_of (queue (node serving_world)) m)"
    "\<forall>c. inbox (clients s') c = map (outgoing (node serving_world) \<circ> fst) (filter (\<lambda>(m, x). x = c) [(42, 7)])"
    by (auto simp: Let_def get_all_undelivered_messages_def serving_ok simp del: filter.simps map_of.simps)
  then show ?thesis by (simp add: get_all_undelivered_messages_def)
qed

section \<open>A delivery that has succeeded\<close>

lemma delivered_were_deliverable:
  assumes "deliver_messages env ids s = Inr s'" and "queue_inv (queue (node s))" and "distinct ids" and "set ids \<subseteq> set (undelivered_messages (queue (node s)))"
    and "active (partition_id (node s)) (clients s)" and "- 1 \<notin> set (consumers (partition_id (node s)) (clients s))"
  shows "\<forall>m \<in> set ids. deliverable (env_wire env) (node s) m"
  using assms
proof (induction ids arbitrary: s)
  case (Cons m ids)
  let ?n = "node s" and ?q = "queue (node s)" and ?p = "partition_id (node s)"
  have m: "m \<in> set (undelivered_messages ?q)" using Cons.prems by simp
  from Cons.prems(1) get_message_stored [OF Cons.prems(2) m] obtain buf where
    "serialize_raft_message (env_wire env) ?n (server_send m (opt_get [] (map_find (message_store ?q) m))) = Inr (outgoing ?n m, buf)"
    by (auto simp: Let_def update_node_def outgoing_def serialize_raft_message_def)
  then have ok: "deliverable (env_wire env) ?n m" by (auto simp: deliverable_def)
  obtain c cm where d: "deliver_one_message_round_robin ?p (outgoing ?n m) (clients s) = Inr (c, cm)" "c \<noteq> - 1" and cm: "active ?p cm"
      "consumers ?p cm = consumers ?p (clients s)"
    by (rule deliver_to_consumer [OF Cons.prems(5,6)])
  let ?s = "s\<lparr>clients := cm, node := ?n\<lparr>queue := deliver_to (m, c) ?q\<rparr>\<rparr>"
  note deliver_messages_round [OF Cons.prems(2) m ok d, of ids]
  moreover from deliver_to_pending [OF Cons.prems(2) m, of c] have "queue_inv (deliver_to (m, c) ?q)"
    "set (undelivered_messages (deliver_to (m, c) ?q)) = set (undelivered_messages ?q) - {m}" by auto
  ultimately have "\<forall>m \<in> set ids. deliverable (env_wire env) (node ?s) m" using Cons.prems cm by (intro Cons.IH [of ?s]) auto
  with ok show ?case by simp
qed simp

text \<open>After a delivery of a leader with consumers nothing waits: each message that waited was written to a consumer, and nothing else has changed.\<close>

lemma delivery_drains:
  assumes "trigger_message_delivery env s = Inr s'" and "state (node s) = LEADER" and "queue_inv (queue (node s))" and "active (partition_id (node s)) (clients s)"
    and "- 1 \<notin> set (consumers (partition_id (node s)) (clients s))"
  obtains q cm where "s' = s\<lparr>node := (node s)\<lparr>queue := q\<rparr>, clients := cm\<rparr>" "queue_inv q" "undelivered_messages q = []" "message_store q = message_store (queue (node s))"
    "active (partition_id (node s)) cm" "consumers (partition_id (node s)) cm = consumers (partition_id (node s)) (clients s)"
    "\<And>m. status_of (queue (node s)) m \<noteq> Undelivered \<Longrightarrow> status_of q m = status_of (queue (node s)) m"
    "\<And>m. status_of (queue (node s)) m = Undelivered \<Longrightarrow>
       \<exists>c \<in> set (consumers (partition_id (node s)) (clients s)). status_of q m = Delivered c \<and> outgoing (node s) m \<in> set (inbox cm c)"
    "\<And>c. set (inbox (clients s) c) \<subseteq> set (inbox cm c)"
proof -
  let ?q = "queue (node s)"
  have "has_consumers (clients s)" using assms(4) by (auto simp: active_def has_consumers_def consumers_def)
  with assms(1,2) have "deliver_messages env (undelivered_messages ?q) s = Inr s'" by (simp add: trigger_message_delivery_def get_all_undelivered_messages_def)
  from delivered_were_deliverable [OF this assms(3) queue_inv_distinct [OF assms(3)] order_refl assms(4,5)]
  obtain q cm where r: "trigger_message_delivery env s = Inr (s\<lparr>node := (node s)\<lparr>queue := q\<rparr>, clients := cm\<rparr>)"
    "queue_inv q" "undelivered_messages q = []" "message_store q = message_store ?q"
    "active (partition_id (node s)) cm" "consumers (partition_id (node s)) cm = consumers (partition_id (node s)) (clients s)"
    "\<And>m. status_of q m = (case map_of (turns s) m of Some c \<Rightarrow> Delivered c | None \<Rightarrow> status_of ?q m)"
    "\<And>c. inbox cm c = inbox (clients s) c @ map (outgoing (node s) \<circ> fst) (filter (\<lambda>(m, x). x = c) (turns s))"
    by (rule leader_delivery [OF assms(2-5)]) blast
  have waiting: "set (undelivered_messages ?q) = {m. status_of ?q m = Undelivered}"
    using mq.pending_status [OF assms(3)] by (simp add: get_all_undelivered_messages_def)
  show ?thesis
  proof (rule that [OF _ r(2-6)])
    show "s' = s\<lparr>node := (node s)\<lparr>queue := q\<rparr>, clients := cm\<rparr>" using assms(1) r(1) by simp
    show "status_of q m = status_of ?q m" if "status_of ?q m \<noteq> Undelivered" for m
    proof -
      have "m \<notin> fst ` set (turns s)" using that waiting by simp
      then show ?thesis by (simp add: r(7) map_of_eq_None_iff [THEN iffD2])
    qed
    show "\<exists>c \<in> set (consumers (partition_id (node s)) (clients s)). status_of q m = Delivered c \<and> outgoing (node s) m \<in> set (inbox cm c)"
      if "status_of ?q m = Undelivered" for m
    proof -
      have "m \<in> fst ` set (turns s)" using that waiting by simp
      then obtain c where c: "map_of (turns s) m = Some c" by (metis map_of_eq_None_iff not_None_eq)
      then have "(m, c) \<in> set (turns s)" by (rule map_of_SomeD)
      with turns_consumer [OF assms(4) this] c show ?thesis by (intro bexI [of _ c]) (auto simp: r(7,8) image_iff intro!: bexI [of _ "(m, c)"])
    qed
    show "set (inbox (clients s) c) \<subseteq> set (inbox cm c)" for c by (simp add: r(8))
  qed
qed

section \<open>A leader without consumers of its own\<close>

lemma deliver_messages_nobody:
  assumes "queue_inv (queue (node s))" and "distinct ids" and "set ids \<subseteq> set (undelivered_messages (queue (node s)))"
    and "map_find (consumer_client_id_array (clients s)) (partition_id (node s)) = None"
    and "\<forall>m \<in> set ids. deliverable (env_wire env) (node s) m"
  shows "deliver_messages env ids s =
    Inr (s\<lparr>node := (node s)\<lparr>queue := fold deliver_to (zip ids (replicate (length ids) 1)) (queue (node s))\<rparr>\<rparr>)"
  using assms
proof (induction ids arbitrary: s)
  case (Cons m ids)
  let ?n = "node s" and ?q = "queue (node s)"
  have m: "m \<in> set (undelivered_messages ?q)" using Cons.prems by simp
  let ?s = "s\<lparr>node := ?n\<lparr>queue := deliver_to (m, 1) ?q\<rparr>\<rparr>"
  have "deliver_messages env (m # ids) s = deliver_messages env ids ?s"
    using deliver_messages_round [OF Cons.prems(1) m _ deliver_unknown_partition [OF Cons.prems(4)]] Cons.prems(5) by simp
  also have "\<dots> = Inr (?s\<lparr>node := (node ?s)\<lparr>queue := fold deliver_to (zip ids (replicate (length ids) 1)) (queue (node ?s))\<rparr>\<rparr>)"
    using deliver_to_pending [OF Cons.prems(1) m, of 1] Cons.prems by (intro Cons.IH) auto
  finally show ?case by simp
qed simp

lemma map_of_zip_const: "map_of (zip xs (replicate (length xs) v)) m = (if m \<in> set xs then Some v else None)"
  by (induction xs) auto

text \<open>
  When clients have opened other partitions only, a leader marks all its waiting messages as delivered to client 1 and writes them to nobody, so a consumer
  that opens the partition later does not get them.
\<close>

lemma messages_swallowed_without_consumer:
  assumes "state (node s) = LEADER" and "queue_inv (queue (node s))" and "has_consumers (clients s)"
    and "map_find (consumer_client_id_array (clients s)) (partition_id (node s)) = None"
    and "\<forall>m \<in> set (undelivered_messages (queue (node s))). deliverable (env_wire env) (node s) m"
  shows "\<exists>s'. trigger_message_delivery env s = Inr s' \<and> clients s' = clients s \<and> get_all_undelivered_messages [] (queue (node s')) = [] \<and>
    (\<forall>m. status_of (queue (node s)) m = Undelivered \<longrightarrow> status_of (queue (node s')) m = Delivered 1)"
proof -
  let ?q = "queue (node s)"
  let ?ids = "undelivered_messages ?q"
  let ?ones = "replicate (length ?ids) 1"
  have waiting: "set ?ids = {m. status_of ?q m = Undelivered}"
    using mq.pending_status [OF assms(2)] by (simp add: get_all_undelivered_messages_def)
  let ?q' = "fold deliver_to (zip ?ids ?ones) ?q"
  from mq.deliver_all_status [OF assms(2) queue_inv_distinct [OF assms(2)] equalityD1 [OF waiting], of ?ones]
  have inv: "queue_inv ?q'" and status: "status_of ?q' m = (case map_of (zip ?ids ?ones) m of Some c \<Rightarrow> Delivered c | None \<Rightarrow> status_of ?q m)" for m
    by (simp_all add: deliver_to_def)
  note one = map_of_zip_const [of ?ids "1 :: client_id_type"]
  have gone: "status_of ?q' m \<noteq> Undelivered" for m by (simp add: status one waiting)
  then have none: "get_all_undelivered_messages [] ?q' = []"
    using mq.pending_status [OF inv] by (metis (mono_tags, lifting) Collect_empty_eq set_empty)
  have "trigger_message_delivery env s = Inr (s\<lparr>node := (node s)\<lparr>queue := ?q'\<rparr>\<rparr>)"
    using deliver_messages_nobody [OF assms(2) queue_inv_distinct [OF assms(2)] order_refl assms(4,5)] assms(1,3)
    by (simp add: trigger_message_delivery_def get_all_undelivered_messages_def)
  with none status one waiting show ?thesis by auto
qed

end
