(* ===== verification/Cluster_Node_Types.thy ===== *)
theory Cluster_Node_Types
  imports Cluster_Node_Delivery
begin

text \<open>
  The types of a node: the integers are in the range of their C++ types, the log is not empty, and the messages in the log and in the queue leave room for the frame around them. A handler of a
  node in such a state, on a message that respects the conditions below, returns without an assertion or an access out of bounds, and leaves the node in such a state; everything
  the node has sent fits in a frame.
\<close>

definition entry_typed :: "wire \<Rightarrow> LogEntry \<Rightarrow> bool" where
  "entry_typed w e \<longleftrightarrow> LogEntry_fits w e \<and> LogEntry_ByteSizeLong w e + 150 \<le> MAX_BODY_LENGTH"

definition queue_typed :: "message_queue \<Rightarrow> bool" where
  "queue_typed q \<longleftrightarrow> queue_inv q \<and>
     (\<forall>m msg. map_find (message_store q) m = Some msg \<longrightarrow> in_int64 m \<and> length msg + 150 \<le> MAX_BODY_LENGTH)"

definition node_typed :: "wire \<Rightarrow> cluster_node \<Rightarrow> bool" where
  "node_typed w n \<longleftrightarrow>
     in_int64 (partition_id n) \<and> ints32 [node_id n, cur_term n, commit_index n] \<and> 0 \<le> commit_index n \<and>
     log_entries n \<noteq> [] \<and> length (log_entries n) < 2 ^ 31 \<and> list_all (entry_typed w) (log_entries n) \<and> queue_typed (queue n)"

definition world_typed :: "wire \<Rightarrow> world \<Rightarrow> bool" where
  "world_typed w s \<longleftrightarrow> node_typed w (node s) \<and> manager_ok (clients s) \<and> list_all (\<lambda>(d, m). fits_frame w m) (sent s)"

definition returns_typed :: "wire \<Rightarrow> cpp_error + world \<Rightarrow> bool" where
  "returns_typed w r \<longleftrightarrow> (\<exists>s. r = Inr s \<and> world_typed w s)"

lemma returns_typed_Inr [simp]: "returns_typed w (Inr s) = world_typed w s" "\<not> returns_typed w (Inl e)"
  by (simp_all add: returns_typed_def)

lemma returns_typed_andThen:
  "returns_typed w r \<Longrightarrow> (\<And>s. r = Inr s \<Longrightarrow> world_typed w s \<Longrightarrow> returns_typed w (f s)) \<Longrightarrow> returns_typed w (andThen r f)"
  by (auto simp: returns_typed_def)

lemma returns_typed_forEach:
  "(\<And>x s. x \<in> set xs \<Longrightarrow> world_typed w s \<Longrightarrow> returns_typed w (f x s)) \<Longrightarrow> world_typed w s \<Longrightarrow> returns_typed w (forEach f xs s)"
proof (induction xs arbitrary: s)
  case (Cons x xs)
  have "returns_typed w (andThen (f x s) (forEach f xs))"
    by (rule returns_typed_andThen) (use Cons in auto)
  then show ?case by simp
qed simp

lemma returns_typed_if:
  "(b \<Longrightarrow> returns_typed w r) \<Longrightarrow> (\<not> b \<Longrightarrow> returns_typed w r') \<Longrightarrow> returns_typed w (if b then r else r')"
  by simp

lemma world_typed_update:
  "world_typed w s \<Longrightarrow> (node_typed w (node s) \<Longrightarrow> node_typed w (f (node s))) \<Longrightarrow> world_typed w (update_node f s)"
  by (simp add: world_typed_def)

section \<open>Messages with client data\<close>

lemma opt_get_all: "opt_all P x \<Longrightarrow> P d \<Longrightarrow> P (opt_get d x)"
  by (cases x) (simp_all add: opt_all_def)

lemma zero_in_range [simp]: "in_int64 0" "in_int64 1"
  by (simp_all add: in_int64_def)

lemma entry_ints:
  assumes "LogEntry_fits w e"
  shows "in_int32 (le_index e)" "in_int32 (le_term e)" "in_int64 (le_message_id e)"
  using assms by (auto simp: LogEntry_fits_def message_getter_defs intro: opt_get_all)

context wire_format
begin

lemma entry_message_length: "length (le_message e) \<le> LogEntry_ByteSizeLong w e"
  using length_sizes(1) [of "length (le_message e)"]
  by (cases "le_message_fld e")
    (auto simp: LogEntry_ByteSizeLong_def LogEntry_RequiredFieldsByteSizeFallback_def message_getter_defs)

lemma entry_typed_message: "entry_typed w e \<Longrightarrow> length (le_message e) + 150 \<le> MAX_BODY_LENGTH"
  using entry_message_length [of e] by (simp add: entry_typed_def)

lemma new_entry_typed:
  assumes "in_int32 i" and "in_int32 t" and "in_int64 m" and "operation = LogEntry_ADD \<or> operation = LogEntry_COMMIT"
    and "length message + 200 \<le> MAX_BODY_LENGTH"
  shows "entry_typed w (log_entry i t m operation message)"
proof -
  have "LogEntry_ByteSizeLong w (log_entry i t m operation message) \<le> length message + 50"
    using small_length [of "length message"] varint_sizes(1) [of i] varint_sizes(1) [of t] varint_sizes(2) [of m] varint_sizes(1) [of operation] assms(5)
    by (simp add: log_entry_def LogEntry_ByteSizeLong_def message_getter_defs LogEntry_new_def)
  with assms show ?thesis
    by (auto simp: entry_typed_def fits_defs log_entry_def LogEntry_new_def MAX_BODY_LENGTH_def LogEntry_ADD_def LogEntry_COMMIT_def in_int32_def)
qed

lemma append_request_fits:
  assumes "in_int64 p" and "ints32 [t, l, pi, pt, lc]" and "entry_typed w e"
  shows "fits_frame w (set_partition_id p (append_request t l pi pt [e] lc))"
proof -
  let ?m = "append_request t l pi pt [e] lc"
  have small: "LogEntry_ByteSizeLong w e + 150 \<le> MAX_BODY_LENGTH" using assms(3) by (simp add: entry_typed_def)
  have sub: "AppendEntriesRequest_ByteSizeLong w (get_append_request ?m) \<le> LogEntry_ByteSizeLong w e + 61"
    using small_length [of "LogEntry_ByteSizeLong w e"] small varint_sizes(1) [of t] varint_sizes(1) [of l] varint_sizes(1) [of pi]
      varint_sizes(1) [of pt] varint_sizes(1) [of lc]
    by (simp add: append_request_def load_defs get_defs AppendEntriesRequest_ByteSizeLong_def message_getter_defs message_new_defs size_all_def)
  have "FlowMessage_ByteSizeLong w (set_partition_id p ?m) \<le> MAX_BODY_LENGTH"
    using small_length [OF order_trans [OF sub]] sub small varint_sizes(2) [of p] varint_sizes(3) [of APPEND_ENTRIES_REQUEST]
    by (simp add: FlowMessage_ByteSizeLong_def append_request_def load_defs get_defs FlowMessage_new_def)
  moreover have "FlowMessage_fits w (set_partition_id p ?m)"
    using assms sub small
    by (simp add: fits_defs append_request_def load_defs get_defs message_new_defs MessageType_IsValid_def message_types MAX_BODY_LENGTH_def
        ints32_def entry_typed_def)
  ultimately show ?thesis by (simp add: fits_frame_def)
qed

lemma server_send_fits:
  assumes "in_int64 p" and "in_int64 m" and "length msg + 100 \<le> MAX_BODY_LENGTH"
  shows "fits_frame w (set_partition_id p (server_send m msg))"
proof -
  have "FlowMessage_fits w (set_partition_id p (server_send m msg))"
    using assms server_send_size(1) [OF assms(3), of m]
    by (simp add: fits_defs message_builder_defs get_defs message_new_defs MessageType_IsValid_def message_types MAX_BODY_LENGTH_def)
  with server_send_size(2) [OF assms(3)] show ?thesis by (simp add: fits_frame_def)
qed

lemma open_queue_response_fits:
  assumes "in_int64 p" and "st = Status_SUCCESS \<or> st = Status_ERROR" and "length err \<le> 100"
    and "case address of None \<Rightarrow> True | Some (ip, port) \<Rightarrow> length ip + length port + 300 \<le> MAX_BODY_LENGTH"
  shows "fits_frame w (set_partition_id p (open_queue_response st err address))"
proof -
  let ?m = "open_queue_response st err address"
  obtain k where k: "k + 300 \<le> MAX_BODY_LENGTH" "case address of None \<Rightarrow> True | Some (ip, port) \<Rightarrow> length ip + length port \<le> k"
    using assms(4) by (cases address) (auto simp: MAX_BODY_LENGTH_def)
  have sub: "ClientOpenQueueResponse_ByteSizeLong w (get_open_queue_response ?m) \<le> k + 130"
    using small_length [of "length err"] small_length [of "length (fst (the address))"] small_length [of "length (snd (the address))"]
      varint_sizes(3) [of st] assms(3) k
    by (cases address) (auto simp: open_queue_response_def load_defs get_defs byte_size_defs message_getter_defs message_new_defs MAX_BODY_LENGTH_def)
  have "FlowMessage_ByteSizeLong w (set_partition_id p ?m) \<le> MAX_BODY_LENGTH"
    using small_length [OF order_trans [OF sub]] sub k(1) varint_sizes(2) [of p] varint_sizes(3) [of CLIENT_OPEN_QUEUE_RESPONSE]
    by (simp add: FlowMessage_ByteSizeLong_def open_queue_response_def load_defs get_defs FlowMessage_new_def)
  moreover have "FlowMessage_fits w (set_partition_id p ?m)"
    using assms sub k
    by (auto simp: fits_defs open_queue_response_def load_defs get_defs message_new_defs MessageType_IsValid_def message_types MAX_BODY_LENGTH_def
        Status_IsValid_def Status_SUCCESS_def Status_ERROR_def split: option.splits)
  ultimately show ?thesis by (simp add: fits_frame_def)
qed

lemma control_frames:
  "in_int64 p \<Longrightarrow> ints32 [t, c, i, lt] \<Longrightarrow> fits_frame w (set_partition_id p (vote_request t c i lt))"
  "in_int64 p \<Longrightarrow> ints32 [t, g] \<Longrightarrow> fits_frame w (set_partition_id p (vote_response t g))"
  "in_int64 p \<Longrightarrow> ints32 [t, f, ok, i] \<Longrightarrow> fits_frame w (set_partition_id p (append_response t f ok i))"
  "in_int64 p \<Longrightarrow> ints32 [t, l, pi, pt, lc] \<Longrightarrow> fits_frame w (set_partition_id p (append_request t l pi pt [] lc))"
  unfolding fits_frame_def
  using control_fits order_trans [OF wrapper_size(1), of MAX_BODY_LENGTH] order_trans [OF wrapper_size(2), of MAX_BODY_LENGTH]
    order_trans [OF wrapper_size(3), of MAX_BODY_LENGTH] order_trans [OF wrapper_size(4), of MAX_BODY_LENGTH]
  by (simp_all add: MAX_BODY_LENGTH_def)

lemma serialize_typed:
  assumes "fits_frame w (set_partition_id (partition_id n) m)"
  shows "\<exists>buf. serialize_raft_message w n m = Inr (set_partition_id (partition_id n) m, buf)"
  using fits_frame_decodes [OF assms] by (auto simp: serialize_raft_message_def serialize_as_message_def Let_def)

lemma post_typed:
  assumes "env_wire env = w" and "world_typed w s" and "fits_frame w (set_partition_id (partition_id (node s)) m)"
  shows "returns_typed w (post_message env d m s)"
  using serialize_typed [OF assms(3)] assms by (auto simp: post_message_def world_typed_def)

end

section \<open>Delivery and commits\<close>

lemma deliver_total:
  assumes "manager_ok cm"
  shows "\<exists>c cm'. deliver_one_message_round_robin p m cm = Inr (c, cm') \<and> manager_ok cm'"
proof (cases "consumers p cm = []")
  case True
  then have "deliver_one_message_round_robin p m cm = Inr (1, cm) \<or> deliver_one_message_round_robin p m cm = Inr (- 1, cm)"
    by (cases "map_find (consumer_client_id_array cm) p")
      (simp_all add: deliver_one_message_round_robin_def map_count_def map_index_def consumers_def)
  with assms show ?thesis by blast
next
  case False
  with assms have "active p cm" by (simp add: active_def)
  from deliver_active [OF this, of m] show ?thesis by (auto simp: active_def)
qed

lemma queue_typed_store:
  "queue_inv q' \<Longrightarrow> message_store q' = message_store q \<Longrightarrow> queue_typed q \<Longrightarrow> queue_typed q'"
  by (simp add: queue_typed_def)

lemma undelivered_typed:
  assumes "queue_typed q" and "m \<in> set (undelivered_messages q)"
  shows "\<exists>msg. map_find (message_store q) m = Some msg \<and> in_int64 m \<and> length msg + 150 \<le> MAX_BODY_LENGTH"
  using assms by (fastforce simp: queue_typed_def queue_inv_def)

context wire_format
begin

lemma deliver_messages_typed:
  assumes "env_wire env = w" and "world_typed w s" and "distinct ids" and "set ids \<subseteq> set (undelivered_messages (queue (node s)))"
  shows "returns_typed w (deliver_messages env ids s)"
  using assms(2-)
proof (induction ids arbitrary: s)
  case (Cons m ids)
  let ?n = "node s" and ?q = "queue (node s)"
  from Cons.prems have typed: "node_typed w ?n" "queue_typed ?q" "queue_inv ?q" and cm: "manager_ok (clients s)" and m: "m \<in> set (undelivered_messages ?q)"
    by (auto simp: world_typed_def node_typed_def queue_typed_def)
  from undelivered_typed [OF typed(2) m] obtain msg where
    msg: "map_find (message_store ?q) m = Some msg" "in_int64 m" "length msg + 150 \<le> MAX_BODY_LENGTH" by blast
  have get: "get_message m ?q = (msg, ?q)" using get_message_stored [OF typed(3) m] msg(1) by simp
  have "fits_frame w (set_partition_id (partition_id ?n) (server_send m msg))"
    by (rule server_send_fits) (use typed(1) msg in \<open>simp_all add: node_typed_def\<close>)
  from serialize_typed [OF this] obtain buf where
    ser: "serialize_raft_message w ?n (server_send m msg) = Inr (set_partition_id (partition_id ?n) (server_send m msg), buf)" by blast
  from deliver_total [OF cm] obtain c cm' where
    del: "deliver_one_message_round_robin (partition_id ?n) (set_partition_id (partition_id ?n) (server_send m msg)) (clients s) = Inr (c, cm')"
      "manager_ok cm'" by blast
  let ?s = "s\<lparr>clients := cm', node := ?n\<lparr>queue := deliver_to (m, c) ?q\<rparr>\<rparr>"
  have "s\<lparr>node := ?n\<rparr> = s" "?n\<lparr>queue := ?q\<rparr> = ?n" by simp_all
  then have step: "deliver_messages env (m # ids) s = (if c = - 1 then Inr (s\<lparr>clients := cm'\<rparr>) else deliver_messages env ids ?s)"
    using get ser del(1) assms(1) by (simp add: update_node_def deliver_to_def Let_def)
  from deliver_to_pending [OF typed(3) m, of c] have q: "queue_inv (deliver_to (m, c) ?q)"
    "set (undelivered_messages (deliver_to (m, c) ?q)) = set (undelivered_messages ?q) - {m}" by auto
  have "queue_typed (deliver_to (m, c) ?q)"
    by (rule queue_typed_store [OF q(1) _ typed(2)]) simp
  then have "world_typed w ?s" using Cons.prems(1) del(2) by (simp add: world_typed_def node_typed_def)
  with Cons.IH [of ?s] Cons.prems q have "returns_typed w (deliver_messages env ids ?s)" by auto
  moreover have "world_typed w (s\<lparr>clients := cm'\<rparr>)" using Cons.prems(1) del(2) by (simp add: world_typed_def)
  ultimately show ?case unfolding step by simp
qed simp

lemma trigger_message_delivery_typed:
  assumes "env_wire env = w" and "world_typed w s"
  shows "returns_typed w (trigger_message_delivery env s)"
proof -
  have "distinct (undelivered_messages (queue (node s)))"
    using assms(2) queue_inv_distinct by (auto simp: world_typed_def node_typed_def queue_typed_def)
  from deliver_messages_typed [OF assms this order_refl] assms(2) show ?thesis
    by (simp add: trigger_message_delivery_def get_all_undelivered_messages_def)
qed

lemma apply_entry_typed:
  assumes "entry_typed w e" and "queue_typed q"
  shows "queue_typed (apply_entry e q)"
proof -
  have q: "queue_inv q" using assms(2) by (simp add: queue_typed_def)
  have "queue_typed (snd (insert_message (le_message_id e) (le_message e) q))"
    using insert_message_inv [OF q, of "le_message_id e" "le_message e"] assms entry_typed_message [OF assms(1)] entry_ints [of w e]
    by (auto simp: queue_typed_def insert_message_def entry_typed_def split: if_splits)
  moreover have "queue_typed (snd (commit_message (le_message_id e) q))"
    by (rule queue_typed_store [OF commit_message_inv [OF q] _ assms(2)])
      (simp add: commit_message_def forget_consumer_fields Let_def)
  ultimately show ?thesis using assms(2) by (simp add: apply_entry_def)
qed

lemma commit_log_entry_typed: "node_typed w n \<Longrightarrow> node_typed w (commit_log_entry i n)"
  using apply_entry_typed [of "log_entries n ! nat i" "queue n"]
  by (auto simp: commit_log_entry_def node_typed_def list_all_length nat_less_iff)

lemma commit_all_typed: "node_typed w n \<Longrightarrow> node_typed w (fold commit_log_entry is n)"
  by (induction "is" arbitrary: n) (simp_all add: commit_log_entry_typed)

lemma commit_log_entries_typed:
  "env_wire env = w \<Longrightarrow> world_typed w s \<Longrightarrow> returns_typed w (commit_log_entries env i j s)"
  unfolding commit_log_entries_def by (intro trigger_message_delivery_typed world_typed_update commit_all_typed)

end

lemma store_entries_typed:
  "world_typed w s \<Longrightarrow> 0 \<le> i \<Longrightarrow> i < j \<Longrightarrow> j \<le> int (length (log_entries (node s))) \<Longrightarrow> returns_typed w (store_entries i j s)"
  by (simp add: store_entries_def store_log_entries_and_metadata_def world_typed_def node_typed_def)

section \<open>Replication\<close>

lemma node_typed_fields [simp]:
  "node_typed w (n\<lparr>state := x1\<rparr>) = node_typed w n" "node_typed w (n\<lparr>cur_leader := x2\<rparr>) = node_typed w n"
  "node_typed w (n\<lparr>last_heart_beat_received := x3\<rparr>) = node_typed w n" "node_typed w (n\<lparr>votes_collected := x4\<rparr>) = node_typed w n"
  "node_typed w (n\<lparr>voted_for := x5\<rparr>) = node_typed w n" "node_typed w (n\<lparr>next_index := x6\<rparr>) = node_typed w n"
  "node_typed w (n\<lparr>matched_index := x7\<rparr>) = node_typed w n" "node_typed w (n\<lparr>pending_append_reqs := x8\<rparr>) = node_typed w n"
  "node_typed w (n\<lparr>node_storage := x9\<rparr>) = node_typed w n"
  by (simp_all add: node_typed_def)

lemma node_typed_cur_term: "node_typed w n \<Longrightarrow> in_int32 t \<Longrightarrow> node_typed w (n\<lparr>cur_term := t\<rparr>)"
  by (simp add: node_typed_def ints32_def)

lemma node_typed_commit_index: "node_typed w n \<Longrightarrow> in_int32 i \<Longrightarrow> 0 \<le> i \<Longrightarrow> node_typed w (n\<lparr>commit_index := i\<rparr>)"
  by (simp add: node_typed_def ints32_def)

lemma log_position_in_range:
  "node_typed w n \<Longrightarrow> 0 \<le> i \<Longrightarrow> i \<le> int (length (log_entries n)) \<Longrightarrow> in_int32 i"
  by (simp add: node_typed_def in_int32_def)

lemma last_entry_typed: "node_typed w n \<Longrightarrow> entry_typed w (last (log_entries n))"
  by (simp add: node_typed_def list_all_iff)

context wire_format
begin

lemma trigger_entry_update_typed:
  assumes "env_wire env = w" and "world_typed w s"
  shows "returns_typed w (trigger_entry_update env follower_id s)"
proof -
  obtain i ni where i: "map_index 0 follower_id (next_index (node s)) = (i, ni)" by fastforce
  obtain k pm where k: "map_index 0 follower_id (pending_append_reqs (node s)) = (k, pm)" by fastforce
  let ?n = "node s" let ?log = "log_entries ?n"
  let ?s = "update_node (\<lambda>n. n\<lparr>next_index := ni\<rparr>) s"
  let ?t = "update_node (\<lambda>n. n\<lparr>pending_append_reqs := pm\<rparr>) ?s"
  have n: "node_typed w ?n" and s: "world_typed w ?s" "world_typed w ?t" using assms(2) by (simp_all add: world_typed_def)
  show ?thesis
  proof (cases "1 \<le> i \<and> i \<le> int (length ?log) - 1")
    case False
    with i s show ?thesis by (auto simp: trigger_entry_update_def Let_def)
  next
    case True
    then have e: "entry_typed w (?log ! nat (i - 1))" "entry_typed w (?log ! nat i)"
      using n True by (auto simp: node_typed_def list_all_length nat_less_iff)
    let ?m = "append_request (cur_term ?n) (node_id ?n) (i - 1) (le_term (?log ! nat (i - 1))) [?log ! nat i] (commit_index ?n)"
    have "fits_frame w (set_partition_id (partition_id ?n) ?m)"
      by (rule append_request_fits)
        (use n e entry_ints [of w "?log ! nat (i - 1)"] True log_position_in_range [OF n, of "i - 1"] in \<open>simp_all add: node_typed_def entry_typed_def\<close>)
    then have "returns_typed w (post_message env (ToNode follower_id) ?m ?t)"
      by (intro post_typed [OF assms(1) s(2)]) simp
    then have "returns_typed w (andThen (post_message env (ToNode follower_id) ?m ?t) (\<lambda>s.
        Inr (update_node (\<lambda>n. n\<lparr>pending_append_reqs := map_set follower_id (k + 1) (pending_append_reqs n)\<rparr>) s)))"
      by (rule returns_typed_andThen) (simp add: world_typed_def)
    with True i k s show ?thesis by (simp add: trigger_entry_update_def Let_def log_at_in)
  qed
qed

lemma add_log_entry_typed:
  assumes "env_wire env = w" and "world_typed w s" and "entry_typed w e" and "length (log_entries (node s)) + 1 < 2 ^ 31"
  shows "returns_typed w (add_log_entry env e s)"
  unfolding add_log_entry_def Let_def
  by (rule returns_typed_forEach)
    (use assms in \<open>simp_all add: trigger_entry_update_typed world_typed_def node_typed_def\<close>)

end

section \<open>Handlers\<close>

definition env_typed :: "node_env \<Rightarrow> bool" where
  "env_typed env \<longleftrightarrow> in_int64 (random_id env) \<and>
     (\<forall>i. length (fst (get_address_for_node (server_config env) i)) + length (snd (get_address_for_node (server_config env) i)) + 300 \<le> MAX_BODY_LENGTH)"

text \<open>
  What a node may receive: fields in the range of their types; in a request of a leader a position in the log and entries that leave room for the frame; in a successful answer of a
  follower a position within the log; from a client a message that leaves room for the frames that will carry it. The log does not reach its largest length.
\<close>

definition message_typed :: "wire \<Rightarrow> cluster_node \<Rightarrow> raft_message \<Rightarrow> bool" where
  "message_typed w n m \<longleftrightarrow> FlowMessage_fits w m \<and>
     (msg_type m = APPEND_ENTRIES_REQUEST \<longrightarrow>
        0 \<le> aeq_prev_log_index (get_append_request m) \<and> list_all (entry_typed w) (aeq_entries (get_append_request m)) \<and>
        aeq_prev_log_index (get_append_request m) + 1 + int (length (aeq_entries (get_append_request m))) < 2 ^ 31) \<and>
     (msg_type m = APPEND_ENTRIES_RESPONSE \<longrightarrow> aes_append_result_success (get_append_response m) \<noteq> 0 \<longrightarrow>
        aes_last_index_synced (get_append_response m) < int (length (log_entries n))) \<and>
     (msg_type m = CLIENT_PUT_MESSAGE \<longrightarrow> length (cpm_message (get_put_message_request m)) + 200 \<le> MAX_BODY_LENGTH) \<and>
     (msg_type m = CLIENT_PUT_MESSAGE \<or> msg_type m = CLIENT_COMMIT_MESSAGE \<longrightarrow> length (log_entries n) + 1 < 2 ^ 31)"

fun event_typed :: "wire \<Rightarrow> node_event \<Rightarrow> world \<Rightarrow> bool" where
  "event_typed w (Receive m) s = message_typed w (node s) m"
| "event_typed w VoteTimer s = (cur_term (node s) + 1 < 2 ^ 31)"
| "event_typed w (ClientsChanged cm) s = manager_ok cm"
| "event_typed w _ s = True"

text \<open>The integers of the parts of a message.\<close>

lemma part_ints:
  "AppendEntriesRequest_fits w a \<Longrightarrow> in_int32 (aeq_term a) \<and> in_int32 (aeq_leader_commit a)"
  "AppendEntriesResponse_fits w b \<Longrightarrow> in_int32 (aes_term b) \<and> in_int32 (aes_last_index_synced b)"
  "RequestVoteRequest_fits w c \<Longrightarrow> in_int32 (rvq_term c)" "RequestVoteResponse_fits w d \<Longrightarrow> in_int32 (rvs_term d)"
  "ClientCommitMessage_fits w e \<Longrightarrow> in_int64 (ccm_message_id e)"
  by (simp_all add: AppendEntriesRequest_fits_def AppendEntriesResponse_fits_def RequestVoteRequest_fits_def RequestVoteResponse_fits_def
      ClientCommitMessage_fits_def message_getter_defs opt_get_all)

lemma default_parts:
  "AppendEntriesRequest_fits w AppendEntriesRequest_new" "AppendEntriesResponse_fits w AppendEntriesResponse_new"
  "RequestVoteRequest_fits w RequestVoteRequest_new" "RequestVoteResponse_fits w RequestVoteResponse_new" "ClientCommitMessage_fits w ClientCommitMessage_new"
  by (simp_all add: fits_defs message_new_defs)

lemma parts_fit:
  assumes "FlowMessage_fits w m"
  shows "AppendEntriesRequest_fits w (get_append_request m)" "AppendEntriesResponse_fits w (get_append_response m)"
    "RequestVoteRequest_fits w (get_vote_request m)" "RequestVoteResponse_fits w (get_vote_response m)"
    "ClientCommitMessage_fits w (get_commit_message_request m)"
proof -
  from assms have "opt_all (AppendEntriesRequest_fits w) (fm_append_entries_request_fld m)" "opt_all (AppendEntriesResponse_fits w) (fm_append_entries_response_fld m)"
    "opt_all (RequestVoteRequest_fits w) (fm_request_vote_request_fld m)" "opt_all (RequestVoteResponse_fits w) (fm_request_vote_response_fld m)"
    "opt_all (ClientCommitMessage_fits w) (fm_client_commit_message_fld m)"
    unfolding FlowMessage_fits_def opt_all_def by (elim conjE; simp split: option.split_asm)+
  then show "AppendEntriesRequest_fits w (get_append_request m)" "AppendEntriesResponse_fits w (get_append_response m)"
    "RequestVoteRequest_fits w (get_vote_request m)" "RequestVoteResponse_fits w (get_vote_response m)"
    "ClientCommitMessage_fits w (get_commit_message_request m)"
    unfolding get_defs fm_append_entries_request_def fm_append_entries_response_def fm_request_vote_request_def fm_request_vote_response_def
      fm_client_commit_message_def
    by (simp_all add: opt_get_all default_parts)
qed

lemmas fits_ints = part_ints(1) [OF parts_fit(1)] part_ints(2) [OF parts_fit(2)] part_ints(3) [OF parts_fit(3)] part_ints(4) [OF parts_fit(4)]
  part_ints(5) [OF parts_fit(5)]

lemma raft_append_typed: "list_all P old \<Longrightarrow> list_all P es \<Longrightarrow> list_all P (raft_append old es)"
  by (induction old es rule: raft_append.induct) simp_all

lemma list_all_take: "list_all P xs \<Longrightarrow> list_all P (take k xs)"
  by (auto simp: list_all_iff dest: in_set_takeD)

lemma list_all_drop: "list_all P xs \<Longrightarrow> list_all P (drop k xs)"
  by (auto simp: list_all_iff dest: in_set_dropD)

lemma check_sync_total: "0 \<le> i \<Longrightarrow> \<exists>b. check_if_previous_log_in_sync t i log = Inr b"
  by (cases "int (length log) \<le> i") (auto simp: check_if_previous_log_in_sync_def log_at_in)

lemma raft_append_length: "length (raft_append old es) \<le> max (length old) (length es)"
  by (induction old es rule: raft_append.induct) auto

lemma follow_leader_typed:
  "world_typed w s \<Longrightarrow> in_int32 (aeq_term req) \<Longrightarrow> world_typed w (follow_leader env req s)"
  by (auto simp: follow_leader_def world_typed_def node_typed_def ints32_def)

lemma delivered_log: "delivered s s' \<Longrightarrow> log_entries (node s') = log_entries (node s) \<and> commit_index (node s') = commit_index (node s)"
  by (auto simp: delivered_def)

context wire_format
begin

text \<open>The commit of the entries up to \<open>i\<close>, as a follower and a leader do it.\<close>

lemma commit_and_store_typed:
  assumes "env_wire env = w" and "world_typed w s" and "0 \<le> i" and "i < int (length (log_entries (node s)))"
    and "\<And>n. commit_index n = commit_index (node s) \<Longrightarrow> f n = n\<lparr>commit_index := i\<rparr>"
  shows "returns_typed w (andThen (commit_log_entries env a b s) (\<lambda>s.
    let s = update_node f s in store_entries (commit_index (node s)) (i + 1) s))"
proof (rule returns_typed_andThen [OF commit_log_entries_typed [OF assms(1,2)]])
  fix t assume "commit_log_entries env a b s = Inr t" and t: "world_typed w t"
  then have log: "log_entries (node t) = log_entries (node s)" "commit_index (node t) = commit_index (node s)"
    using delivered_log [OF commit_log_entries_frame] by blast+
  have f: "f (node t) = (node t)\<lparr>commit_index := i\<rparr>" by (rule assms(5)) (rule log)
  have "in_int32 i" using assms(2-4) log_position_in_range [of w "node s" i] by (simp add: world_typed_def)
  then have "world_typed w (update_node f t)"
    using t assms(3) by (intro world_typed_update) (simp_all add: f node_typed_commit_index)
  then show "returns_typed w (let s = update_node f t in store_entries (commit_index (node s)) (i + 1) s)"
    unfolding Let_def using assms(3,4) log by (intro store_entries_typed) (simp_all add: f)
qed

lemma commit_from_leader_typed:
  assumes "env_wire env = w" and "world_typed w s"
  shows "returns_typed w (commit_from_leader env req s)"
proof -
  have "0 \<le> commit_index (node s)" using assms(2) by (simp add: world_typed_def node_typed_def)
  with commit_and_store_typed [OF assms, of "aeq_leader_commit req" "\<lambda>n. n\<lparr>commit_index := aeq_leader_commit req\<rparr>"] assms(2)
  show ?thesis by (simp add: commit_from_leader_def)
qed

lemma append_from_leader_typed:
  assumes "env_wire env = w" and "world_typed w s" and "0 \<le> aeq_prev_log_index req" and "aeq_prev_log_index req < int (length (log_entries (node s)))"
    and "list_all (entry_typed w) (aeq_entries req)" and "aeq_prev_log_index req + 1 + int (length (aeq_entries req)) < 2 ^ 31"
  shows "returns_typed w (append_from_leader env req s)"
proof -
  let ?k = "nat (aeq_prev_log_index req) + 1" and ?log = "log_entries (node s)"
  define new where "new = take ?k ?log @ raft_append (drop ?k ?log) (aeq_entries req)"
  have app: "append_log_entries (aeq_prev_log_index req) (aeq_entries req) ?log = Inr new"
    unfolding new_def using assms(3,4) by (rule append_log_entries_eq)
  have n: "node_typed w (node s)" using assms(2) by (simp add: world_typed_def)
  have "list_all (entry_typed w) new"
    using n assms(5) by (simp add: new_def node_typed_def list_all_take list_all_drop raft_append_typed)
  moreover have "length new < 2 ^ 31"
    using raft_append_length [of "drop ?k ?log" "aeq_entries req"] n assms(3,4,6) by (auto simp: new_def node_typed_def)
  moreover have ne: "new \<noteq> []" using assms(3,4) by (auto simp: new_def)
  ultimately have t: "world_typed w (update_node (\<lambda>n. n\<lparr>log_entries := new\<rparr>) s)"
    using assms(2) by (simp add: world_typed_def node_typed_def)
  then have "entry_typed w (last new)"
    using last_entry_typed [of w "node (update_node (\<lambda>n. n\<lparr>log_entries := new\<rparr>) s)"] by (simp add: world_typed_def)
  then have "fits_frame w (set_partition_id (partition_id (node s)) (append_response (cur_term (node s)) (node_id (node s)) 1 (le_index (last new))))"
    using n entry_ints(1) [of w "last new"] by (intro control_frames) (auto simp: node_typed_def entry_typed_def)
  then have "returns_typed w (post_message env d (append_response (cur_term (node s)) (node_id (node s)) 1 (le_index (last new)))
      (update_node (\<lambda>n. n\<lparr>log_entries := new\<rparr>) s))" for d
    by (intro post_typed [OF assms(1) t]) simp
  with app ne show ?thesis by (simp add: append_from_leader_def log_back_def Let_def)
qed

lemma append_entries_rejected_typed:
  assumes "env_wire env = w" and "world_typed w s"
  shows "returns_typed w (append_entries_rejected env leader_id s)"
  unfolding append_entries_rejected_def
  by (rule post_typed [OF assms], rule control_frames)
    (use assms(2) in \<open>simp_all add: world_typed_def node_typed_def in_int32_def\<close>)

lemma append_request_typed:
  assumes "env_wire env = w" and "world_typed w s" and "in_int32 (aeq_term req)" and "0 \<le> aeq_prev_log_index req"
    and "list_all (entry_typed w) (aeq_entries req)" and "aeq_prev_log_index req + 1 + int (length (aeq_entries req)) < 2 ^ 31"
  shows "returns_typed w (handle_append_entries_request env req s)"
proof (cases "aeq_term req < cur_term (node s)")
  case True
  have "world_typed w (update_node (\<lambda>n. n\<lparr>cur_leader := - 1\<rparr>) s)" using assms(2) by (simp add: world_typed_def)
  with True show ?thesis by (simp add: handle_append_entries_request_def append_entries_rejected_typed [OF assms(1)])
next
  case False
  let ?s = "follow_leader env req s"
  have s: "world_typed w ?s" using assms(2,3) by (rule follow_leader_typed)
  obtain sync where sync: "check_if_previous_log_in_sync (aeq_prev_log_term req) (aeq_prev_log_index req) (log_entries (node ?s)) = Inr sync"
    using check_sync_total [OF assms(4)] by blast
  show ?thesis
  proof (cases sync)
    case True
    with sync have prev: "aeq_prev_log_index req < int (length (log_entries (node ?s)))" by (simp add: check_sync_True)
    have "returns_typed w (andThen (commit_from_leader env req ?s) (append_from_leader env req))"
    proof (rule returns_typed_andThen [OF commit_from_leader_typed [OF assms(1) s]])
      fix t assume t: "commit_from_leader env req ?s = Inr t" "world_typed w t"
      then have "log_entries (node t) = log_entries (node ?s)" using commit_from_leader_frame [OF t(1)] by (auto simp: committed_def)
      with prev assms t(2) show "returns_typed w (append_from_leader env req t)" by (intro append_from_leader_typed) simp_all
    qed
    with True sync False show ?thesis by (simp add: handle_append_entries_request_def)
  next
    case no_sync: False
    with sync False append_entries_rejected_typed [OF assms(1) s] show ?thesis by (simp add: handle_append_entries_request_def)
  qed
qed

lemma commit_from_majority_typed:
  assumes "env_wire env = w" and "world_typed w s" and "i < int (length (log_entries (node s)))"
  shows "returns_typed w (commit_from_majority env i s)"
proof -
  have "0 \<le> commit_index (node s)" using assms(2) by (simp add: world_typed_def node_typed_def)
  with commit_and_store_typed [OF assms(1,2), of i "\<lambda>n. n\<lparr>commit_index := max (commit_index n) i\<rparr>"] assms(2,3)
  show ?thesis by (simp add: commit_from_majority_def)
qed

lemma append_response_typed:
  assumes "env_wire env = w" and "world_typed w s" and "in_int32 (aes_term resp)"
    and "aes_append_result_success resp \<noteq> 0 \<longrightarrow> aes_last_index_synced resp < int (length (log_entries (node s)))"
  shows "returns_typed w (handle_append_entries_response env resp s)"
proof -
  let ?f = "aes_follower_id resp" and ?i = "aes_last_index_synced resp"
  let ?s = "request_answered ?f s"
  have s: "world_typed w ?s" and log: "log_entries (node ?s) = log_entries (node s)"
    using assms(2) by (simp_all add: request_answered_def world_typed_def case_prod_beta Let_def)
  have "returns_typed w (append_succeeded env ?f ?i ?s)" if "aes_append_result_success resp \<noteq> 0"
    unfolding append_succeeded_def
    by (rule returns_typed_andThen [OF commit_from_majority_typed [OF assms(1)]])
      (use s log assms(4) that in \<open>simp_all add: world_typed_def case_prod_beta Let_def\<close>)
  moreover have "world_typed w (append_failed resp ?f ?s)"
    using s assms(3) by (simp add: append_failed_def world_typed_def node_typed_cur_term case_prod_beta Let_def)
  ultimately have "returns_typed w (if aes_append_result_success resp \<noteq> 0 then append_succeeded env ?f ?i ?s else Inr (append_failed resp ?f ?s))"
    by simp
  from returns_typed_andThen [OF this trigger_entry_update_typed [OF assms(1)]] show ?thesis
    by (simp add: handle_append_entries_response_def Let_def)
qed

lemma vote_request_typed:
  assumes "env_wire env = w" and "world_typed w s" and "in_int32 (rvq_term req)"
  shows "returns_typed w (handle_request_vote_request env req s)"
proof -
  have answer: "returns_typed w (post_message env d (vote_response (rvq_term req) g) t)" if "world_typed w t" "in_int32 g" for d g t
    by (rule post_typed [OF assms(1) that(1)], rule control_frames) (use that assms(3) in \<open>simp_all add: world_typed_def node_typed_def\<close>)
  let ?s = "if rvq_term req > cur_term (node s) then update_node (\<lambda>n. n\<lparr>cur_term := rvq_term req, votes_collected := 0\<rparr>) s else s"
  have s: "world_typed w ?s"
    using assms(2,3) by (simp add: world_typed_def node_typed_cur_term)
  then have "world_typed w (update_node (\<lambda>n. n\<lparr>voted_for := rvq_candidate_id req\<rparr>) ?s)" by (simp add: world_typed_def del: if_split)
  from answer [OF this, of 1] answer [OF assms(2), of 0] s show ?thesis
    by (simp add: handle_request_vote_request_def Let_def del: if_split)
qed

lemma vote_response_typed:
  "world_typed w s \<Longrightarrow> in_int32 (rvs_term resp) \<Longrightarrow> world_typed w (handle_request_vote_response resp s)"
  by (simp add: handle_request_vote_response_def world_typed_def node_typed_cur_term Let_def)

lemma client_put_typed:
  assumes "env_wire env = w" and "env_typed env" and "world_typed w s" and "length (cpm_message req) + 200 \<le> MAX_BODY_LENGTH"
    and "length (log_entries (node s)) + 1 < 2 ^ 31"
  shows "returns_typed w (handle_client_put_message env req s)"
proof -
  have n: "node_typed w (node s)" using assms(3) by (simp add: world_typed_def)
  have "in_int32 (int (length (log_entries (node s))))" by (rule log_position_in_range [OF n]) simp_all
  moreover have "in_int32 (cur_term (node s))" "in_int64 (random_id env)" using n assms(2) by (simp_all add: node_typed_def env_typed_def)
  ultimately have "entry_typed w (log_entry (int (length (log_entries (node s)))) (cur_term (node s)) (random_id env) LogEntry_ADD (cpm_message req))"
    using assms(4) by (intro new_entry_typed) simp_all
  from add_log_entry_typed [OF assms(1,3) this assms(5)] assms(3) show ?thesis by (simp add: handle_client_put_message_def)
qed

lemma client_commit_typed:
  assumes "env_wire env = w" and "world_typed w s" and "in_int64 (ccm_message_id req)" and "length (log_entries (node s)) + 1 < 2 ^ 31"
  shows "returns_typed w (handle_client_commit_message env req s)"
proof -
  have n: "node_typed w (node s)" using assms(2) by (simp add: world_typed_def)
  have "in_int32 (int (length (log_entries (node s))))" by (rule log_position_in_range [OF n]) simp_all
  moreover have "in_int32 (cur_term (node s))" using n by (simp add: node_typed_def)
  ultimately have "entry_typed w (log_entry (int (length (log_entries (node s)))) (cur_term (node s)) (ccm_message_id req) LogEntry_COMMIT [])"
    using assms(3) by (intro new_entry_typed) (simp_all add: MAX_BODY_LENGTH_def)
  from add_log_entry_typed [OF assms(1,2) this assms(4)] assms(2) show ?thesis by (simp add: handle_client_commit_message_def)
qed

lemma reply_to_client_typed:
  assumes "env_wire env = w" and "world_typed w s" and "fits_frame w (set_partition_id (partition_id (node s)) m)"
  shows "returns_typed w (reply_to_client env m s)"
proof -
  from serialize_typed [OF assms(3)] obtain buf where
    "serialize_raft_message w (node s) m = Inr (set_partition_id (partition_id (node s)) m, buf)" by blast
  moreover from assms(2) have "manager_ok (clients s)" by (simp add: world_typed_def)
  from deliver_total [OF this] obtain c cm where
    "deliver_one_message_round_robin (partition_id (node s)) (set_partition_id (partition_id (node s)) m) (clients s) = Inr (c, cm)" "manager_ok cm"
    by blast
  ultimately show ?thesis using assms(1,2) by (simp add: reply_to_client_def world_typed_def)
qed

lemma client_open_typed:
  assumes "env_wire env = w" and "env_typed env" and "world_typed w s"
  shows "returns_typed w (handle_client_open_queue env s)"
proof -
  have p: "in_int64 (partition_id (node s))" using assms(3) by (simp add: world_typed_def node_typed_def)
  have "returns_typed w (reply_to_client env (open_queue_response Status_ERROR ''Node is not leader.''
      (Some (get_address_for_node (server_config env) (cur_leader (node s))))) s)"
    using assms(2) by (intro reply_to_client_typed [OF assms(1,3)] open_queue_response_fits [OF p]) (simp_all add: env_typed_def case_prod_beta)
  moreover have "returns_typed w (andThen (reply_to_client env (open_queue_response Status_SUCCESS [] None) s) (trigger_message_delivery env))"
    by (intro returns_typed_andThen reply_to_client_typed [OF assms(1,3)] open_queue_response_fits [OF p] trigger_message_delivery_typed [OF assms(1)])
      simp_all
  ultimately show ?thesis by (simp add: handle_client_open_queue_def)
qed

lemma local_message_typed:
  assumes "env_wire env = w" and "env_typed env" and "world_typed w s" and "message_typed w (node s) m"
  shows "returns_typed w (local_message_handler env m s)"
proof -
  from assms(4) have fits: "FlowMessage_fits w m" by (simp add: message_typed_def)
  note ints = fits_ints [OF fits]
  show ?thesis
    unfolding local_message_handler_def
    by (intro returns_typed_if append_request_typed append_response_typed vote_request_typed client_put_typed client_commit_typed client_open_typed assms(1-3))
      (use assms(3,4) ints vote_response_typed in \<open>simp_all add: message_typed_def\<close>)
qed

lemma heartbeat_typed:
  assumes "env_wire env = w" and "world_typed w s"
  shows "returns_typed w (send_heartbeat env s)"
proof (cases "state (node s) = LEADER")
  case True
  let ?e = "last (log_entries (node s))"
  let ?m = "append_request (cur_term (node s)) (node_id (node s)) (le_index ?e) (le_term ?e) [] (commit_index (node s))"
  have n: "node_typed w (node s)" using assms(2) by (simp add: world_typed_def)
  from last_entry_typed [OF n] have "fits_frame w (set_partition_id (partition_id (node s)) ?m)"
    using n entry_ints [of w ?e] by (intro control_frames) (auto simp: node_typed_def entry_typed_def)
  from post_typed [OF assms this] have "returns_typed w (andThen (post_message env ToAll ?m s) (\<lambda>s.
      Inr (update_node (\<lambda>n. n\<lparr>pending_append_reqs := fold request_sent (other_nodes n) (pending_append_reqs n)\<rparr>) s)))"
    by (rule returns_typed_andThen) (simp add: world_typed_def)
  with True n show ?thesis by (simp add: send_heartbeat_def log_back_def node_typed_def)
qed (use assms in \<open>simp add: send_heartbeat_def\<close>)

lemma vote_delay_typed:
  assumes "env_wire env = w" and "world_typed w s"
  shows "returns_typed w (vote_delay_expired env s)"
proof -
  have "returns_typed w (send_vote_request env t)" if t: "world_typed w t" for t
  proof -
    let ?e = "last (log_entries (node t))" and ?t = "update_node (\<lambda>n. n\<lparr>voted_for := node_id n, votes_collected := votes_collected n + 1\<rparr>) t"
    let ?m = "vote_request (cur_term (node t)) (node_id (node t)) (le_index ?e) (le_term ?e)"
    have n: "node_typed w (node t)" using t by (simp add: world_typed_def)
    have "world_typed w ?t" using t by (simp add: world_typed_def)
    moreover from last_entry_typed [OF n] have "fits_frame w (set_partition_id (partition_id (node t)) ?m)"
      using n entry_ints [of w ?e] by (intro control_frames) (auto simp: node_typed_def entry_typed_def)
    ultimately have "returns_typed w (post_message env ToAll ?m ?t)" by (intro post_typed [OF assms(1)]) simp_all
    with t n show ?thesis by (simp add: send_vote_request_def log_back_def node_typed_def Let_def)
  qed
  moreover have "world_typed w (s\<lparr>vote_timers := vote_timers s - 1\<rparr>)" using assms(2) by (simp add: world_typed_def)
  ultimately show ?thesis using assms(2) by (simp add: vote_delay_expired_def)
qed

lemma consumer_disconnected_typed:
  assumes "env_wire env = w" and "world_typed w s"
  shows "returns_typed w (consumer_disconnected env c s)"
proof -
  let ?q = "queue (node s)"
  have q: "queue_typed ?q" "queue_inv ?q" using assms(2) by (simp_all add: world_typed_def node_typed_def queue_typed_def)
  have "queue_typed (snd (handle_client_disconnected c ?q))"
    by (rule queue_typed_store [OF handle_client_disconnected_inv [OF q(2)] _ q(1)])
      (simp add: handle_client_disconnected_def put_back_all_fields split: option.split)
  then have "world_typed w (update_node (\<lambda>n. n\<lparr>queue := snd (handle_client_disconnected c (queue n))\<rparr>) s)"
    using assms(2) by (simp add: world_typed_def node_typed_def)
  then show ?thesis unfolding consumer_disconnected_def by (rule trigger_message_delivery_typed [OF assms(1)])
qed

lemma check_heartbeat_typed:
  assumes "world_typed w s" and "cur_term (node s) + 1 < 2 ^ 31"
  shows "world_typed w (check_heartbeat env s)"
proof -
  have "in_int32 (cur_term (node s) + 1)" using assms by (simp add: world_typed_def node_typed_def in_int32_def)
  with assms(1) show ?thesis
    by (simp add: check_heartbeat_def world_typed_def node_typed_cur_term Let_def)
qed

lemma node_step_typed:
  assumes "env_wire env = w" and "env_typed env" and "world_typed w s" and "event_typed w ev s"
  shows "returns_typed w (node_step env ev s)"
proof (cases ev)
  case (Receive m)
  with assms show ?thesis by (simp add: local_message_typed)
next
  case VoteTimer
  with assms show ?thesis by (simp add: check_heartbeat_typed)
next
  case (ClientsChanged cm)
  with assms show ?thesis by (simp add: world_typed_def)
qed (use assms in \<open>simp_all add: heartbeat_typed vote_delay_typed consumer_disconnected_typed\<close>)

end

section \<open>Type soundness\<close>

lemma sentinel_typed:
  assumes "wire_format w"
  shows "entry_typed w sentinel"
proof -
  have "LogEntry_ByteSizeLong w sentinel \<le> 40"
    using wire_format.small_length [OF assms, of 0] wire_format.varint_sizes(1) [OF assms, of 0]
    by (simp add: LogEntry_ByteSizeLong_def LogEntry_RequiredFieldsByteSizeFallback_def sentinel_def LogEntry_new_def)
  then show ?thesis by (simp add: entry_typed_def fits_defs sentinel_def LogEntry_new_def MAX_BODY_LENGTH_def)
qed

text \<open>A new node without a log is in such a state.\<close>

lemma initial_node_typed:
  assumes "wire_format w" and "in_int64 (cfg_partition_id cfg)" and "in_int32 (cfg_node_id cfg)"
  shows "node_typed w (initial_node cfg st heart_beat votes)"
  using assms sentinel_typed [OF assms(1)] queue_inv_empty
  by (simp add: node_typed_def initial_node_def queue_typed_def Let_def) (simp add: empty_queue_def map_find_def)


text \<open>The sample leader receives a message of a client.\<close>

definition leader_world :: world where
  "leader_world = start_world ((sample_node 0)\<lparr>state := LEADER\<rparr>)"

definition put_hello :: raft_message where
  "put_hello = loadClientPutMessageRequest (ClientPutMessage_new\<lparr>cpm_message_fld := Some ''hello''\<rparr>) RaftMessage_new"

lemma sample_env_typed: "env_typed sample_env"
  by (auto simp: env_typed_def get_address_for_node_def sample_config_def MAX_BODY_LENGTH_def in_int64_def)

lemma leader_world_typed: "world_typed varint_wire leader_world"
proof -
  have "node_typed varint_wire (sample_node 0)"
    unfolding sample_node_def by (rule initial_node_typed [OF varint.wire_format_axioms]) simp_all
  then show ?thesis by (simp add: world_typed_def leader_world_def manager_ok_new)
qed

lemma put_hello_typed: "event_typed varint_wire (Receive put_hello) leader_world"
  using varint.small_length [of "length ''hello''"]
  by (simp add: message_typed_def put_hello_def load_defs get_defs fits_defs message_types MessageType_IsValid_def message_new_defs byte_size_defs
      message_getter_defs leader_world_def MAX_BODY_LENGTH_def RaftMessage_new_def)


end
