(* ===== verification/Cluster_Progress.thy ===== *)
theory Cluster_Progress
  imports Cluster_Logs Cluster_Node_Types
begin

text \<open>
  Progress of replication: a leader and a follower whose messages arrive bring the log of the follower up to that of the leader, whatever the follower has missed and whatever it holds of deposed
  leaders. Each answer moves the position that the leader tries next, back by one when it is refused and to the end of the follower's log when it succeeds, and a measure shows that this ends.
\<close>

section \<open>Two logs\<close>

text \<open>A follower that is behind the leader: the logs match, begin with the same entry, and the follower's is not longer.\<close>

definition behind :: "LogEntry list \<Rightarrow> LogEntry list \<Rightarrow> bool" where
  "behind F L \<longleftrightarrow> indexed F \<and> indexed L \<and> logs_match F L \<and> hd F = hd L \<and> length F \<le> length L"

definition common :: "LogEntry list \<Rightarrow> LogEntry list \<Rightarrow> nat" where
  "common F L = length (longest_common_prefix F L)"

lemma take_common: "take (common F L) F = take (common F L) L" "common F L \<le> length F" "common F L \<le> length L"
proof -
  have p: "prefix (longest_common_prefix F L) F" "prefix (longest_common_prefix F L) L"
    by (rule longest_common_prefix_prefix1, rule longest_common_prefix_prefix2)
  then show "common F L \<le> length F" "common F L \<le> length L" unfolding common_def by (simp_all add: prefix_length_le)
  from p show "take (common F L) F = take (common F L) L" unfolding common_def by (metis prefix_def append_eq_conv_conj)
qed

lemma nth_common: "k < common F L \<Longrightarrow> F ! k = L ! k"
  by (metis nth_take take_common(1))

lemma common_greatest:
  assumes "take k F = take k L" and "k \<le> length F"
  shows "k \<le> common F L"
proof -
  have "prefix (take k F) F" "prefix (take k F) L" by (simp add: take_is_prefix, simp add: assms(1) take_is_prefix)
  from prefix_length_le [OF longest_common_prefix_max_prefix [OF this]] assms(2) show ?thesis by (simp add: common_def)
qed

lemma behind_nonempty:
  assumes "behind F L"
  shows "1 \<le> common F L"
proof -
  from assms have "F \<noteq> []" "L \<noteq> []" "hd F = hd L" by (auto simp: behind_def indexed_def)
  then have "take 1 F = take 1 L" "1 \<le> length F" by (auto simp: neq_Nil_conv)
  then show ?thesis by (rule common_greatest)
qed

lemma behind_same: "behind F L \<Longrightarrow> common F L = length L \<Longrightarrow> F = L"
  using take_common(1) [of F L] take_common(2) [of F L] by (auto simp: behind_def)

text \<open>The terms of an entry agree exactly where the logs do.\<close>

lemma same_term_iff:
  assumes "behind F L" and "k < length F" and "k < length L"
  shows "le_term (F ! k) = le_term (L ! k) \<longleftrightarrow> k < common F L"
proof
  assume "le_term (F ! k) = le_term (L ! k)"
  with assms have "take (Suc k) F = take (Suc k) L" by (simp add: behind_def logs_match_def)
  from common_greatest [OF this] assms(2) show "k < common F L" by simp
qed (simp add: nth_common)

lemma in_sync_iff:
  assumes "behind F L" and "k < length L"
  shows "check_if_previous_log_in_sync (le_term (L ! k)) (int k) F = Inr (k < common F L)"
proof (cases "k < length F")
  case True
  with same_term_iff [OF assms(1) True assms(2)] show ?thesis by (simp add: check_if_previous_log_in_sync_def log_at_in)
next
  case False
  with take_common(2) [of F L] show ?thesis by (simp add: check_if_previous_log_in_sync_def)
qed

lemma append_next:
  assumes "behind F L" and "1 \<le> k" and "k \<le> common F L" and "k < length L"
  shows "append_log_entries (int k - 1) [L ! k] F = Inr (if k < common F L then F else take (Suc k) L)"
proof -
  have k: "k \<le> length F" using assms(3) take_common(2) [of F L] by simp
  have "nat (int k - 1) + 1 = k" using assms(2) by simp
  with append_log_entries_eq [of "int k - 1" F "[L ! k]"] k assms(2)
  have eq: "append_log_entries (int k - 1) [L ! k] F = Inr (take k F @ raft_append (drop k F) [L ! k])" by simp
  show ?thesis
  proof (cases "k < common F L")
    case True
    then have "drop k F = L ! k # drop (Suc k) F" using Cons_nth_drop_Suc [of k F] nth_common [OF True] take_common(2) [of F L] by simp
    then have "raft_append (drop k F) [L ! k] = drop k F" by simp
    with eq True show ?thesis by simp
  next
    case False
    with assms(3) have c: "k = common F L" by simp
    have "raft_append (drop k F) [L ! k] = [L ! k]"
    proof (cases "k < length F")
      case True
      with same_term_iff [OF assms(1) True assms(4)] False show ?thesis by (simp add: Cons_nth_drop_Suc [symmetric])
    qed simp
    moreover have "take k F = take k L" unfolding c by (rule take_common(1))
    ultimately show ?thesis using eq False assms(4) by (simp add: take_Suc_conv_app_nth)
  qed
qed

lemma behind_take:
  assumes "behind F L" and "k < length L"
  shows "behind (take (Suc k) L) L" and "common (take (Suc k) L) L = Suc k"
proof -
  have "L \<noteq> []" using assms(2) by auto
  then show "behind (take (Suc k) L) L"
    using assms by (auto simp: behind_def indexed_def logs_match_def)
  have "prefix (take (Suc k) L) L" by (rule take_is_prefix)
  then have "Suc k \<le> common (take (Suc k) L) L" using assms(2) by (intro common_greatest) (simp_all add: prefix_def)
  with take_common(2) [of "take (Suc k) L" L] assms(2) show "common (take (Suc k) L) L = Suc k" by simp
qed

text \<open>What is left to do when entry \<open>k\<close> is tried next.\<close>

definition effort :: "LogEntry list \<Rightarrow> LogEntry list \<Rightarrow> nat \<Rightarrow> nat" where
  "effort F L k = (length L - common F L) * (length L + 2) + (if k < common F L then length L + 1 else k - common F L)"

lemma effort_refused: "common F L < k \<Longrightarrow> effort F L (k - 1) < effort F L k"
  unfolding effort_def by (rule add_strict_left_mono) auto

lemma effort_skip: "k < common F L \<Longrightarrow> length F \<le> length L \<Longrightarrow> effort F L (length F) < effort F L k"
  using take_common(2) [of F L] by (simp add: effort_def)

lemma effort_append:
  assumes "behind F L" and "k = common F L" and "k < length L"
  shows "effort (take (Suc k) L) L (Suc k) < effort F L k"
proof -
  have "effort (take (Suc k) L) L (Suc k) = (length L - Suc k) * (length L + 2)"
    using behind_take(2) [OF assms(1,3)] by (simp add: effort_def)
  moreover have "effort F L k = (length L - k) * (length L + 2)" using assms(2) by (simp add: effort_def)
  moreover have "length L - Suc k < length L - k" using assms(3) by simp
  ultimately show ?thesis by (metis add_gr_0 mult_less_mono1 zero_less_numeral)
qed

section \<open>The two handlers\<close>

text \<open>The next entry for a follower, and the requests it has not answered.\<close>

definition next_of :: "int \<Rightarrow> cluster_node \<Rightarrow> int" where
  "next_of f n = opt_get 0 (map_find (next_index n) f)"

definition pending_of :: "int \<Rightarrow> cluster_node \<Rightarrow> int" where
  "pending_of f n = opt_get 0 (map_find (pending_append_reqs n) f)"

text \<open>The request with entry \<open>i\<close> of the log.\<close>

definition request_for :: "cluster_node \<Rightarrow> int \<Rightarrow> raft_message" where
  "request_for n i = set_partition_id (partition_id n) (append_request (cur_term n) (node_id n) (i - 1) (le_term (log_entries n ! nat (i - 1)))
     [log_entries n ! nat i] (commit_index n))"

lemma trigger_entry_update_result:
  assumes "trigger_entry_update env f s = Inr s'"
  shows "next_of f (node s') = next_of f (node s) \<and>
    (if 1 \<le> next_of f (node s) \<and> next_of f (node s) < int (length (log_entries (node s))) \<and> pending_of f (node s) < 2
     then sent s' = sent s @ [(ToNode f, request_for (node s) (next_of f (node s)))] \<and> pending_of f (node s') = pending_of f (node s) + 1
     else sent s' = sent s \<and> pending_of f (node s') = pending_of f (node s))"
  using assms
  by (auto simp: trigger_entry_update_def next_of_def pending_of_def request_for_def case_prod_beta Let_def map_find_index MAX_PENDING_APPEND_def
      split: if_splits dest!: post_message_Inr)

lemma follower_answers:
  assumes "wire_format w" and "env_wire env = w" and typed: "world_typed w s" and "in_int32 (aeq_term req)" and trm: "cur_term (node s) \<le> aeq_term req"
    and prev: "aeq_prev_log_index req = int k" "aeq_prev_log_term req = le_term (L ! k)" "k < length L" and log: "behind (log_entries (node s)) L"
    and "list_all (entry_typed w) (aeq_entries req)" and "int k + 1 + int (length (aeq_entries req)) < 2 ^ 31"
  obtains s' where "handle_append_entries_request env req s = Inr s'" "world_typed w s'" "node_id (node s') = node_id (node s)" "cur_term (node s') = aeq_term req"
    "if k < common (log_entries (node s)) L
     then append_log_entries (int k) (aeq_entries req) (log_entries (node s)) = Inr (log_entries (node s')) \<and>
       sent s' = sent s @ [(ToNode (aeq_leader_id req), set_partition_id (partition_id (node s))
         (append_response (aeq_term req) (node_id (node s)) 1 (le_index (last (log_entries (node s'))))))]
     else log_entries (node s') = log_entries (node s) \<and>
       sent s' = sent s @ [(ToNode (aeq_leader_id req), set_partition_id (partition_id (node s)) (append_response (aeq_term req) (node_id (node s)) 0 (- 1)))]"
proof -
  have "returns_typed w (handle_append_entries_request env req s)"
    by (rule wire_format.append_request_typed) (use assms in simp_all)
  then obtain s' where s': "handle_append_entries_request env req s = Inr s'" "world_typed w s'" by (auto simp: returns_typed_def)
  let ?s = "follow_leader env req s"
  have same: "log_entries (node ?s) = log_entries (node s)" "cur_term (node ?s) = aeq_term req" "node_id (node ?s) = node_id (node s)"
    "partition_id (node ?s) = partition_id (node s)" "sent ?s = sent s" by (simp_all add: follow_leader_def)
  have step: "(if \<not> k < common (log_entries (node s)) L then append_entries_rejected env (aeq_leader_id req) ?s
      else andThen (commit_from_leader env req ?s) (append_from_leader env req)) = Inr s'"
    using s'(1) trm in_sync_iff [OF log prev(3)] by (simp add: handle_append_entries_request_def Let_def same prev)
  show ?thesis
  proof (cases "k < common (log_entries (node s)) L")
    case False
    with step have "append_entries_rejected env (aeq_leader_id req) ?s = Inr s'" by simp
    then show ?thesis
      using s' False same by (intro that [of s']) (auto simp: append_entries_rejected_def dest!: post_message_Inr)
  next
    case True
    with step obtain t where "commit_from_leader env req ?s = Inr t" and ap: "append_from_leader env req t = Inr s'" by auto
    from commit_from_leader_frame [OF this(1)] have "log_entries (node t) = log_entries (node s)" "cur_term (node t) = aeq_term req"
      "node_id (node t) = node_id (node s)" "partition_id (node t) = partition_id (node s)" "sent t = sent s" by (auto simp: committed_def same)
    with append_from_leader_Inr [OF ap] s' True prev show ?thesis by (intro that [of s']) auto
  qed
qed

lemma count_synced_one:
  assumes "map_find m f = Some i"
  shows "0 < count_synced_nodes i (n\<lparr>matched_index := m\<rparr>)"
  using map_of_SomeD [OF assms [unfolded map_find_def]] by (auto simp: count_synced_nodes_def filter_empty_conv)

text \<open>What a leader does with an answer before it sends the next request.\<close>

lemma answer_recorded:
  assumes "append_succeeded env f i s = Inr s'" and "i < int (length (log_entries (node s)))" and "0 \<le> commit_index (node s)"
  shows "sent s' = sent s \<and> (\<exists>q st c mi ni. node s' = (node s)\<lparr>queue := q, node_storage := st, commit_index := c, matched_index := mi, next_index := ni\<rparr> \<and>
    map_find ni f = Some (i + 1) \<and> commit_index (node s) \<le> c \<and> (total_nodes (node s) \<le> 3 \<longrightarrow> i \<le> c) \<and> (c = commit_index (node s) \<or> c = i))"
proof -
  let ?s = "update_node (\<lambda>n. n\<lparr>matched_index := map_set f i (matched_index n)\<rparr>) s"
  from assms(1) obtain u where u: "commit_from_majority env i ?s = Inr u"
    and s': "s' = update_node (\<lambda>n. n\<lparr>matched_index := snd (map_index 0 f (matched_index (node u))),
      next_index := map_set f (fst (map_index 0 f (matched_index (node u))) + 1) (next_index n)\<rparr>) u"
    by (auto simp: append_succeeded_def case_prod_beta Let_def)
  from commit_from_majority_frame [OF u] obtain q cm st c where
    un: "u = ?s\<lparr>node := (node ?s)\<lparr>queue := q, node_storage := st, commit_index := c\<rparr>, clients := cm\<rparr>" and c: "commit_index (node s) \<le> c"
    by (auto simp: committed_def)
  have m: "map_find (matched_index (node u)) f = Some i" by (simp add: un)
  have "(total_nodes (node s) \<le> 3 \<longrightarrow> i \<le> c) \<and> (c = commit_index (node s) \<or> c = i)"
  proof (cases "commit_index (node s) < i \<and> int (count_synced_nodes i (node ?s)) + 1 > total_nodes (node ?s) div 2")
    case True
    with u have "commit_index (node u) = max (commit_index (node s)) i"
      by (auto simp: commit_from_majority_def Let_def delivered_def dest!: commit_log_entries_frame store_entries_frame)
    with True un show ?thesis by auto
  next
    case False
    have "0 < count_synced_nodes i (node ?s)" by (simp add: count_synced_one [of _ f])
    with False have "total_nodes (node s) \<le> 3 \<longrightarrow> i \<le> commit_index (node s)" by auto
    moreover from False u have "commit_index (node u) = commit_index (node s)" by (auto simp: commit_from_majority_def)
    ultimately show ?thesis using un by simp
  qed
  moreover have "node s' = (node s)\<lparr>queue := q, node_storage := st, commit_index := c, matched_index := snd (map_index 0 f (matched_index (node u))),
      next_index := map_set f (i + 1) (next_index (node s))\<rparr>" using m by (simp add: s') (simp add: un)
  moreover have "map_find (map_set f (i + 1) (next_index (node s))) f = Some (i + 1)" "sent s' = sent s" by (simp_all add: s' un)
  ultimately show ?thesis using c by blast
qed

text \<open>What the leader has recorded of an answer before it sends the next entry.\<close>

lemma answer_noted:
  assumes t: "(if aes_append_result_success resp \<noteq> 0 then append_succeeded env f (aes_last_index_synced resp) (request_answered f s)
      else Inr (append_failed resp f (request_answered f s))) = Inr t"
    and ok: "aes_append_result_success resp \<noteq> 0 \<Longrightarrow> aes_last_index_synced resp < int (length (log_entries (node s)))"
    and refused: "aes_append_result_success resp = 0 \<Longrightarrow> aes_term resp \<le> cur_term (node s)" and commit: "0 \<le> commit_index (node s)"
  defines "k \<equiv> if aes_append_result_success resp \<noteq> 0 then aes_last_index_synced resp + 1 else max 1 (next_of f (node s) - 1)"
  defines "p \<equiv> max 0 (pending_of f (node s) - 1)"
  shows "\<exists>q st c mi ni pm. sent t = sent s \<and> node t = (node s)\<lparr>queue := q, node_storage := st, commit_index := c, matched_index := mi, next_index := ni, pending_append_reqs := pm\<rparr> \<and>
    map_find ni f = Some k \<and> map_find pm f = Some p \<and> (commit_index (node s) < int (length (log_entries (node s))) \<longrightarrow> c < int (length (log_entries (node s)))) \<and>
    (aes_append_result_success resp \<noteq> 0 \<longrightarrow> total_nodes (node s) \<le> 3 \<longrightarrow> aes_last_index_synced resp \<le> c)"
proof -
  let ?s = "request_answered f s"
  have "node ?s = (node s)\<lparr>pending_append_reqs := map_set f p (snd (map_index 0 f (pending_append_reqs (node s))))\<rparr>" and a: "sent ?s = sent s"
    by (simp_all add: request_answered_def case_prod_beta Let_def p_def pending_of_def)
  then obtain pm where pm: "node ?s = (node s)\<lparr>pending_append_reqs := pm\<rparr>" "map_find pm f = Some p" by simp
  show ?thesis
  proof (cases "aes_append_result_success resp \<noteq> 0")
    case True
    from True t have "append_succeeded env f (aes_last_index_synced resp) ?s = Inr t" by simp
    moreover have "aes_last_index_synced resp < int (length (log_entries (node ?s)))" "0 \<le> commit_index (node ?s)" using ok [OF True] commit pm(1) by simp_all
    ultimately obtain q st c mi ni where
      r: "sent t = sent ?s" "node t = (node ?s)\<lparr>queue := q, node_storage := st, commit_index := c, matched_index := mi, next_index := ni\<rparr>"
        "map_find ni f = Some (aes_last_index_synced resp + 1)" "total_nodes (node ?s) \<le> 3 \<longrightarrow> aes_last_index_synced resp \<le> c"
        "c = commit_index (node ?s) \<or> c = aes_last_index_synced resp"
      using answer_recorded [of env f "aes_last_index_synced resp" ?s t] by blast
    have "node t = (node s)\<lparr>queue := q, node_storage := st, commit_index := c, matched_index := mi, next_index := ni, pending_append_reqs := pm\<rparr>"
      using r(2) pm(1) by simp
    moreover have "map_find ni f = Some k" using r(3) True by (simp add: k_def)
    moreover have "commit_index (node s) < int (length (log_entries (node s))) \<longrightarrow> c < int (length (log_entries (node s)))" "total_nodes (node s) \<le> 3 \<longrightarrow> aes_last_index_synced resp \<le> c"
      using r(4,5) ok [OF True] pm(1) by auto
    moreover have "sent t = sent s" using r(1) a by simp
    ultimately show ?thesis using pm(2) by blast
  next
    case False
    from pm False t refused have t': "t = update_node (\<lambda>n. n\<lparr>next_index := map_set f k (snd (map_index 0 f (next_index (node s))))\<rparr>) ?s"
      by (auto simp: append_failed_def case_prod_beta Let_def k_def next_of_def)
    let ?ni = "map_set f k (snd (map_index 0 f (next_index (node s))))"
    have "node t = (node s)\<lparr>queue := queue (node s), node_storage := node_storage (node s), commit_index := commit_index (node s),
        matched_index := matched_index (node s), next_index := ?ni, pending_append_reqs := pm\<rparr>" by (simp add: t' pm(1))
    moreover have "map_find ?ni f = Some k" by simp
    moreover have "sent t = sent s" by (simp add: t' a)
    ultimately show ?thesis using pm(2) False by blast
  qed
qed

lemma leader_learns:
  assumes "wire_format w" and "env_wire env = w" and typed: "world_typed w s" and "in_int32 (aes_term resp)"
    and ok: "aes_append_result_success resp \<noteq> 0 \<Longrightarrow> aes_last_index_synced resp < int (length (log_entries (node s)))"
    and refused: "aes_append_result_success resp = 0 \<Longrightarrow> aes_term resp \<le> cur_term (node s)"
  defines "f \<equiv> aes_follower_id resp"
  defines "k \<equiv> if aes_append_result_success resp \<noteq> 0 then aes_last_index_synced resp + 1 else max 1 (next_of f (node s) - 1)"
  defines "p \<equiv> max 0 (pending_of f (node s) - 1)"
  obtains s' c where "handle_append_entries_response env resp s = Inr s'" "world_typed w s'" "node_id (node s') = node_id (node s)" "state (node s') = state (node s)"
    "cur_term (node s') = cur_term (node s)" "total_nodes (node s') = total_nodes (node s)" "log_entries (node s') = log_entries (node s)" "commit_index (node s') = c"
    "next_of f (node s') = k"
    "commit_index (node s) < int (length (log_entries (node s))) \<Longrightarrow> c < int (length (log_entries (node s)))"
    "aes_append_result_success resp \<noteq> 0 \<Longrightarrow> total_nodes (node s) \<le> 3 \<Longrightarrow> aes_last_index_synced resp \<le> c"
    "if 1 \<le> k \<and> k < int (length (log_entries (node s))) \<and> p < 2
     then sent s' = sent s @ [(ToNode f, request_for (node s') k)] \<and> pending_of f (node s') = p + 1
     else sent s' = sent s \<and> pending_of f (node s') = p"
proof -
  have "returns_typed w (handle_append_entries_response env resp s)"
    by (rule wire_format.append_response_typed) (use assms in simp_all)
  then obtain s' where s': "handle_append_entries_response env resp s = Inr s'" "world_typed w s'" by (auto simp: returns_typed_def)
  let ?s = "request_answered f s"
  from s'(1) obtain t where
    t: "(if aes_append_result_success resp \<noteq> 0 then append_succeeded env f (aes_last_index_synced resp) ?s else Inr (append_failed resp f ?s)) = Inr t"
    and upd: "trigger_entry_update env f t = Inr s'"
    by (auto simp: handle_append_entries_response_def Let_def simp flip: f_def)
  have commit: "0 \<le> commit_index (node s)" using typed by (simp add: world_typed_def node_typed_def)
  note noted = answer_noted [of resp env f s t, folded k_def p_def, OF t ok refused commit]
  from noted obtain q st c mi ni pm where n: "sent t = sent s" "node t = (node s)\<lparr>queue := q, node_storage := st, commit_index := c, matched_index := mi, next_index := ni, pending_append_reqs := pm\<rparr>"
    "map_find ni f = Some k" "map_find pm f = Some p"
    and c: "commit_index (node s) < int (length (log_entries (node s))) \<Longrightarrow> c < int (length (log_entries (node s)))"
      "aes_append_result_success resp \<noteq> 0 \<Longrightarrow> total_nodes (node s) \<le> 3 \<Longrightarrow> aes_last_index_synced resp \<le> c"
    by blast
  have of_t: "next_of f (node t) = k" "pending_of f (node t) = p" by (simp_all add: n next_of_def pending_of_def)
  from trigger_entry_update_frame [OF upd] obtain ni' pm' where rep: "node s' = (node t)\<lparr>next_index := ni', pending_append_reqs := pm'\<rparr>" by (auto simp: replicated_def)
  then have req: "request_for (node s') k = request_for (node t) k" by (simp add: request_for_def)
  have log: "log_entries (node t) = log_entries (node s)" by (simp add: n(2))
  note result = trigger_entry_update_result [OF upd, unfolded n(1) of_t log, folded req]
  show ?thesis
  proof (rule that [OF s'])
    show "next_of f (node s') = k" using result by blast
    show "if 1 \<le> k \<and> k < int (length (log_entries (node s))) \<and> p < 2
      then sent s' = sent s @ [(ToNode f, request_for (node s') k)] \<and> pending_of f (node s') = p + 1
      else sent s' = sent s \<and> pending_of f (node s') = p" using result by blast
  qed (use c in \<open>simp_all add: rep n(2)\<close>)
qed

lemma request_sent_find: "map_find (request_sent i m) f = (if f = i then Some (opt_get 0 (map_find m i) + 1) else map_find m f)"
  by (simp add: request_sent_def case_prod_beta Let_def map_find_index)

lemma requests_sent_find:
  "distinct is \<Longrightarrow> opt_get 0 (map_find (fold request_sent is m) f) = opt_get 0 (map_find m f) + (if f \<in> set is then 1 else 0)"
  by (induction "is" arbitrary: m) (auto simp: request_sent_find)

lemma leader_beats:
  assumes "wire_format w" and "env_wire env = w" and typed: "world_typed w s" and led: "state (node s) = LEADER" and ind: "indexed (log_entries (node s))"
    and f: "0 \<le> f" "f < total_nodes (node s)" "f \<noteq> node_id (node s)"
  obtains s' pm where "send_heartbeat env s = Inr s'" "world_typed w s'" "node s' = (node s)\<lparr>pending_append_reqs := pm\<rparr>"
    "pending_of f (node s') = pending_of f (node s) + 1"
    "sent s' = sent s @ [(ToAll, set_partition_id (partition_id (node s)) (append_request (cur_term (node s)) (node_id (node s))
       (int (length (log_entries (node s)) - 1)) (le_term (log_entries (node s) ! (length (log_entries (node s)) - 1))) [] (commit_index (node s))))]"
proof -
  have "returns_typed w (send_heartbeat env s)" by (rule wire_format.heartbeat_typed) (use assms in simp_all)
  then obtain s' where s': "send_heartbeat env s = Inr s'" "world_typed w s'" by (auto simp: returns_typed_def)
  let ?log = "log_entries (node s)" and ?pm = "fold request_sent (other_nodes (node s)) (pending_append_reqs (node s))"
  have last: "?log \<noteq> []" "le_index (last ?log) = int (length ?log - 1)" "last ?log = ?log ! (length ?log - 1)"
    using ind by (auto simp: indexed_def last_conv_nth)
  from s'(1) led last(1) have eq: "s' = update_node (\<lambda>n. n\<lparr>pending_append_reqs := ?pm\<rparr>) (s\<lparr>sent := sent s @ [(ToAll, set_partition_id (partition_id (node s))
      (append_request (cur_term (node s)) (node_id (node s)) (le_index (last ?log)) (le_term (last ?log)) [] (commit_index (node s))))]\<rparr>)"
    by (auto simp: send_heartbeat_def log_back_def other_nodes_def dest!: post_message_Inr)
  have "f \<in> set (other_nodes (node s))" "distinct (other_nodes (node s))" using f by (auto simp: other_nodes_def)
  with requests_sent_find [of "other_nodes (node s)" "pending_append_reqs (node s)" f]
  have "pending_of f (node s') = pending_of f (node s) + 1" by (simp add: pending_of_def eq)
  with s' eq last show ?thesis by (intro that [of s' ?pm]) simp_all
qed

section \<open>The exchange between a leader and a follower\<close>

definition in_touch :: "wire \<Rightarrow> int \<Rightarrow> int \<Rightarrow> int \<Rightarrow> cluster \<Rightarrow> bool" where
  "in_touch w n l f C \<longleftrightarrow> 0 \<le> l \<and> l < n \<and> 0 \<le> f \<and> f < n \<and> l \<noteq> f \<and> (let a = worlds C l; b = worlds C f in
     world_typed w a \<and> world_typed w b \<and> node_id (node a) = l \<and> node_id (node b) = f \<and> total_nodes (node a) = n \<and> state (node a) = LEADER \<and>
     cur_term (node b) \<le> cur_term (node a) \<and> behind (log_entries (node b)) (log_entries (node a)) \<and>
     commit_index (node a) < int (length (log_entries (node a))))"

abbreviation log_of :: "cluster \<Rightarrow> int \<Rightarrow> LogEntry list" where
  "log_of C i \<equiv> log_entries (node (worlds C i))"

text \<open>
  The runs of this section are calm for the leader \<open>l\<close>: it sends heartbeats and receives answers to append requests, and nothing else happens to it. What happens to the other nodes is open.
\<close>

fun calm :: "node_event \<Rightarrow> bool" where
  "calm (Receive m) \<longleftrightarrow> msg_type m = APPEND_ENTRIES_RESPONSE"
| "calm ev \<longleftrightarrow> ev = HeartbeatTimer"

inductive calm_run :: "int \<Rightarrow> int \<Rightarrow> cluster \<Rightarrow> cluster \<Rightarrow> bool" for n l where
  calm_begin: "calm_run n l C C"
| calm_outside: "calm_run n l C D \<Longrightarrow> 0 \<le> i \<Longrightarrow> i < n \<Longrightarrow> from_outside ev \<Longrightarrow> i = l \<longrightarrow> calm ev \<Longrightarrow> node_step env ev (worlds D i) = Inr s \<Longrightarrow>
    calm_run n l C (node_acts n i s D)"
| calm_receive: "calm_run n l C D \<Longrightarrow> in_flight D = xs @ (j, i, m) # ys \<Longrightarrow> i = l \<longrightarrow> calm (Receive m) \<Longrightarrow> node_step env (Receive m) (worlds D i) = Inr s \<Longrightarrow>
    calm_run n l C (node_acts n i s (moved (xs @ ys) (j, i, m) D))"

lemma cluster_run_trans: "cluster_run n D E \<Longrightarrow> cluster_run n C D \<Longrightarrow> cluster_run n C E"
  by (induction rule: cluster_run.induct) (auto intro: cluster_run.intros)

lemma calm_run_trans: "calm_run n l D E \<Longrightarrow> calm_run n l C D \<Longrightarrow> calm_run n l C E"
  by (induction rule: calm_run.induct) (auto intro: calm_run.intros)

lemma calm_run_is_run: "calm_run n l C D \<Longrightarrow> cluster_run n C D"
  by (induction rule: calm_run.induct) (auto intro: cluster_run.intros simp: moved_def)

lemma calm_run_keeps:
  assumes "calm_run n l C D" and "P (worlds C l)" and "\<And>env ev s s'. P s \<Longrightarrow> calm ev \<Longrightarrow> node_step env ev s = Inr s' \<Longrightarrow> P s'"
  shows "P (worlds D l)"
  using assms(1,2)
proof (induction rule: calm_run.induct)
  case (calm_outside C D i ev env s)
  then show ?case using assms(3) [of "worlds D l" ev env s] by (cases "i = l") simp_all
next
  case (calm_receive C D xs j i m ys env s)
  then show ?case using assms(3) [of "worlds D l" "Receive m" env s] by (cases "i = l") simp_all
qed simp

text \<open>A node receives a message and answers its sender.\<close>

lemma answers_worlds:
  fixes rest :: "(int \<times> int \<times> raft_message) list" and m :: raft_message
  assumes "sent s = sent (worlds C i) @ map (Pair (ToNode j)) ms" and "0 \<le> j" and "j < n" and "j \<noteq> i"
  defines "D \<equiv> node_acts n i s (moved rest (j, i, m) C)"
  shows "worlds D = (worlds C)(i := s)" and "in_flight D = rest @ map (\<lambda>r. (i, j, r)) ms"
proof -
  show "worlds D = (worlds C)(i := s)" by (simp add: D_def)
  have "concat (map (spread n i \<circ> Pair (ToNode j)) ms) = map (\<lambda>r. (i, j, r)) ms" using assms(2-4) by (induction ms) simp_all
  then show "in_flight D = rest @ map (\<lambda>r. (i, j, r)) ms" using assms(1) by (simp add: D_def)
qed

text \<open>The first half of a round: the follower receives the request with the entries \<open>es\<close> after position \<open>k\<close>, and answers.\<close>

lemma follower_turn:
  fixes env :: node_env
  assumes "wire_format w" and env: "env_wire env = w" and touch: "in_touch w n l f C" and fly: "in_flight C = xs @ (l, f, m) # ys"
    and m: "m = set_partition_id p (append_request (cur_term (node (worlds C l))) l (int k) (le_term (log_of C l ! k)) es c)"
    and k: "k + 1 + length es \<le> length (log_of C l)" and es: "set es \<subseteq> set (log_of C l)"
    and new: "k < common (log_of C f) (log_of C l) \<Longrightarrow> append_log_entries (int k) es (log_of C f) = Inr G \<and> behind G (log_of C l)"
      "\<not> k < common (log_of C f) (log_of C l) \<Longrightarrow> G = log_of C f"
  obtains D s r where "calm_run n l C D" "worlds D = (worlds C)(f := s)" "in_flight D = (xs @ ys) @ [(f, l, r)]" "world_typed w s" "node_id (node s) = f"
    "cur_term (node s) = cur_term (node (worlds C l))" "log_entries (node s) = G" "behind G (log_of C l)" "msg_type r = APPEND_ENTRIES_RESPONSE"
    "get_append_response r = get_append_response (append_response (cur_term (node (worlds C l))) f
      (if k < common (log_of C f) (log_of C l) then 1 else 0) (if k < common (log_of C f) (log_of C l) then int (length G) - 1 else - 1))"
proof -
  let ?a = "worlds C l" and ?b = "worlds C f" let ?L = "log_entries (node ?a)" and ?F = "log_entries (node ?b)"
  let ?ok = "k < common ?F ?L"
  note t = touch [unfolded in_touch_def Let_def]
  have ids: "0 \<le> l" "l < n" "0 \<le> f" "f < n" "l \<noteq> f" and a: "world_typed w ?a"
    and b: "world_typed w ?b" "node_id (node ?b) = f" "cur_term (node ?b) \<le> cur_term (node ?a)" and log: "behind ?F ?L" using t by blast+
  from a have typed: "in_int32 (cur_term (node ?a))" "list_all (entry_typed w) ?L" "length ?L < 2 ^ 31"
    by (simp_all add: world_typed_def node_typed_def ints32_def)
  have req: "aeq_term (get_append_request m) = cur_term (node ?a)" "aeq_leader_id (get_append_request m) = l" "aeq_prev_log_index (get_append_request m) = int k"
    "aeq_prev_log_term (get_append_request m) = le_term (?L ! k)" "aeq_entries (get_append_request m) = es" by (simp_all add: m)
  have less: "k < length ?L" using k by simp
  have "list_all (entry_typed w) es" using es typed(2) by (auto simp: list_all_iff)
  moreover have "int k + 1 + int (length es) < 2 ^ 31" using k typed(3) by simp
  ultimately obtain s where s: "handle_append_entries_request env (get_append_request m) ?b = Inr s" "world_typed w s" "node_id (node s) = f"
      "cur_term (node s) = cur_term (node ?a)"
    and ans: "if ?ok then append_log_entries (int k) es ?F = Inr (log_entries (node s)) \<and>
        sent s = sent ?b @ [(ToNode l, set_partition_id (partition_id (node ?b)) (append_response (cur_term (node ?a)) f 1 (le_index (last (log_entries (node s))))))]
      else log_entries (node s) = ?F \<and>
        sent s = sent ?b @ [(ToNode l, set_partition_id (partition_id (node ?b)) (append_response (cur_term (node ?a)) f 0 (- 1)))]"
    using follower_answers [OF assms(1) env b(1), of "get_append_request m" k ?L, unfolded req b(2)] b(3) log typed(1) less by blast
  have G: "log_entries (node s) = G" "behind G ?L" using ans new log by (auto split: if_splits)
  then have G_last: "le_index (last G) = int (length G) - 1" by (auto simp: behind_def indexed_def last_conv_nth of_nat_diff Suc_le_eq)
  define r where "r = set_partition_id (partition_id (node ?b)) (append_response (cur_term (node ?a)) f (if ?ok then 1 else 0) (if ?ok then int (length G) - 1 else - 1))"
  have sent_s: "sent s = sent ?b @ map (Pair (ToNode l)) [r]" using ans G(1) G_last by (auto simp: r_def split: if_splits)
  have step1: "node_step env (Receive m) ?b = Inr s" using s(1) by (simp add: m local_message_handler_def)
  define C1 where "C1 = node_acts n f s (moved (xs @ ys) (l, f, m) C)"
  have run1: "calm_run n l C C1" unfolding C1_def by (rule calm_receive [OF calm_begin fly _ step1]) (use ids(5) in simp)
  note r1 = answers_worlds [OF sent_s ids(1,2,5), of "xs @ ys" m, folded C1_def]
  have get: "get_append_response r = get_append_response (append_response (cur_term (node ?a)) f (if ?ok then 1 else 0) (if ?ok then int (length G) - 1 else - 1))"
    "msg_type r = APPEND_ENTRIES_RESPONSE"
    by (simp add: r_def get_append_response_def set_partition_id_def fm_append_entries_response_def) (simp add: r_def)
  show thesis by (rule that [OF run1 r1(1) _ s(2-4) G get(2,1)]) (use r1(2) in simp)
qed

text \<open>
  One round: the follower receives the request with the entries \<open>es\<close> after position \<open>k\<close>, and the leader receives its answer, and sends the entry that is next.
\<close>

lemma exchange_round:
  fixes env :: node_env
  assumes "wire_format w" and env: "env_wire env = w" and touch: "in_touch w n l f C" and fly: "in_flight C = xs @ (l, f, m) # ys"
    and m: "m = set_partition_id p (append_request (cur_term (node (worlds C l))) l (int k) (le_term (log_of C l ! k)) es c)"
    and k: "k + 1 + length es \<le> length (log_of C l)" and es: "set es \<subseteq> set (log_of C l)"
    and new: "k < common (log_of C f) (log_of C l) \<Longrightarrow> append_log_entries (int k) es (log_of C f) = Inr G \<and> behind G (log_of C l)"
      "\<not> k < common (log_of C f) (log_of C l) \<Longrightarrow> G = log_of C f"
    and pend: "pending_of f (node (worlds C l)) = q + 1" "0 \<le> q" "q < 2"
  defines "j \<equiv> if k < common (log_of C f) (log_of C l) then int (length G) else max 1 (next_of f (node (worlds C l)) - 1)"
  shows "\<exists>D. calm_run n l C D \<and> in_touch w n l f D \<and> log_of D l = log_of C l \<and> log_of D f = G \<and> next_of f (node (worlds D l)) = j \<and>
    (if j < int (length (log_of C l)) then pending_of f (node (worlds D l)) = q + 1 \<and> in_flight D = (xs @ ys) @ [(l, f, request_for (node (worlds D l)) j)]
     else pending_of f (node (worlds D l)) = q) \<and>
    (k < common (log_of C f) (log_of C l) \<longrightarrow> n \<le> 3 \<longrightarrow> int (length G) - 1 \<le> commit_index (node (worlds D l)))"
proof -
  let ?a = "worlds C l" and ?b = "worlds C f" let ?L = "log_entries (node ?a)" and ?F = "log_entries (node ?b)"
  let ?ok = "k < common ?F ?L"
  note t = touch [unfolded in_touch_def Let_def]
  have ids: "0 \<le> l" "l < n" "0 \<le> f" "f < n" "l \<noteq> f" and a: "world_typed w ?a" "node_id (node ?a) = l" "total_nodes (node ?a) = n" "state (node ?a) = LEADER"
    and commit: "commit_index (node ?a) < int (length ?L)" using t by blast+
  from a(1) have typed: "in_int32 (cur_term (node ?a))" by (simp add: world_typed_def node_typed_def ints32_def)
  obtain C1 s r where run1: "calm_run n l C C1" and turn: "worlds C1 = (worlds C)(f := s)" "in_flight C1 = (xs @ ys) @ [(f, l, r)]"
    and s: "world_typed w s" "node_id (node s) = f" "cur_term (node s) = cur_term (node ?a)" and G: "log_entries (node s) = G" "behind G ?L"
    and get: "msg_type r = APPEND_ENTRIES_RESPONSE"
      "get_append_response r = get_append_response (append_response (cur_term (node ?a)) f (if ?ok then 1 else 0) (if ?ok then int (length G) - 1 else - 1))"
    by (rule follower_turn [OF assms(1) env touch fly m k es new])
  have G_len: "length G \<le> length ?L" using G(2) by (simp add: behind_def)
  let ?resp = "get_append_response r"
  have resp: "aes_term ?resp = cur_term (node ?a)" "aes_follower_id ?resp = f" "aes_append_result_success ?resp \<noteq> 0 \<longleftrightarrow> ?ok" "?ok \<Longrightarrow> aes_last_index_synced ?resp = int (length G) - 1"
    by (simp_all add: get(2))
  have jk: "(if aes_append_result_success ?resp \<noteq> 0 then aes_last_index_synced ?resp + 1 else max 1 (next_of (aes_follower_id ?resp) (node ?a) - 1)) = j"
    by (simp add: get(2) j_def)
  have qk: "max 0 (pending_of f (node ?a) - 1) = q" using pend by simp
  have last: "aes_append_result_success ?resp \<noteq> 0 \<Longrightarrow> aes_last_index_synced ?resp < int (length ?L)" using resp(3,4) G_len by simp
  obtain s' c' where s': "handle_append_entries_response env ?resp ?a = Inr s'" "world_typed w s'" "node_id (node s') = l" "state (node s') = LEADER"
    "cur_term (node s') = cur_term (node ?a)" "total_nodes (node s') = n" "log_entries (node s') = ?L" "commit_index (node s') = c'"
    "next_of f (node s') = j" "commit_index (node ?a) < int (length ?L) \<Longrightarrow> c' < int (length ?L)" "?ok \<Longrightarrow> n \<le> 3 \<Longrightarrow> aes_last_index_synced ?resp \<le> c'"
    "if 1 \<le> j \<and> j < int (length ?L) \<and> q < 2 then sent s' = sent ?a @ [(ToNode f, request_for (node s') j)] \<and> pending_of f (node s') = q + 1
     else sent s' = sent ?a \<and> pending_of f (node s') = q"
    by (rule leader_learns [OF assms(1) env a(1) _ last, unfolded jk, unfolded resp(1,2,3) a(2-4) qk]) (use typed in auto)
  have "1 \<le> j" using G(2) by (auto simp: j_def behind_def indexed_def Suc_le_eq)
  then have sent_s': "sent s' = sent (worlds C1 l) @ map (Pair (ToNode f)) (if j < int (length ?L) then [request_for (node s') j] else [])"
    using s'(12) pend(3) ids(5) by (auto simp: turn(1) split: if_splits)
  have step2: "node_step env (Receive r) (worlds C1 l) = Inr s'" using s'(1) ids(5) by (simp add: turn(1) local_message_handler_def get(1) message_types)
  define D where "D = node_acts n l s' (moved ((xs @ ys) @ []) (f, l, r) C1)"
  have run2: "calm_run n l C1 D" unfolding D_def by (rule calm_receive [OF calm_begin turn(2) _ step2]) (simp add: get(1))
  note r2 = run2 answers_worlds [OF sent_s' ids(3,4) ids(5) [symmetric], of "(xs @ ys) @ []" r, folded D_def]
  have D: "worlds D l = s'" "worlds D f = s" using ids(5) by (simp_all add: r2(2) turn(1))
  have "calm_run n l C D" using run1 r2(1) by (rule calm_run_trans [rotated])
  moreover have "in_touch w n l f D" unfolding in_touch_def Let_def D using ids s s' G commit by simp
  moreover have "?ok \<longrightarrow> n \<le> 3 \<longrightarrow> int (length G) - 1 \<le> commit_index (node (worlds D l))" using s'(8,11) resp(4) D(1) by auto
  moreover have "if j < int (length ?L) then pending_of f (node (worlds D l)) = q + 1 \<and> in_flight D = (xs @ ys) @ [(l, f, request_for (node (worlds D l)) j)]
     else pending_of f (node (worlds D l)) = q" using s'(12) r2(3) D(1) pend(3) \<open>1 \<le> j\<close> by (auto split: if_splits)
  moreover have "log_of D l = ?L" "log_of D f = G" "next_of f (node (worlds D l)) = j" using D G(1) s'(7,9) by simp_all
  ultimately show ?thesis by blast
qed

text \<open>The heartbeat of the leader, as far as the follower is concerned.\<close>

lemma beat_round:
  fixes env :: node_env
  assumes "wire_format w" and env: "env_wire env = w" and touch: "in_touch w n l f C"
  obtains D xs ys p c where "calm_run n l C D" "in_touch w n l f D" "log_of D l = log_of C l" "log_of D f = log_of C f"
    "next_of f (node (worlds D l)) = next_of f (node (worlds C l))" "pending_of f (node (worlds D l)) = pending_of f (node (worlds C l)) + 1"
    "in_flight D = xs @ (l, f, set_partition_id p (append_request (cur_term (node (worlds D l))) l (int (length (log_of C l) - 1))
       (le_term (log_of C l ! (length (log_of C l) - 1))) [] c)) # ys"
proof -
  let ?a = "worlds C l"
  note t = touch [unfolded in_touch_def Let_def]
  then have ids: "0 \<le> l" "l < n" "0 \<le> f" "f < n" "l \<noteq> f" and a: "world_typed w ?a" "node_id (node ?a) = l" "total_nodes (node ?a) = n" "state (node ?a) = LEADER"
    and log: "behind (log_of C f) (log_of C l)" by blast+
  have ind: "indexed (log_of C l)" using log by (simp add: behind_def)
  obtain s pm where s: "send_heartbeat env ?a = Inr s" "world_typed w s" "node s = (node ?a)\<lparr>pending_append_reqs := pm\<rparr>"
    "pending_of f (node s) = pending_of f (node ?a) + 1"
    "sent s = sent ?a @ [(ToAll, set_partition_id (partition_id (node ?a)) (append_request (cur_term (node ?a)) (node_id (node ?a))
       (int (length (log_of C l) - 1)) (le_term (log_of C l ! (length (log_of C l) - 1))) [] (commit_index (node ?a))))]"
    by (rule leader_beats [OF assms(1) env a(1,4) ind, of f]) (use a ids in simp_all)
  let ?m = "set_partition_id (partition_id (node ?a)) (append_request (cur_term (node ?a)) l (int (length (log_of C l) - 1)) (le_term (log_of C l ! (length (log_of C l) - 1))) [] (commit_index (node ?a)))"
  let ?D = "node_acts n l s C"
  have run: "calm_run n l C ?D" by (rule calm_outside [OF calm_begin ids(1,2), where ev = HeartbeatTimer and env = env]) (use s(1) in simp_all)
  have w: "worlds ?D l = s" "worlds ?D f = worlds C f" using ids(5) by simp_all
  have "f \<in> set (filter (\<lambda>j. j \<noteq> l) [0..n - 1])" using ids by simp
  then obtain us vs where "filter (\<lambda>j. j \<noteq> l) [0..n - 1] = us @ f # vs" by (meson split_list)
  then have fly: "in_flight ?D = (in_flight C @ map (\<lambda>j. (l, j, ?m)) us) @ (l, f, ?m) # map (\<lambda>j. (l, j, ?m)) vs" using s(5) a(2) by simp
  have "in_touch w n l f ?D" using t s(2,3) ids(5) unfolding in_touch_def Let_def w by simp
  moreover have "cur_term (node (worlds ?D l)) = cur_term (node ?a)" by (simp add: s(3))
  note fly [folded this]
  moreover have "log_of ?D l = log_of C l" "log_of ?D f = log_of C f" "next_of f (node (worlds ?D l)) = next_of f (node ?a)"
    "pending_of f (node (worlds ?D l)) = pending_of f (node ?a) + 1" unfolding w by (simp_all add: s(3) s(4) [unfolded s(3)] next_of_def)
  ultimately show ?thesis using run by (intro that)
qed

text \<open>The follower has the whole log of the leader, and in a cluster of three everything in it is committed.\<close>

definition caught_up :: "int \<Rightarrow> int \<Rightarrow> int \<Rightarrow> LogEntry list \<Rightarrow> cluster \<Rightarrow> bool" where
  "caught_up n l f L D \<longleftrightarrow> log_of D l = L \<and> log_of D f = L \<and> (n \<le> 3 \<longrightarrow> commit_index (node (worlds D l)) = int (length L) - 1)"

lemma caught_upI:
  assumes "in_touch w n l f D" and "log_of D l = L" and "log_of D f = L" and "n \<le> 3 \<longrightarrow> int (length L) - 1 \<le> commit_index (node (worlds D l))"
  shows "caught_up n l f L D"
  using assms by (auto simp: caught_up_def in_touch_def Let_def)

text \<open>A heartbeat finds the follower up to date, or makes the leader ask for the entry before the one that was next.\<close>

lemma beat_outcome:
  fixes env :: node_env
  assumes "wire_format w" and env: "env_wire env = w" and touch: "in_touch w n l f C" and pend: "pending_of f (node (worlds C l)) = q" "0 \<le> q" "q < 2"
    and nxt: "next_of f (node (worlds C l)) \<le> int (length (log_of C l))"
  shows "log_of C f = log_of C l \<Longrightarrow> \<exists>D. calm_run n l C D \<and> caught_up n l f (log_of C l) D"
    and "log_of C f \<noteq> log_of C l \<Longrightarrow> \<exists>D us i. calm_run n l C D \<and> in_touch w n l f D \<and> log_of D l = log_of C l \<and> log_of D f = log_of C f \<and> int i = max 1 (next_of f (node (worlds C l)) - 1) \<and>
      i < length (log_of C l) \<and> next_of f (node (worlds D l)) = int i \<and> pending_of f (node (worlds D l)) = q + 1 \<and>
      in_flight D = us @ [(l, f, request_for (node (worlds D l)) (int i))]"
proof -
  let ?L = "log_of C l" and ?F = "log_of C f"
  have log: "behind ?F ?L" using touch by (simp add: in_touch_def Let_def)
  then have pos: "0 < length ?L" by (simp add: behind_def indexed_def)
  have up: "length ?L - 1 < common ?F ?L \<longleftrightarrow> ?F = ?L"
  proof
    assume "length ?L - 1 < common ?F ?L"
    then show "?F = ?L" using behind_same [OF log] take_common(3) [of ?F ?L] by linarith
  qed (use behind_take(2) [OF log, of "length ?L - 1"] pos in simp)
  obtain D xs ys p c where run: "calm_run n l C D" and D: "in_touch w n l f D" "log_of D l = ?L" "log_of D f = ?F" "next_of f (node (worlds D l)) = next_of f (node (worlds C l))"
    "pending_of f (node (worlds D l)) = q + 1"
    and fly: "in_flight D = xs @ (l, f, set_partition_id p (append_request (cur_term (node (worlds D l))) l (int (length ?L - 1)) (le_term (?L ! (length ?L - 1))) [] c)) # ys"
    by (rule beat_round [OF assms(1) env touch, unfolded pend(1)])
  let ?j = "if ?F = ?L then int (length ?F) else max 1 (next_of f (node (worlds C l)) - 1)"
  have "length ?L - 1 + 1 + length ([] :: LogEntry list) \<le> length ?L" "set [] \<subseteq> set ?L" using pos by simp_all
  moreover have "append_log_entries (int (length ?L - 1)) [] ?F = Inr ?F \<and> behind ?F ?L" using log by (simp add: append_log_entries_def)
  ultimately obtain E where E: "calm_run n l D E" "in_touch w n l f E" "log_of E l = ?L" "log_of E f = ?F" "next_of f (node (worlds E l)) = ?j"
    "if ?j < int (length ?L) then pending_of f (node (worlds E l)) = q + 1 \<and> in_flight E = (xs @ ys) @ [(l, f, request_for (node (worlds E l)) ?j)]
     else pending_of f (node (worlds E l)) = q"
    "?F = ?L \<longrightarrow> n \<le> 3 \<longrightarrow> int (length ?F) - 1 \<le> commit_index (node (worlds E l))"
    using exchange_round [OF assms(1) env D(1) fly [folded D(2)] refl _ _ _ _ D(5) pend(2,3), of ?F, unfolded D(2-4) up] by blast
  have CE: "calm_run n l C E" using E(1) run by (rule calm_run_trans)
  show "\<exists>D. calm_run n l C D \<and> caught_up n l f ?L D" if "?F = ?L"
  proof -
    from that E have "caught_up n l f ?L E" by (intro caught_upI [of w]) simp_all
    with CE show ?thesis by blast
  qed
  show "\<exists>D us i. calm_run n l C D \<and> in_touch w n l f D \<and> log_of D l = ?L \<and> log_of D f = ?F \<and> int i = max 1 (next_of f (node (worlds C l)) - 1) \<and>
      i < length ?L \<and> next_of f (node (worlds D l)) = int i \<and> pending_of f (node (worlds D l)) = q + 1 \<and>
      in_flight D = us @ [(l, f, request_for (node (worlds D l)) (int i))]" if "?F \<noteq> ?L"
  proof -
    have "common ?F ?L < length ?L" using that behind_same [OF log] take_common(3) [of ?F ?L] by linarith
    with behind_nonempty [OF log] nxt have less: "max 1 (next_of f (node (worlds C l)) - 1) < int (length ?L)" by linarith
    obtain i where i: "max 1 (next_of f (node (worlds C l)) - 1) = int i" by (metis max.coboundedI1 nonneg_int_cases zero_le_one)
    have j: "?j = int i" using that i by simp
    have "i < length ?L" "?j < int (length ?L)" using less i j by simp_all
    with E(5,6) have "next_of f (node (worlds E l)) = int i" "pending_of f (node (worlds E l)) = q + 1"
      "in_flight E = (xs @ ys) @ [(l, f, request_for (node (worlds E l)) (int i))]" unfolding j by simp_all
    with CE E(2-4) i \<open>i < length ?L\<close> show ?thesis by metis
  qed
qed

text \<open>A request for entry \<open>j\<close> and its answer: the log of the follower is as before, or the log of the leader up to entry \<open>j\<close>.\<close>

lemma ask_round:
  fixes env :: node_env
  assumes "wire_format w" and "env_wire env = w" and touch: "in_touch w n l f C" and fly: "in_flight C = zs @ [(l, f, request_for (node (worlds C l)) (int j))]"
    and j: "1 \<le> j" "j < length (log_of C l)" and pend: "pending_of f (node (worlds C l)) = q + 1" "0 \<le> q" "q < 2"
  defines "L \<equiv> log_of C l" and "F \<equiv> log_of C f"
  defines "G \<equiv> if j < common F L then F else if j = common F L then take (Suc j) L else F"
  defines "k \<equiv> if j \<le> common F L then int (length G) else max 1 (next_of f (node (worlds C l)) - 1)"
  shows "behind G L" and "\<exists>D. calm_run n l C D \<and> in_touch w n l f D \<and> log_of D l = L \<and> log_of D f = G \<and> next_of f (node (worlds D l)) = k \<and>
    (if k < int (length L) then pending_of f (node (worlds D l)) = q + 1 \<and> in_flight D = zs @ [(l, f, request_for (node (worlds D l)) k)]
     else pending_of f (node (worlds D l)) = q) \<and>
    (j \<le> common F L \<longrightarrow> n \<le> 3 \<longrightarrow> int (length G) - 1 \<le> commit_index (node (worlds D l)))"
proof -
  have log: "behind F L" and id: "node_id (node (worlds C l)) = l" using touch by (simp_all add: in_touch_def Let_def L_def F_def)
  have le: "j - 1 < common F L \<longleftrightarrow> j \<le> common F L" using j(1) by auto
  show G: "behind G L" using log behind_take(1) [OF log j(2) [folded L_def]] by (auto simp: G_def)
  have app: "append_log_entries (int (j - 1)) [L ! j] F = Inr G" if "j - 1 < common F L"
    using append_next [OF log j(1) _ j(2) [folded L_def]] that le j(1) by (auto simp: G_def of_nat_diff)
  have req: "request_for (node (worlds C l)) (int j) = set_partition_id (partition_id (node (worlds C l)))
      (append_request (cur_term (node (worlds C l))) l (int (j - 1)) (le_term (L ! (j - 1))) [L ! j] (commit_index (node (worlds C l))))"
    using j(1) id by (simp add: request_for_def of_nat_diff nat_diff_distrib' L_def)
  have "j - 1 + 1 + length [L ! j] \<le> length L" "set [L ! j] \<subseteq> set L" using j unfolding L_def by auto
  moreover have "append_log_entries (int (j - 1)) [L ! j] F = Inr G \<and> behind G L" if "j - 1 < common F L" using app [OF that] G by blast
  moreover have "G = F" if "\<not> j - 1 < common F L" using that j(1) by (auto simp: G_def)
  ultimately show "\<exists>D. calm_run n l C D \<and> in_touch w n l f D \<and> log_of D l = L \<and> log_of D f = G \<and> next_of f (node (worlds D l)) = k \<and>
    (if k < int (length L) then pending_of f (node (worlds D l)) = q + 1 \<and> in_flight D = zs @ [(l, f, request_for (node (worlds D l)) k)]
     else pending_of f (node (worlds D l)) = q) \<and>
    (j \<le> common F L \<longrightarrow> n \<le> 3 \<longrightarrow> int (length G) - 1 \<le> commit_index (node (worlds D l)))"
    using exchange_round [OF assms(1,2) touch fly req [unfolded L_def] _ _ _ _ pend, of G, folded L_def F_def, unfolded le, folded k_def] by (simp only: append_Nil2 le) blast
qed

lemma asking_catches_up:
  fixes env :: node_env
  assumes "wire_format w" and "env_wire env = w" and "in_touch w n l f C" and "in_flight C = zs @ [(l, f, request_for (node (worlds C l)) (int j))]"
    and "next_of f (node (worlds C l)) = int j" and "1 \<le> j" and "j < length (log_of C l)" and "pending_of f (node (worlds C l)) = q + 1" and "0 \<le> q" and "q < 2"
  shows "\<exists>D. calm_run n l C D \<and> caught_up n l f (log_of C l) D"
  using assms(3-8)
proof (induction "effort (log_of C f) (log_of C l) j" arbitrary: C j zs rule: less_induct)
  case less
  let ?L = "log_of C l" and ?F = "log_of C f" let ?c = "common ?F ?L"
  have log: "behind ?F ?L" using less.prems(1) by (simp add: in_touch_def Let_def)
  define G where "G = (if j < ?c then ?F else if j = ?c then take (Suc j) ?L else ?F)"
  let ?k = "if j \<le> ?c then int (length G) else max 1 (next_of f (node (worlds C l)) - 1)"
  note ask = ask_round [OF assms(1,2) less.prems(1,2,4,5,6) assms(9,10), folded G_def]
  note G = ask(1)
  from ask(2) obtain D where run: "calm_run n l C D" and touch: "in_touch w n l f D" and D: "log_of D l = ?L" "log_of D f = G" "next_of f (node (worlds D l)) = ?k"
    and fly: "if ?k < int (length ?L) then pending_of f (node (worlds D l)) = q + 1 \<and> in_flight D = zs @ [(l, f, request_for (node (worlds D l)) ?k)]
      else pending_of f (node (worlds D l)) = q"
    and commit: "j \<le> ?c \<longrightarrow> n \<le> 3 \<longrightarrow> int (length G) - 1 \<le> commit_index (node (worlds D l))"
    by blast
  have c1: "1 \<le> ?c" and len: "length ?F \<le> length ?L" using behind_nonempty [OF log] log by (simp_all add: behind_def)
  have later: ?case if "calm_run n l C E" "in_touch w n l f E" "log_of E l = ?L" "effort (log_of E f) ?L i < effort ?F ?L j" "1 \<le> i" "i < length ?L"
      "next_of f (node (worlds E l)) = int i" "pending_of f (node (worlds E l)) = q + 1" "in_flight E = us @ [(l, f, request_for (node (worlds E l)) (int i))]" for E i us
    using less.hyps [of E i us] that by (auto intro: calm_run_trans)
  consider "?c < j" | "j \<le> ?c" "length G < length ?L" | "j \<le> ?c" "G = ?L" | "j < ?c" "G = ?F" "length ?F = length ?L" "?F \<noteq> ?L"
  proof -
    have "length G \<le> length ?L" "j = ?c \<Longrightarrow> length G = length ?L \<Longrightarrow> G = ?L" using G less.prems(5) by (auto simp: G_def behind_def)
    then show thesis using that by (cases "G = ?L"; cases "length G < length ?L"; cases "j < ?c"; cases "j = ?c") (auto simp: G_def)
  qed
  then show ?case
  proof cases
    case 1
    then have k: "?k = int (j - 1)" "1 \<le> j - 1" "j - 1 < length ?L" using c1 less.prems(3,5) by auto
    have "G = ?F" using 1 by (simp add: G_def)
    with later [OF run touch D(1), of "j - 1"] effort_refused [OF 1] D k fly show ?thesis by simp
  next
    case 2
    then have k: "?k = int (length G)" "1 \<le> length G" using G by (auto simp: behind_def indexed_def Suc_le_eq)
    have "effort G ?L (length G) < effort ?F ?L j"
    proof (cases "j < ?c")
      case True
      with effort_skip [OF True len] show ?thesis by (simp add: G_def)
    next
      case False
      with 2 have "j = ?c" by simp
      with effort_append [OF log this less.prems(5)] less.prems(5) show ?thesis by (simp add: G_def)
    qed
    with later [OF run touch D(1), of "length G"] D k fly 2 show ?thesis by simp
  next
    case 3
    with commit D touch have "caught_up n l f ?L D" by (intro caught_upI [of w]) simp_all
    with run show ?thesis by blast
  next
    case 4
    then have k: "?k = int (length ?L)" by simp
    have D': "log_of D l = ?L" "log_of D f = ?F" "pending_of f (node (worlds D l)) = q" "next_of f (node (worlds D l)) = int (length ?L)"
      using D fly k 4 by simp_all
    have "log_of D f \<noteq> log_of D l" unfolding D' by (rule 4(4))
    from beat_outcome(2) [OF assms(1,2) touch D'(3) assms(9,10) _ this, unfolded D'] obtain E us i where E: "calm_run n l D E" "in_touch w n l f E" "log_of E l = ?L" "log_of E f = ?F"
      "int i = max 1 (int (length ?L) - 1)" "i < length ?L" "next_of f (node (worlds E l)) = int i" "pending_of f (node (worlds E l)) = q + 1"
      "in_flight E = us @ [(l, f, request_for (node (worlds E l)) (int i))]" by blast
    have "?c < length ?L" using behind_same [OF log] 4(4) take_common(3) [of ?F ?L] by linarith
    then have "i = length ?L - 1" "?c < length ?L" using E(5) c1 by linarith+
    then have "effort ?F ?L i < effort ?F ?L j" using effort_refused [of ?F ?L "length ?L"] effort_skip [OF 4(1) len] 4(3) by simp
    with later [OF calm_run_trans [OF E(1) run] E(2,3), of i us] E show ?thesis by simp
  qed
qed

lemma catches_up:
  fixes env :: node_env
  assumes "wire_format w" and "env_wire env = w" and "in_touch w n l f C" and "0 \<le> pending_of f (node (worlds C l))" and "pending_of f (node (worlds C l)) < 2"
    and "next_of f (node (worlds C l)) \<le> int (length (log_of C l))"
  shows "\<exists>D. calm_run n l C D \<and> caught_up n l f (log_of C l) D"
proof (cases "log_of C f = log_of C l")
  case True
  then show ?thesis by (rule beat_outcome(1) [OF assms(1-3) refl assms(4-6)])
next
  case False
  from beat_outcome(2) [OF assms(1-3) refl assms(4-6) False] obtain D us i where D: "calm_run n l C D" "in_touch w n l f D" "log_of D l = log_of C l"
    "int i = max 1 (next_of f (node (worlds C l)) - 1)" "i < length (log_of C l)" "next_of f (node (worlds D l)) = int i"
    "pending_of f (node (worlds D l)) = pending_of f (node (worlds C l)) + 1" "in_flight D = us @ [(l, f, request_for (node (worlds D l)) (int i))]" by blast
  then have "1 \<le> i" "i < length (log_of D l)" by simp_all
  from asking_catches_up [OF assms(1,2) D(2,8,6) this D(7) assms(4,5)] D(1,3) show ?thesis by (auto intro: calm_run_trans)
qed


text \<open>A leader of term 2 and a follower that holds an entry of a deposed leader.\<close>

definition lagging_cluster :: cluster where
  "lagging_cluster = new_cluster (\<lambda>i. if i = 0 then (sample_node 0)\<lparr>state := LEADER, cur_term := 2, log_entries := [sentinel, chosen]\<rparr>
     else (sample_node i)\<lparr>state := FOLLOWER, cur_term := 1, log_entries := [sentinel, stale]\<rparr>)"

lemma lagging_typed:
  assumes "in_int32 i"
  shows "world_typed varint_wire (worlds lagging_cluster i)"
proof -
  have "node_typed varint_wire (sample_node i)"
    unfolding sample_node_def by (rule initial_node_typed [OF varint.wire_format_axioms]) (use assms in simp_all)
  moreover have "entry_typed varint_wire chosen" "entry_typed varint_wire stale"
    unfolding chosen_def stale_def by (rule varint.new_entry_typed; simp add: in_int32_def in_int64_def MAX_BODY_LENGTH_def)+
  moreover have "world_typed varint_wire (start_world ((sample_node i)\<lparr>state := st, cur_term := t, log_entries := [sentinel, e]\<rparr>))"
    if "node_typed varint_wire (sample_node i)" "entry_typed varint_wire e" "in_int32 t" for e t st
    using leader_world_typed that sentinel_typed [OF varint.wire_format_axioms]
    by (simp add: world_typed_def leader_world_def start_world_def node_typed_def ints32_def)
  moreover have "in_int32 1" "in_int32 2" by (simp_all add: in_int32_def)
  ultimately show ?thesis unfolding lagging_cluster_def new_cluster_def by (cases "i = 0") simp_all
qed

lemma lagging_in_touch: "in_touch varint_wire 3 0 1 lagging_cluster"
proof -
  have idx: "le_index sentinel = 0" "le_index chosen = 1" "le_index stale = 1" "le_term sentinel = 0" "le_term chosen = 2" "le_term stale = 1"
    by (simp_all add: chosen_def stale_def)
  have "behind [sentinel, stale] [sentinel, chosen]"
    using idx by (auto simp: behind_def indexed_def logs_match_def less_Suc_eq)
  moreover have "world_typed varint_wire (worlds lagging_cluster 0)" "world_typed varint_wire (worlds lagging_cluster 1)"
    by (rule lagging_typed; simp add: in_int32_def)+
  ultimately show ?thesis by (simp add: in_touch_def Let_def lagging_cluster_def new_cluster_def)
qed

lemma lagging_facts:
  "pending_of 1 (node (worlds lagging_cluster 0)) = 0" "next_of 1 (node (worlds lagging_cluster 0)) = 1" "cur_term (node (worlds lagging_cluster 0)) = 2"
  "log_entries (node (worlds lagging_cluster 0)) = [sentinel, chosen]" "log_entries (node (worlds lagging_cluster 1)) = [sentinel, stale]"
  by (simp_all add: lagging_cluster_def new_cluster_def next_of_def pending_of_def start_world_def sample_node_def initial_node_def Let_def upto.simps map_find_def)


end
