(* ===== verification/Cluster_Availability.thy ===== *)
theory Cluster_Availability
  imports Cluster_Progress
begin

text \<open>
  Availability of a cluster: as long as enough nodes are left that are not leaders, any of them can be elected, whatever the terms of the nodes are and whatever is on the network. A single
  node is different: it becomes leader only on an answer of another node, so it never leads.
\<close>

section \<open>The steps of an election\<close>

definition cluster_typed :: "wire \<Rightarrow> int \<Rightarrow> cluster \<Rightarrow> bool" where
  "cluster_typed w n C \<longleftrightarrow>
     (\<forall>i. 0 \<le> i \<and> i < n \<longrightarrow> world_typed w (worlds C i) \<and> node_id (node (worlds C i)) = i \<and> total_nodes (node (worlds C i)) = n)"

lemma campaign_begins:
  assumes "state (node s) \<noteq> LEADER" and "last_heart_beat_received (node s) + HEARTBEAT_EXPIRE_SECONDS + 2 < now env"
  shows "node_step env VoteTimer s = Inr (s\<lparr>node := (node s)\<lparr>state := CANDIDATE, cur_term := cur_term (node s) + 1, voted_for := - 1, votes_collected := 0\<rparr>,
    vote_timers := vote_timers s + 1\<rparr>)"
proof (cases "state (node s)")
  case FOLLOWER
  then show ?thesis using assms(2) by (simp add: check_heartbeat_def update_node_def)
next
  case CANDIDATE
  then have "(node s)\<lparr>state := CANDIDATE\<rparr> = node s" by simp
  with CANDIDATE show ?thesis by (simp add: check_heartbeat_def update_node_def)
qed (use assms(1) in simp)

text \<open>Node \<open>i\<close> as a candidate in term \<open>t\<close> that has \<open>k\<close> votes and whose own vote is \<open>v\<close>.\<close>

definition candidate_in :: "int \<Rightarrow> int \<Rightarrow> int \<Rightarrow> cluster_node \<Rightarrow> cluster_node" where
  "candidate_in t v k n = n\<lparr>state := CANDIDATE, cur_term := t, voted_for := v, votes_collected := k\<rparr>"

lemma candidate_in_fields [simp]:
  "state (candidate_in t v k n) = CANDIDATE" "cur_term (candidate_in t v k n) = t" "voted_for (candidate_in t v k n) = v" "votes_collected (candidate_in t v k n) = k"
  "node_id (candidate_in t v k n) = node_id n" "total_nodes (candidate_in t v k n) = total_nodes n" "log_entries (candidate_in t v k n) = log_entries n"
  "partition_id (candidate_in t v k n) = partition_id n" "candidate_in t v k (candidate_in t' v' k' n) = candidate_in t v k n"
  by (simp_all add: candidate_in_def)

text \<open>The vote timer of a node can run until its term is as late as it has to be.\<close>

lemma vote_timer_run:
  fixes env :: node_env
  assumes "0 \<le> i" and "i < n" and "state (node (worlds C i)) \<noteq> LEADER"
  defines "s \<equiv> (worlds C i)\<lparr>node := candidate_in (cur_term (node (worlds C i)) + 1) (- 1) 0 (node (worlds C i)), vote_timers := vote_timers (worlds C i) + 1\<rparr>"
  shows "cluster_run n C (node_acts n i s C) \<and> worlds (node_acts n i s C) = (worlds C)(i := s) \<and> in_flight (node_acts n i s C) = in_flight C"
proof -
  let ?env = "env\<lparr>now := last_heart_beat_received (node (worlds C i)) + HEARTBEAT_EXPIRE_SECONDS + 3\<rparr>"
  have "node_step ?env VoteTimer (worlds C i) = Inr s" using campaign_begins [OF assms(3), of ?env] by (simp add: s_def candidate_in_def)
  from cluster_outside [OF cluster_begin assms(1,2) _ this] show ?thesis by (simp add: s_def)
qed

lemma campaign:
  fixes env :: node_env
  assumes "0 \<le> i" and "i < n" and "state (node (worlds C i)) \<noteq> LEADER"
  shows "\<exists>D v. cluster_run n C D \<and> in_flight D = in_flight C \<and> 0 < v \<and>
    worlds D = (worlds C)(i := (worlds C i)\<lparr>node := candidate_in (cur_term (node (worlds C i)) + int (Suc k)) (- 1) 0 (node (worlds C i)), vote_timers := v\<rparr>)"
proof (induction k)
  case 0
  let ?s = "(worlds C i)\<lparr>node := candidate_in (cur_term (node (worlds C i)) + 1) (- 1) 0 (node (worlds C i)), vote_timers := vote_timers (worlds C i) + 1\<rparr>"
  from vote_timer_run [OF assms] show ?case by (intro exI [of _ "node_acts n i ?s C"] exI [of _ "vote_timers (worlds C i) + 1"]) simp
next
  case (Suc k)
  then obtain D v where D: "cluster_run n C D" "in_flight D = in_flight C"
    "worlds D = (worlds C)(i := (worlds C i)\<lparr>node := candidate_in (cur_term (node (worlds C i)) + int (Suc k)) (- 1) 0 (node (worlds C i)), vote_timers := v\<rparr>)"
    by blast
  then have "state (node (worlds D i)) \<noteq> LEADER" by simp
  from vote_timer_run [OF assms(1,2) this] obtain E where E: "cluster_run n D E" "in_flight E = in_flight D"
    "worlds E = (worlds D)(i := (worlds D i)\<lparr>node := candidate_in (cur_term (node (worlds D i)) + 1) (- 1) 0 (node (worlds D i)), vote_timers := vote_timers (worlds D i) + 1\<rparr>)"
    by blast
  have "worlds E = (worlds C)(i := (worlds C i)\<lparr>node := candidate_in (cur_term (node (worlds C i)) + int (Suc (Suc k))) (- 1) 0 (node (worlds C i)), vote_timers := v + 1\<rparr>)"
    using D(3) by (simp add: E(3) ac_simps)
  with E(1,2) D(1,2) show ?case by (intro exI [of _ E] exI [of _ "v + 1"]) (auto intro: cluster_run_trans)
qed

lemma asks_for_votes:
  assumes "wire_format w" and "env_wire env = w" and "world_typed w s" and "voted_for (node s) = - 1" and "0 < vote_timers s"
  obtains s' li lt where "node_step env VoteDelay s = Inr s'" "node s' = (node s)\<lparr>voted_for := node_id (node s), votes_collected := votes_collected (node s) + 1\<rparr>"
    "sent s' = sent s @ [(ToAll, set_partition_id (partition_id (node s)) (vote_request (cur_term (node s)) (node_id (node s)) li lt))]"
proof -
  from wire_format.vote_delay_typed [OF assms(1-3)] obtain s' where s': "vote_delay_expired env s = Inr s'" by (auto simp: returns_typed_def)
  with assms(4,5) show ?thesis
    by (intro that [of s' "le_index (last (log_entries (node s)))" "le_term (last (log_entries (node s)))"])
      (auto simp: vote_delay_expired_def send_vote_request_def log_back_def Let_def split: if_splits dest!: post_message_Inr)
qed

lemma voter_grants:
  assumes "wire_format w" and "env_wire env = w" and "world_typed w s" and "state (node s) \<noteq> LEADER" and "cur_term (node s) < t" and "in_int32 t"
  obtains s' where "node_step env (Receive (set_partition_id p (vote_request t c li lt))) s = Inr s'"
    "sent s' = sent s @ [(ToNode c, set_partition_id (partition_id (node s)) (vote_response t 1))]"
proof -
  let ?m = "set_partition_id p (vote_request t c li lt)"
  from wire_format.vote_request_typed [OF assms(1-3), of "get_vote_request ?m"] assms(6) obtain s' where
    s': "handle_request_vote_request env (get_vote_request ?m) s = Inr s'" by (auto simp: returns_typed_def)
  have "state (node s) = CANDIDATE \<or> state (node s) = FOLLOWER" using assms(4) by (cases "state (node s)") simp_all
  with s' assms(5) have "sent s' = sent s @ [(ToNode c, set_partition_id (partition_id (node s)) (vote_response t 1))]"
    by (auto simp: handle_request_vote_request_def invalid_vote_request_def Let_def dest!: post_message_Inr)
  moreover have "node_step env (Receive ?m) s = Inr s'" using s' by (simp add: local_message_handler_def message_types)
  ultimately show ?thesis by (rule that [rotated])
qed

lemma candidate_counts:
  assumes "state (node s) = CANDIDATE"
  shows "node_step env (Receive (set_partition_id p (vote_response (cur_term (node s)) 1))) s =
    Inr (s\<lparr>node := (node s)\<lparr>state := (if votes_collected (node s) + 1 > total_nodes (node s) div 2 then LEADER else CANDIDATE), votes_collected := votes_collected (node s) + 1\<rparr>\<rparr>)"
  using assms by (auto simp: local_message_handler_def message_types handle_request_vote_response_def update_node_def Let_def)

section \<open>The votes\<close>

text \<open>Two receptions: a voter receives the request of the candidate, and the candidate receives its answer.\<close>

lemma vote_round:
  fixes env :: node_env
  assumes "wire_format w" and "env_wire env = w" and ids: "0 \<le> i" "i < n" "0 \<le> j" "j < n" "j \<noteq> i"
    and cand: "state (node (worlds C i)) = CANDIDATE" "cur_term (node (worlds C i)) = t"
    and voter: "world_typed w (worlds C j)" "state (node (worlds C j)) \<noteq> LEADER" "cur_term (node (worlds C j)) < t" and t: "in_int32 t"
    and fly: "(i, j, m) \<in> set (in_flight C)" and m: "m = set_partition_id p (vote_request t i li lt)"
  defines "k \<equiv> votes_collected (node (worlds C i)) + 1"
  obtains D where "cluster_run n C D" "\<And>x. x \<noteq> i \<Longrightarrow> x \<noteq> j \<Longrightarrow> worlds D x = worlds C x" "set (in_flight C) - {(i, j, m)} \<subseteq> set (in_flight D)"
    "node (worlds D i) = (node (worlds C i))\<lparr>state := (if k > total_nodes (node (worlds C i)) div 2 then LEADER else CANDIDATE), votes_collected := k\<rparr>"
proof -
  from fly obtain xs ys where split: "in_flight C = xs @ (i, j, m) # ys" by (meson split_list)
  obtain s where s: "node_step env (Receive m) (worlds C j) = Inr s"
    "sent s = sent (worlds C j) @ map (Pair (ToNode i)) [set_partition_id (partition_id (node (worlds C j))) (vote_response t 1)]"
    using voter_grants [OF assms(1,2) voter t, of p i li lt] unfolding m by auto
  define r where "r = set_partition_id (partition_id (node (worlds C j))) (vote_response t 1)"
  define C1 where "C1 = node_acts n j s (moved (xs @ ys) (i, j, m) C)"
  have run1: "cluster_run n C C1" using cluster_receive [OF cluster_begin split s(1)] by (simp add: C1_def moved_def)
  note one = run1 answers_worlds [OF s(2) ids(1,2) ids(5) [symmetric], of "xs @ ys" m, folded C1_def r_def]
  let ?s = "(worlds C i)\<lparr>node := (node (worlds C i))\<lparr>state := (if k > total_nodes (node (worlds C i)) div 2 then LEADER else CANDIDATE), votes_collected := k\<rparr>\<rparr>"
  have "worlds C1 i = worlds C i" using ids(5) by (simp add: one(2))
  then have step: "node_step env (Receive r) (worlds C1 i) = Inr ?s" "sent ?s = sent (worlds C1 i) @ map (Pair (ToNode j)) []"
    using candidate_counts [OF cand(1), of env "partition_id (node (worlds C j))", unfolded cand(2), folded r_def] by (simp_all add: k_def)
  have fly1: "in_flight C1 = (xs @ ys) @ (j, i, r) # []" using one(3) by simp
  define D where "D = node_acts n i ?s (moved ((xs @ ys) @ []) (j, i, r) C1)"
  have run2: "cluster_run n C1 D" using cluster_receive [OF cluster_begin fly1 step(1)] by (simp add: D_def moved_def)
  note two = run2 answers_worlds [OF step(2) ids(3-5), of "(xs @ ys) @ []" r, folded D_def]
  show ?thesis
  proof (rule that [of D])
    show "cluster_run n C D" using two(1) one(1) by (rule cluster_run_trans)
    show "worlds D x = worlds C x" if "x \<noteq> i" "x \<noteq> j" for x using that by (simp add: two(2) one(2))
    show "set (in_flight C) - {(i, j, m)} \<subseteq> set (in_flight D)" using two(3) by (auto simp: split)
  qed (simp add: two(2))
qed

lemma votes_collected_run:
  fixes env :: node_env
  assumes "wire_format w" and "env_wire env = w" and "0 \<le> i" and "i < n" and "in_int32 t" and m: "m = set_partition_id p (vote_request t i li lt)"
    and "distinct js" and "js \<noteq> []"
    and "\<forall>j \<in> set js. 0 \<le> j \<and> j < n \<and> j \<noteq> i \<and> world_typed w (worlds C j) \<and> state (node (worlds C j)) \<noteq> LEADER \<and> cur_term (node (worlds C j)) < t \<and> (i, j, m) \<in> set (in_flight C)"
    and "state (node (worlds C i)) = CANDIDATE" and "cur_term (node (worlds C i)) = t"
    and "votes_collected (node (worlds C i)) + int (length js) > total_nodes (node (worlds C i)) div 2"
  shows "\<exists>D. cluster_run n C D \<and> state (node (worlds D i)) = LEADER \<and> cur_term (node (worlds D i)) = t \<and>
    log_entries (node (worlds D i)) = log_entries (node (worlds C i))"
  using assms(7-)
proof (induction js arbitrary: C)
  case (Cons j js)
  let ?k = "votes_collected (node (worlds C i)) + 1"
  obtain D where D: "cluster_run n C D" "\<And>x. x \<noteq> i \<Longrightarrow> x \<noteq> j \<Longrightarrow> worlds D x = worlds C x" "set (in_flight C) - {(i, j, m)} \<subseteq> set (in_flight D)"
    "node (worlds D i) = (node (worlds C i))\<lparr>state := (if ?k > total_nodes (node (worlds C i)) div 2 then LEADER else CANDIDATE), votes_collected := ?k\<rparr>"
    by (rule vote_round [OF assms(1-4), of j C t m p li lt]) (use Cons.prems assms(5) m in auto)
  show ?case
  proof (cases "?k > total_nodes (node (worlds C i)) div 2")
    case True
    with D(1,4) Cons.prems(5) show ?thesis by (intro exI [of _ D]) simp
  next
    case False
    then have "js \<noteq> []" using Cons.prems(6) by auto
    moreover have same: "\<forall>x \<in> set js. worlds D x = worlds C x" using Cons.prems(1,3) D(2) by auto
    have "\<forall>x \<in> set js. 0 \<le> x \<and> x < n \<and> x \<noteq> i \<and> world_typed w (worlds C x) \<and> state (node (worlds C x)) \<noteq> LEADER \<and> cur_term (node (worlds C x)) < t \<and>
        (i, x, m) \<in> set (in_flight D)"
      using Cons.prems(1,3) D(3) by auto
    then have "\<forall>x \<in> set js. 0 \<le> x \<and> x < n \<and> x \<noteq> i \<and> world_typed w (worlds D x) \<and> state (node (worlds D x)) \<noteq> LEADER \<and> cur_term (node (worlds D x)) < t \<and>
        (i, x, m) \<in> set (in_flight D)" using same by simp
    ultimately have "\<exists>E. cluster_run n D E \<and> state (node (worlds E i)) = LEADER \<and> cur_term (node (worlds E i)) = t \<and>
        log_entries (node (worlds E i)) = log_entries (node (worlds D i))"
      using Cons.IH [of D] Cons.prems(1,4-6) D(4) False by simp
    then show ?thesis using D(1,4) by (auto intro: cluster_run_trans)
  qed
qed simp

text \<open>
  C5: a majority elects a leader: let node \<open>i\<close> of a cluster with more than one node not be a leader, and let the nodes that are not leaders, which include it, be a majority. Whatever terms the nodes are in and
  whatever is on the network, there is a run at the end of which node \<open>i\<close> leads a term that is later than all the terms of before, with the log it had.
\<close>

theorem majority_elects_leader:
  fixes env :: node_env
  assumes "wire_format (env_wire env)" and "cluster_typed (env_wire env) n C" and "1 < n" and "0 \<le> i" and "i < n" and "state (node (worlds C i)) \<noteq> LEADER"
    and "n < 2 * int (card {j. 0 \<le> j \<and> j < n \<and> state (node (worlds C j)) \<noteq> LEADER})"
    and "\<forall>j. 0 \<le> j \<and> j < n \<longrightarrow> cur_term (node (worlds C j)) < t" and "t < 2 ^ 31"
  shows "\<exists>D. cluster_run n C D \<and> state (node (worlds D i)) = LEADER \<and> cur_term (node (worlds D i)) = t \<and>
    log_entries (node (worlds D i)) = log_entries (node (worlds C i))"
proof -
  let ?w = "env_wire env" and ?a = "worlds C i"
  define js where "js = filter (\<lambda>j. j \<noteq> i \<and> state (node (worlds C j)) \<noteq> LEADER) [0..n - 1]"
  have typed: "world_typed ?w (worlds C j) \<and> node_id (node (worlds C j)) = j \<and> total_nodes (node (worlds C j)) = n" if "0 \<le> j" "j < n" for j
    using assms(2) that by (simp add: cluster_typed_def)
  have "int (Suc (nat (t - cur_term (node ?a)) - 1)) = t - cur_term (node ?a)" using assms(4,5,8) by auto
  with campaign [OF assms(4-6), of "nat (t - cur_term (node ?a)) - 1"] obtain D v where D: "cluster_run n C D" "in_flight D = in_flight C" "0 < v"
    "worlds D = (worlds C)(i := ?a\<lparr>node := candidate_in t (- 1) 0 (node ?a), vote_timers := v\<rparr>)" by auto
  have node_i: "node_typed ?w (node ?a)" using typed [OF assms(4,5)] by (simp add: world_typed_def)
  then have t: "in_int32 t" using assms(4,5,8,9) by (auto simp: node_typed_def in_int32_def)
  with node_i have "node_typed ?w (candidate_in t (- 1) 0 (node ?a))" by (simp add: node_typed_def candidate_in_def)
  then have wt: "world_typed ?w (worlds D i)" using typed [OF assms(4,5)] D(4) by (simp add: world_typed_def)
  have nd: "node (worlds D i) = candidate_in t (- 1) 0 (node ?a)" "vote_timers (worlds D i) = v" using D(4) by simp_all
  have id: "node_id (node ?a) = i" using typed [OF assms(4,5)] by blast
  obtain s li lt where s: "node_step env VoteDelay (worlds D i) = Inr s"
    "node s = (node (worlds D i))\<lparr>voted_for := node_id (node (worlds D i)), votes_collected := votes_collected (node (worlds D i)) + 1\<rparr>"
    "sent s = sent (worlds D i) @ [(ToAll, set_partition_id (partition_id (node ?a)) (vote_request t i li lt))]"
    by (rule asks_for_votes [OF assms(1) refl wt, unfolded nd candidate_in_fields id]) (use D(3) nd id in simp_all)
  have si: "node s = candidate_in t i 1 (node ?a)" using s(2) nd id by (simp add: candidate_in_def)
  let ?m = "set_partition_id (partition_id (node ?a)) (vote_request t i li lt)" and ?E = "node_acts n i s D"
  have E: "cluster_run n C ?E" by (rule cluster_outside [OF D(1) assms(4,5) _ s(1)]) simp
  have js: "set js = {j. 0 \<le> j \<and> j < n \<and> state (node (worlds C j)) \<noteq> LEADER} - {i}" "distinct js" by (auto simp: js_def)
  have "finite {j. 0 \<le> j \<and> j < n \<and> state (node (worlds C j)) \<noteq> LEADER}" by (rule finite_subset [of _ "{0..n}"]) auto
  with js have "card {j. 0 \<le> j \<and> j < n \<and> state (node (worlds C j)) \<noteq> LEADER} = Suc (length js)"
    using assms(4-6) distinct_card [OF js(2)] card_Suc_Diff1 [of "{j. 0 \<le> j \<and> j < n \<and> state (node (worlds C j)) \<noteq> LEADER}" i] by simp
  with assms(3,7) have maj: "js \<noteq> []" "1 + int (length js) > n div 2" by auto
  have votes: "\<forall>j \<in> set js. 0 \<le> j \<and> j < n \<and> j \<noteq> i \<and> world_typed ?w (worlds ?E j) \<and> state (node (worlds ?E j)) \<noteq> LEADER \<and> cur_term (node (worlds ?E j)) < t \<and>
      (i, j, ?m) \<in> set (in_flight ?E)"
  proof
    fix j assume "j \<in> set js"
    then have j: "0 \<le> j" "j < n" "j \<noteq> i" "state (node (worlds C j)) \<noteq> LEADER" using js(1) by auto
    have "worlds ?E j = worlds C j" using D(4) j(3) by simp
    moreover have "(i, j, ?m) \<in> set (in_flight ?E)" using s(3) j by simp
    ultimately show "0 \<le> j \<and> j < n \<and> j \<noteq> i \<and> world_typed ?w (worlds ?E j) \<and> state (node (worlds ?E j)) \<noteq> LEADER \<and> cur_term (node (worlds ?E j)) < t \<and>
      (i, j, ?m) \<in> set (in_flight ?E)" using j typed [OF j(1,2)] assms(8) by simp
  qed
  have "\<exists>F. cluster_run n ?E F \<and> state (node (worlds F i)) = LEADER \<and> cur_term (node (worlds F i)) = t \<and> log_entries (node (worlds F i)) = log_entries (node (worlds ?E i))"
    by (rule votes_collected_run [OF assms(1) refl assms(4,5) t refl js(2) maj(1) votes]) (use typed [OF assms(4,5)] si maj(2) in simp_all)
  then obtain F where "cluster_run n ?E F" "state (node (worlds F i)) = LEADER" "cur_term (node (worlds F i)) = t" "log_entries (node (worlds F i)) = log_entries (node ?a)"
    using si by auto
  then show ?thesis using E by (auto intro: cluster_run_trans)
qed

theorem majority_elects_leader_witness:
  "\<exists>D. cluster_run 3 lagging_cluster D \<and> state (node (worlds D 1)) = LEADER \<and> cur_term (node (worlds D 1)) = 3 \<and>
     log_entries (node (worlds D 1)) = [sentinel, stale]"
proof -
  have "cluster_typed (env_wire sample_env) 3 lagging_cluster"
    unfolding cluster_typed_def sample_env_fields
  proof (intro allI impI conjI)
    fix i :: int assume i: "0 \<le> i \<and> i < 3"
    then have "in_int32 i" by (simp add: in_int32_def)
    then show "world_typed varint_wire (worlds lagging_cluster i)" by (rule lagging_typed)
    show "node_id (node (worlds lagging_cluster i)) = i" "total_nodes (node (worlds lagging_cluster i)) = 3"
      by (simp_all add: lagging_cluster_def new_cluster_def)
  qed
  moreover have fields: "state (node (worlds lagging_cluster i)) = (if i = 0 then LEADER else FOLLOWER)" "cur_term (node (worlds lagging_cluster i)) < 3" for i
    by (simp_all add: lagging_cluster_def new_cluster_def)
  have "{j. 0 \<le> j \<and> j < 3 \<and> state (node (worlds lagging_cluster j)) \<noteq> LEADER} = {1, 2}" by (auto simp: fields)
  then have "3 < 2 * int (card {j. 0 \<le> j \<and> j < 3 \<and> state (node (worlds lagging_cluster j)) \<noteq> LEADER})" by simp
  ultimately show ?thesis
    using majority_elects_leader [of sample_env 3 lagging_cluster 1 3] varint.wire_format_axioms lagging_facts(5) fields by simp
qed

section \<open>A cluster of one node\<close>

lemma no_leader_by_itself:
  assumes "node_step env ev s = Inr s'" and "from_outside ev" and "state (node s) \<noteq> LEADER"
  shows "state (node s') \<noteq> LEADER \<and> log_entries (node s') = log_entries (node s)"
proof (cases ev)
  case (Receive m)
  with assms(2) have "msg_type m = CLIENT_OPEN_QUEUE \<or> msg_type m = CLIENT_PUT_MESSAGE \<or> msg_type m = CLIENT_COMMIT_MESSAGE" by simp
  with Receive assms(1,3) show ?thesis
    by (auto simp: local_message_handler_def message_types handle_client_put_message_def handle_client_commit_message_def handle_client_open_queue_def
        dest!: reply_to_client_frame)
qed (use assms in \<open>auto simp: send_heartbeat_def check_heartbeat_def vote_delay_expired_def send_vote_request_def consumer_disconnected_def trigger_message_delivery_def Let_def
    split: if_splits dest!: post_message_Inr\<close>)

lemma nobody_to_talk_to: "spread 1 0 x = []"
  by (cases x rule: spread.cases [of "(1, 0, _)"]) auto

text \<open>
  C36: a cluster of one node is never available: in every run the node is not a leader, since it counts its votes only when it receives the answer of another node, and its log stays as it was, since only
  a leader accepts messages of clients.
\<close>

theorem single_node_never_leads:
  assumes "cluster_run 1 (new_cluster nodes) C" and "state (nodes 0) \<noteq> LEADER"
  shows "state (node (worlds C 0)) \<noteq> LEADER \<and> log_entries (node (worlds C 0)) = log_entries (nodes 0)"
proof -
  have "in_flight C = [] \<and> state (node (worlds C 0)) \<noteq> LEADER \<and> log_entries (node (worlds C 0)) = log_entries (nodes 0)"
    using assms(1)
  proof (induction "new_cluster nodes" C rule: cluster_run.induct)
    case cluster_begin
    then show ?case using assms(2) by (simp add: new_cluster_def)
  next
    case (cluster_outside D i ev env s)
    then have "i = 0" by simp
    with cluster_outside no_leader_by_itself [OF cluster_outside.hyps(6,5)] show ?case by (simp add: nobody_to_talk_to)
  qed simp_all
  then show ?thesis by blast
qed

text \<open>A node that is started alone, asks for votes, has all the votes there are, and is sent a message.\<close>

definition lone_node :: cluster_node where
  "lone_node = initial_node \<lparr>cfg_partition_id = 0, cfg_node_id = 0, cfg_total_nodes = 1\<rparr> (ClusterNodeStorage_new 0 0 0) 0 0"

definition lone_run :: "move list" where
  "lone_run = [Act sample_env 0 VoteTimer, Act sample_env 0 VoteDelay, Act sample_env 0 (put_event ''x'')]"

lemma lone_run_plays:
  "map_sum id (\<lambda>C. let n = node (worlds C 0) in (cur_term n, voted_for n, votes_collected n)) (play 1 lone_run (new_cluster (\<lambda>_. lone_node))) = Inr (1, 0, 1)"
  by code_simp

theorem single_node_never_leads_witness:
  "\<exists>C. cluster_run 1 (new_cluster (\<lambda>_. lone_node)) C \<and> cur_term (node (worlds C 0)) = 1 \<and> votes_collected (node (worlds C 0)) > total_nodes lone_node div 2 \<and>
     state (node (worlds C 0)) \<noteq> LEADER \<and> log_entries (node (worlds C 0)) = [sentinel]"
proof -
  obtain C where C: "play 1 lone_run (new_cluster (\<lambda>_. lone_node)) = Inr C" "cur_term (node (worlds C 0)) = 1" "votes_collected (node (worlds C 0)) = 1"
    using lone_run_plays by (cases "play 1 lone_run (new_cluster (\<lambda>_. lone_node))") (auto simp: Let_def)
  have run: "cluster_run 1 (new_cluster (\<lambda>_. lone_node)) C" using play_run [OF C(1)] by (rule orderly_run_is_run)
  have n: "state lone_node \<noteq> LEADER" "log_entries lone_node = [sentinel]" "total_nodes lone_node = 1" by (simp_all add: lone_node_def initial_node_def Let_def)
  with single_node_never_leads [OF run] run C(2,3) show ?thesis by auto
qed

end
