(* ===== verification/Cluster_Service.thy ===== *)
theory Cluster_Service
  imports Cluster_Progress
begin

text \<open>
  The service of a cluster from end to end: a message that a client puts is replicated, committed, applied to the queue of the leader and written to one of the consumers of the partition. The
  replication is that of Cluster_Progress; here is what the leader does with its queue and its consumers in such a run.
\<close>

section \<open>A message in the queue of the leader\<close>

text \<open>Applying an entry with another id changes nothing of a message, and applying the entry that adds it makes it wait.\<close>

lemma apply_entry_message:
  assumes "queue_inv q"
  shows "queue_inv (apply_entry e q)"
    and "le_message_id e \<noteq> r \<Longrightarrow> status_of (apply_entry e q) r = status_of q r \<and> map_find (message_store (apply_entry e q)) r = map_find (message_store q) r"
    and "le_operation e = LogEntry_ADD \<Longrightarrow> status_of q (le_message_id e) = Unknown \<Longrightarrow> status_of (apply_entry e q) (le_message_id e) = Undelivered \<and>
      map_find (message_store (apply_entry e q)) (le_message_id e) = Some (le_message e)"
    and "le_operation e = LogEntry_ADD \<Longrightarrow> status_of q (le_message_id e) \<noteq> Unknown \<Longrightarrow> apply_entry e q = q"
proof -
  show "queue_inv (apply_entry e q)" using assms by (simp add: apply_entry_def keeps_inv)
  show "status_of (apply_entry e q) r = status_of q r \<and> map_find (message_store (apply_entry e q)) r = map_find (message_store q) r" if "le_message_id e \<noteq> r"
    using that mq.status_put [OF assms, of "le_message_id e" "le_message e" r] mq.status_commit [OF assms, of "le_message_id e" r]
    by (auto simp: apply_entry_def insert_message_def commit_message_def forget_consumer_def case_prod_beta Let_def)
  note unknown = queue_inv_status(1) [OF assms, of "le_message_id e"]
  show "status_of (apply_entry e q) (le_message_id e) = Undelivered \<and> map_find (message_store (apply_entry e q)) (le_message_id e) = Some (le_message e)"
    if "le_operation e = LogEntry_ADD" "status_of q (le_message_id e) = Unknown"
    using that mq.status_put [OF assms, of "le_message_id e" "le_message e" "le_message_id e"] unknown by (simp add: apply_entry_def insert_message_def)
  show "apply_entry e q = q" if "le_operation e = LogEntry_ADD" "status_of q (le_message_id e) \<noteq> Unknown"
    using that unknown by (simp add: apply_entry_def insert_message_def)
qed

text \<open>Entry \<open>k\<close> of a log is the only one of its message, and adds it.\<close>

definition adds_at :: "nat \<Rightarrow> message_id_type \<Rightarrow> LogEntry list \<Rightarrow> bool" where
  "adds_at k r log \<longleftrightarrow> 0 < k \<and> k < length log \<and> le_operation (log ! k) = LogEntry_ADD \<and> (\<forall>i < length log. le_message_id (log ! i) = r \<longleftrightarrow> i = k)"

lemma commit_all_message:
  fixes "is" :: "int list"
  assumes "queue_inv (queue n)" and "adds_at k r (log_entries n)"
  defines "q \<equiv> queue (fold commit_log_entry is n)"
  shows "queue_inv q \<and> (if int k \<in> set is \<and> status_of (queue n) r = Unknown
      then status_of q r = Undelivered \<and> map_find (message_store q) r = Some (le_message (log_entries n ! k))
      else status_of q r = status_of (queue n) r \<and> map_find (message_store q) r = map_find (message_store (queue n)) r)"
  using assms(1,2) unfolding q_def
proof (induction "is" arbitrary: n)
  case (Cons i "is")
  let ?log = "log_entries n" let ?n = "commit_log_entry i n"
  have log: "log_entries ?n = ?log" using commit_log_entry_frame [of i n] by auto
  note e = apply_entry_message [OF Cons.prems(1), of "?log ! nat i"]
  have k: "le_message_id (?log ! k) = r" "le_operation (?log ! k) = LogEntry_ADD" "0 < k" "k < length ?log"
    "\<And>j. j < length ?log \<Longrightarrow> j \<noteq> k \<Longrightarrow> le_message_id (?log ! j) \<noteq> r" using Cons.prems(2) by (auto simp: adds_at_def)
  have inv: "queue_inv (queue ?n)" using Cons.prems(1) e(1) by (simp add: commit_log_entry_def)
  have one: "if i = int k \<and> status_of (queue n) r = Unknown
      then status_of (queue ?n) r = Undelivered \<and> map_find (message_store (queue ?n)) r = Some (le_message (?log ! k))
      else status_of (queue ?n) r = status_of (queue n) r \<and> map_find (message_store (queue ?n)) r = map_find (message_store (queue n)) r"
  proof (cases "i = int k")
    case True
    then show ?thesis using e(3,4) k by (auto simp: commit_log_entry_def)
  next
    case False
    then show ?thesis using e(2) [of r] k(5) [of "nat i"] by (auto simp: commit_log_entry_def)
  qed
  have "adds_at k r (log_entries ?n)" using Cons.prems(2) log by simp
  from Cons.IH [OF inv this] one show ?case unfolding log by (auto split: if_splits)
qed simp

section \<open>A leader that serves consumers\<close>

text \<open>
  Nothing waits at a leader with consumers \<open>cs\<close>, and the message of entry \<open>k\<close> is unknown to its queue until the entry is committed; from then on it is delivered to one of the consumers, and the message
  with its text has been written to that consumer.
\<close>

definition serving :: "partition_id_type \<Rightarrow> client_id_type list \<Rightarrow> nat \<Rightarrow> message_id_type \<Rightarrow> LogEntry list \<Rightarrow> world \<Rightarrow> bool" where
  "serving p cs k r log s \<longleftrightarrow> (let n = node s in
     partition_id n = p \<and> state n = LEADER \<and> log_entries n = log \<and> queue_inv (queue n) \<and> active p (clients s) \<and> consumers p (clients s) = cs \<and> undelivered_messages (queue n) = [] \<and>
     (if commit_index n < int k then status_of (queue n) r = Unknown
      else \<exists>c \<in> set cs. status_of (queue n) r = Delivered c \<and> set_partition_id p (server_send r (le_message (log ! k))) \<in> set (inbox (clients s) c)))"

lemma serving_frame:
  assumes "serving p cs k r log s" and "clients s' = clients s"
    and "state (node s') = state (node s)" "partition_id (node s') = partition_id (node s)" "log_entries (node s') = log_entries (node s)"
      "queue (node s') = queue (node s)" "commit_index (node s') = commit_index (node s)"
  shows "serving p cs k r log s'"
  using assms(1) unfolding serving_def Let_def assms(2-) .

lemma serving_commit:
  assumes "serving p cs k r log s" and "adds_at k r log" and "- 1 \<notin> set cs" and "commit_from_majority env i s = Inr s'"
  shows "serving p cs k r log s'"
proof (cases "commit_index (node s) < i \<and> int (count_synced_nodes i (node s)) + 1 > total_nodes (node s) div 2")
  case False
  with assms(4) have "s' = s" by (auto simp: commit_from_majority_def)
  with assms(1) show ?thesis by simp
next
  case True
  let ?is = "[commit_index (node s) + 1..i]" let ?s = "update_node (fold commit_log_entry ?is) s"
  let ?n = "node s"
  note s = assms(1) [unfolded serving_def Let_def]
  have s: "partition_id ?n = p" "state ?n = LEADER" "log_entries ?n = log" "queue_inv (queue ?n)" "active p (clients s)" "consumers p (clients s) = cs" "undelivered_messages (queue ?n) = []"
    and st: "if commit_index ?n < int k then status_of (queue ?n) r = Unknown
      else \<exists>c \<in> set cs. status_of (queue ?n) r = Delivered c \<and> set_partition_id p (server_send r (le_message (log ! k))) \<in> set (inbox (clients s) c)"
    using s by blast+
  obtain q where fq: "fold commit_log_entry ?is ?n = ?n\<lparr>queue := q\<rparr>" using commit_all_frame [of ?is ?n] by blast
  then have q: "node ?s = ?n\<lparr>queue := q\<rparr>" and sel: "queue (?n\<lparr>queue := q\<rparr>) = q" by simp_all
  have qm: "queue_inv q \<and> (if int k \<in> set ?is \<and> status_of (queue ?n) r = Unknown
      then status_of q r = Undelivered \<and> map_find (message_store q) r = Some (le_message (log ! k))
      else status_of q r = status_of (queue ?n) r \<and> map_find (message_store q) r = map_find (message_store (queue ?n)) r)"
    using commit_all_message [OF s(4), of k r ?is] assms(2) unfolding s(3) fq sel by blast
  from True assms(4) obtain v where v: "trigger_message_delivery env ?s = Inr v"
    and u: "store_entries (max (commit_index (node v)) i) (i + 1) (update_node (\<lambda>n. n\<lparr>commit_index := max (commit_index n) i\<rparr>) v) = Inr s'"
    by (auto simp: commit_from_majority_def commit_log_entries_def Let_def)
  obtain q' cm where v': "v = ?s\<lparr>node := (node ?s)\<lparr>queue := q'\<rparr>, clients := cm\<rparr>" and d: "queue_inv q'" "undelivered_messages q' = []"
    "active p cm" "consumers p cm = cs" "status_of q r \<noteq> Undelivered \<Longrightarrow> status_of q' r = status_of q r"
    "status_of q r = Undelivered \<Longrightarrow> \<exists>c \<in> set cs. status_of q' r = Delivered c \<and> outgoing (node ?s) r \<in> set (inbox cm c)"
    "\<And>c. set (inbox (clients s) c) \<subseteq> set (inbox cm c)"
    by (rule delivery_drains [OF v]) (use q qm s assms(3) in auto)
  from store_entries_frame [OF u] obtain sto where "s' = (update_node (\<lambda>n. n\<lparr>commit_index := max (commit_index n) i\<rparr>) v)\<lparr>node := (node (update_node (\<lambda>n. n\<lparr>commit_index := max (commit_index n) i\<rparr>) v))\<lparr>node_storage := sto\<rparr>\<rparr>"
    by blast
  then have s': "node s' = ?n\<lparr>queue := q', commit_index := i, node_storage := sto\<rparr>" "clients s' = cm" using True by (simp_all add: v' fq)
  have "if i < int k then status_of q' r = Unknown
      else \<exists>c \<in> set cs. status_of q' r = Delivered c \<and> set_partition_id p (server_send r (le_message (log ! k))) \<in> set (inbox cm c)"
  proof (cases "commit_index ?n < int k")
    case True
    with st qm have "status_of q r = (if int k \<le> i then Undelivered else Unknown)" "int k \<le> i \<Longrightarrow> map_find (message_store q) r = Some (le_message (log ! k))"
      by (auto split: if_splits)
    with d(5,6) show ?thesis by (auto simp: outgoing_def fq s(1))
  next
    case False
    with st obtain c where c: "c \<in> set cs" "status_of (queue ?n) r = Delivered c" "set_partition_id p (server_send r (le_message (log ! k))) \<in> set (inbox (clients s) c)" by auto
    with qm have "status_of q r = Delivered c" by auto
    with d(5) d(7) [of c] c \<open>commit_index (node s) < i \<and> _\<close> False show ?thesis by auto
  qed
  with s d show ?thesis by (simp add: serving_def Let_def s')
qed

lemma serving_step:
  assumes "serving p cs k r log s" and "adds_at k r log" and "- 1 \<notin> set cs" and "calm ev" and "node_step env ev s = Inr s'"
  shows "serving p cs k r log s'"
proof (cases ev)
  case HeartbeatTimer
  with assms(5) show ?thesis
    by (intro serving_frame [OF assms(1)]) (auto simp: send_heartbeat_def split: if_splits dest!: post_message_Inr)
next
  case (Receive m)
  let ?resp = "get_append_response m" let ?f = "aes_follower_id ?resp" let ?s = "request_answered ?f s"
  have "serving p cs k r log ?s" by (rule serving_frame [OF assms(1)]) (simp_all add: request_answered_def case_prod_beta Let_def)
  note serving = serving_frame [OF this]
  from Receive assms(4,5) obtain t where t: "(if aes_append_result_success ?resp \<noteq> 0 then append_succeeded env ?f (aes_last_index_synced ?resp) ?s
      else Inr (append_failed ?resp ?f ?s)) = Inr t" and upd: "trigger_entry_update env ?f t = Inr s'"
    by (auto simp: local_message_handler_def message_types handle_append_entries_response_def Let_def)
  have "serving p cs k r log t"
  proof (cases "aes_append_result_success ?resp = 0")
    case True
    with t show ?thesis by (intro serving) (auto simp: append_failed_def case_prod_beta Let_def)
  next
    case False
    let ?t = "update_node (\<lambda>n. n\<lparr>matched_index := map_set ?f (aes_last_index_synced ?resp) (matched_index n)\<rparr>) ?s"
    from False t obtain u where u: "commit_from_majority env (aes_last_index_synced ?resp) ?t = Inr u"
      and tu: "clients t = clients u" "state (node t) = state (node u)" "partition_id (node t) = partition_id (node u)" "log_entries (node t) = log_entries (node u)"
        "queue (node t) = queue (node u)" "commit_index (node t) = commit_index (node u)"
      by (auto simp: append_succeeded_def case_prod_beta Let_def)
    have "serving p cs k r log ?t" by (rule serving) simp_all
    from serving_frame [OF serving_commit [OF this assms(2,3) u] tu] show ?thesis .
  qed
  then show ?thesis by (rule serving_frame) (use trigger_entry_update_frame [OF upd] in \<open>auto simp: replicated_def\<close>)
qed (use assms(4) in simp_all)

section \<open>A message of a client\<close>

lemma trigger_other:
  assumes "trigger_entry_update env g s = Inr s'" and "g \<noteq> f"
  shows "next_of f (node s') = next_of f (node s) \<and> pending_of f (node s') = pending_of f (node s)"
  using assms
  by (auto simp: trigger_entry_update_def next_of_def pending_of_def case_prod_beta Let_def map_find_index split: if_splits dest!: post_message_Inr)

lemma triggers_once:
  assumes "forEach (trigger_entry_update env) gs s = Inr s'" and "distinct gs"
  shows "next_of f (node s') = next_of f (node s) \<and> pending_of f (node s) \<le> pending_of f (node s') \<and>
    pending_of f (node s') \<le> pending_of f (node s) + (if f \<in> set gs then 1 else 0)"
  using assms
proof (induction gs arbitrary: s)
  case (Cons g gs)
  then obtain t where t: "trigger_entry_update env g s = Inr t" "forEach (trigger_entry_update env) gs t = Inr s'" by auto
  have "next_of f (node t) = next_of f (node s) \<and> pending_of f (node s) \<le> pending_of f (node t) \<and>
      pending_of f (node t) \<le> pending_of f (node s) + (if f = g then 1 else 0)"
    using trigger_entry_update_result [OF t(1)] trigger_other [OF t(1), of f] by (cases "g = f") (auto split: if_splits)
  with Cons.IH [OF t(2)] Cons.prems(2) show ?case by (auto split: if_splits)
qed simp

lemma behind_append:
  assumes "behind F L" and "le_index e = int (length L)"
  shows "behind F (L @ [e])"
proof -
  have "F \<noteq> []" "L \<noteq> []" using assms(1) by (auto simp: behind_def indexed_def)
  then show ?thesis using assms by (auto simp: behind_def indexed_def logs_match_def nth_append less_Suc_eq)
qed

lemma put_in_touch:
  fixes env :: node_env
  assumes "wire_format (env_wire env)" and "env_typed env" and touch: "in_touch (env_wire env) n l f C" and "map_ok (next_index (node (worlds C l)))"
    and m: "msg_type m = CLIENT_PUT_MESSAGE" "message_typed (env_wire env) (node (worlds C l)) m"
  defines "e \<equiv> log_entry (int (length (log_of C l))) (cur_term (node (worlds C l))) (random_id env) LogEntry_ADD (cpm_message (get_put_message_request m))"
  obtains D where "cluster_run n C D" "in_touch (env_wire env) n l f D" "log_of D l = log_of C l @ [e]" "next_of f (node (worlds D l)) = next_of f (node (worlds C l))"
    "pending_of f (node (worlds C l)) \<le> pending_of f (node (worlds D l))" "pending_of f (node (worlds D l)) \<le> pending_of f (node (worlds C l)) + 1"
    "\<exists>ni pm. node (worlds D l) = (node (worlds C l))\<lparr>log_entries := log_of C l @ [e], next_index := ni, pending_append_reqs := pm\<rparr>" "clients (worlds D l) = clients (worlds C l)"
proof -
  let ?a = "worlds C l"
  note t = touch [unfolded in_touch_def Let_def]
  then have ids: "0 \<le> l" "l < n" "l \<noteq> f" and a: "world_typed (env_wire env) ?a" "state (node ?a) = LEADER" by blast+
  from wire_format.node_step_typed [OF assms(1) refl assms(2) a(1), of "Receive m"] m(2) obtain s where
    s: "node_step env (Receive m) ?a = Inr s" "world_typed (env_wire env) s" by (auto simp: returns_typed_def)
  then have add: "add_log_entry env e ?a = Inr s" using m(1) a(2) by (simp add: local_message_handler_def message_types handle_client_put_message_def e_def)
  let ?b = "update_node (\<lambda>n. n\<lparr>log_entries := log_entries n @ [e]\<rparr>) ?a"
  from add_log_entry_frame [OF add] obtain ni pm new where "s = ?b\<lparr>node := (node ?b)\<lparr>next_index := ni, pending_append_reqs := pm\<rparr>, sent := sent ?b @ new\<rparr>"
    unfolding replicated_def by blast
  then have sn: "node s = (node ?a)\<lparr>log_entries := log_of C l @ [e], next_index := ni, pending_append_reqs := pm\<rparr>" and cl: "clients s = clients ?a" by simp_all
  have "forEach (trigger_entry_update env) (map_keys (next_index (node ?a))) ?b = Inr s"
    using add by (simp add: add_log_entry_def Let_def)
  from triggers_once [OF this, of f] assms(4) have p: "next_of f (node s) = next_of f (node ?a)" "pending_of f (node ?a) \<le> pending_of f (node s)"
    "pending_of f (node s) \<le> pending_of f (node ?a) + 1"
    by (auto simp: map_ok_def map_keys_def next_of_def pending_of_def strict_sorted_iff split: if_splits)
  have out: "from_outside (Receive m)" using m(1) by simp
  let ?D = "node_acts n l s C"
  have "cluster_run n C ?D" by (rule cluster_outside [OF cluster_begin ids(1,2) out s(1)])
  moreover have "in_touch (env_wire env) n l f ?D"
    using t s(2) ids(3) behind_append [of "log_of C f" "log_of C l" e] unfolding in_touch_def Let_def by (simp add: sn e_def)
  moreover have "\<exists>ni pm. node (worlds ?D l) = (node ?a)\<lparr>log_entries := log_of C l @ [e], next_index := ni, pending_append_reqs := pm\<rparr>"
    by (rule exI [of _ ni], rule exI [of _ pm]) (simp add: sn)
  ultimately show ?thesis using p sn cl by (intro that [of ?D]) simp_all
qed


lemma put_hello_facts: "msg_type put_hello = CLIENT_PUT_MESSAGE" "cpm_message (get_put_message_request put_hello) = ''hello''"
  by (simp_all add: put_hello_def load_defs get_defs message_getter_defs msg_type_def)

lemma put_hello_lagging: "message_typed varint_wire (node (worlds lagging_cluster 0)) put_hello"
  using put_hello_typed put_hello_facts(1) lagging_facts(4) by (simp add: message_typed_def message_types)

text \<open>The cluster of before, with two consumers at the leader.\<close>

definition serving_cluster :: cluster where
  "serving_cluster = lagging_cluster\<lparr>worlds := (worlds lagging_cluster)(0 := (worlds lagging_cluster 0)\<lparr>clients := two_consumers\<rparr>)\<rparr>"

lemma serving_cluster_in_touch: "in_touch varint_wire 3 0 1 serving_cluster"
  using lagging_in_touch two_consumers_active by (simp add: in_touch_def serving_cluster_def Let_def world_typed_def active_def)


end
