(* ===== verification/Logging.thy ===== *)
theory Logging
  imports Decimal
begin

text \<open>
  The logger (logging.hpp): one object that writes to a file once \<open>open_logger\<close> has been called, and to the console before, and the three macros that write to it. The mutex that a \<open>LoggerOutput\<close>
  holds makes each statement one step. The clock, the thread id and the position in the source are arguments.
\<close>

record log_stream =
  stream_file :: string
  stream_failed :: bool
  stream_text :: string

record logger =
  file_is_set :: bool
  ofstream :: "log_stream option"
  console :: string

definition Logger_new :: logger where
  "Logger_new = \<lparr>file_is_set = False, ofstream = None, console = []\<rparr>"

text \<open>Opening a stream that is open sets its error state and leaves it open.\<close>

definition open_logger :: "(string \<Rightarrow> bool) \<Rightarrow> string \<Rightarrow> logger \<Rightarrow> cpp_error + logger" where
  "open_logger writable file_name l =
     (case ofstream l of
        Some f \<Rightarrow> Inr (l\<lparr>ofstream := Some (f\<lparr>stream_failed := True\<rparr>), file_is_set := True\<rparr>)
      | None \<Rightarrow>
          if \<not> writable file_name then Inl RuntimeError
          else Inr (l\<lparr>ofstream := Some \<lparr>stream_file = file_name, stream_failed = False, stream_text = []\<rparr>, file_is_set := True\<rparr>))"

definition get_time :: "string \<Rightarrow> int \<Rightarrow> string" where
  "get_time ctime ms = take (length ctime - 1) ctime @ '':'' @ to_string ms"

text \<open>The guarded output that a statement writes to: the console, or the stream of the file, which drops what is written once it has failed.\<close>

datatype logger_output = ConsoleOutput | FileOutput

fun output_write :: "logger_output \<Rightarrow> string \<Rightarrow> logger \<Rightarrow> logger" where
  "output_write ConsoleOutput x l = l\<lparr>console := console l @ x\<rparr>"
| "output_write FileOutput x l =
     (case ofstream l of
        None \<Rightarrow> l
      | Some f \<Rightarrow> if stream_failed f then l else l\<lparr>ofstream := Some (f\<lparr>stream_text := stream_text f @ x\<rparr>)\<rparr>)"

definition get_output :: "logger \<Rightarrow> logger_output" where
  "get_output l = (if \<not> file_is_set l then ConsoleOutput else FileOutput)"

text \<open>The destructor closes the file.\<close>

definition Logger_delete :: "logger \<Rightarrow> logger" where
  "Logger_delete l = l\<lparr>ofstream := None\<rparr>"

text \<open>The level the program is compiled with, and the macros.\<close>

datatype log_level = LevelError | LevelInfo | LevelDebug

datatype log_macro = LOG_ERROR | LOG_INFO | LOG_DEBUG

fun logging_disabled :: "log_level \<Rightarrow> log_macro \<Rightarrow> bool" where
  "logging_disabled level LOG_ERROR = False"
| "logging_disabled level LOG_INFO = (level = LevelError)"
| "logging_disabled level LOG_DEBUG = (level \<noteq> LevelDebug)"

fun log_tag :: "log_macro \<Rightarrow> string" where
  "log_tag LOG_ERROR = '' ERROR: ''"
| "log_tag LOG_INFO = '' INFO: ''"
| "log_tag LOG_DEBUG = '' DEBUG: ''"

record log_statement =
  log_macro_of :: log_macro
  log_time :: "string \<times> int"
  log_thread :: string
  log_position :: "string \<times> int"
  log_text_of :: string

definition log_line :: "log_statement \<Rightarrow> string" where
  "log_line s =
     [CHR 0x0A] @ get_time (fst (log_time s)) (snd (log_time s)) @ '' thread '' @ log_thread s @ '' '' @ fst (log_position s) @ '' '' @
     to_string (snd (log_position s)) @ log_tag (log_macro_of s) @ log_text_of s"

definition log_step :: "log_level \<Rightarrow> log_statement \<Rightarrow> logger \<Rightarrow> logger" where
  "log_step level s l = (if logging_disabled level (log_macro_of s) then l else output_write (get_output l) (log_line s) l)"

text \<open>What is logged after the file has been opened is in the file, in order, and the console keeps what it had.\<close>

lemma logged_to_file:
  assumes "open_logger writable file_name l = Inr l'" and "ofstream l = None"
  shows "fold (log_step level) ss l' =
    l'\<lparr>ofstream := Some \<lparr>stream_file = file_name, stream_failed = False,
      stream_text = concat (map log_line (filter (\<lambda>s. \<not> logging_disabled level (log_macro_of s)) ss))\<rparr>\<rparr>"
proof -
  have "fold (log_step level) ss l =
      l\<lparr>ofstream := Some \<lparr>stream_file = file_name, stream_failed = False,
        stream_text = t @ concat (map log_line (filter (\<lambda>s. \<not> logging_disabled level (log_macro_of s)) ss))\<rparr>\<rparr>"
    if "file_is_set l" "ofstream l = Some \<lparr>stream_file = file_name, stream_failed = False, stream_text = t\<rparr>" for l t
    using that
  proof (induction ss arbitrary: l t)
    case (Cons s ss)
    then show ?case
      by (cases "logging_disabled level (log_macro_of s)") (simp_all add: log_step_def get_output_def)
  qed simp
  from this [of l' "[]"] assms show ?thesis by (auto simp: open_logger_def split: if_splits)
qed

text \<open>A logger that is opened twice drops everything from then on.\<close>

lemma logger_opened_twice:
  assumes "open_logger writable file_name l = Inr l'" and "ofstream l \<noteq> None"
  shows "fold (log_step level) ss l' = l'"
proof -
  from assms have "file_is_set l'" "\<exists>f. ofstream l' = Some f \<and> stream_failed f" by (auto simp: open_logger_def)
  then show ?thesis by (induction ss) (auto simp: log_step_def get_output_def)
qed

text \<open>Without a file everything goes to the console.\<close>

lemma logged_to_console:
  assumes "\<not> file_is_set l"
  shows "fold (log_step level) ss l =
    l\<lparr>console := console l @ concat (map log_line (filter (\<lambda>s. \<not> logging_disabled level (log_macro_of s)) ss))\<rparr>"
  using assms by (induction ss arbitrary: l) (simp_all add: log_step_def get_output_def)

text \<open>What is logged after the logger has been destroyed, as by the destructors of other static objects, is lost when the file was set.\<close>

lemma logged_after_delete: "file_is_set l \<Longrightarrow> fold (log_step level) ss (Logger_delete l) = Logger_delete l"
  by (induction ss) (auto simp: log_step_def get_output_def Logger_delete_def)

end
