(* ===== verification/Node_Statistics.thy ===== *)
theory Node_Statistics
  imports Cluster_Node Logging
begin

text \<open>
  The statistics timer of a node (cluster_node.cpp): what its handler logs. The handler changes nothing of the node and starts the timer again.
\<close>

definition STATS_INTERVAL :: int where
  "STATS_INTERVAL = 10"

definition current_state :: "cluster_node \<Rightarrow> node_state" where
  "current_state n = state n"

definition newline :: string where
  "newline = [CHR 0x0A]"

definition entry_statistics :: "LogEntry \<Rightarrow> string" where
  "entry_statistics e = to_string (le_index e) @ '','' @ to_string (le_operation e) @ '','' @ le_message e"

definition node_statistics :: "cluster_node \<Rightarrow> string" where
  "node_statistics n =
     newline @ ''_________________ Printing statistics for partition '' @ to_string (partition_id n) @ '' ______________________'' @ newline @
     ''commit_index : '' @ to_string (commit_index n) @ newline @
     ''number of undelivered_messages : '' @ to_string (int (length (get_all_undelivered_messages [] (queue n)))) @ newline @
     replicate 75 (CHR ''_'') @ newline"

text \<open>The statements of the handler, in their order, with the macro each of them uses.\<close>

definition statistics_statements :: "cluster_node \<Rightarrow> (log_macro \<times> string) list" where
  "statistics_statements n = map (\<lambda>e. (LOG_DEBUG, entry_statistics e)) (log_entries n) @ [(LOG_INFO, node_statistics n)]"

text \<open>
  The number that is printed is the number of messages that wait for a consumer.
\<close>

lemma statistics_count:
  assumes "queue_inv (queue n)"
  shows "length (get_all_undelivered_messages [] (queue n)) = card {m. status_of (queue n) m = Undelivered}"
proof -
  have "distinct (undelivered_messages (queue n))" using assms by (simp add: queue_inv_def set_ok_iff)
  moreover have "{m. status_of (queue n) m = Undelivered} = set (undelivered_messages (queue n))" using queue_inv_status(2) [OF assms] by blast
  ultimately show ?thesis by (simp add: get_all_undelivered_messages_def distinct_card)
qed

text \<open>A program compiled for errors only logs nothing of it, one for information the summary, and only one for debugging the entries.\<close>

lemma statistics_logged:
  "filter (\<lambda>(macro, x). \<not> logging_disabled level macro) (statistics_statements n) =
     (if level = LevelError then [] else if level = LevelInfo then [(LOG_INFO, node_statistics n)] else statistics_statements n)"
  by (cases level) (simp_all add: statistics_statements_def filter_empty_conv)

end
