(* ===== verification/Session.thy ===== *)
theory Session
  imports Message
begin

text \<open>
  \<open>class Session\<close> (session.hpp, session.cpp): one connection. The socket is a parameter: writing hands it
  the bytes of a frame, and reading is a sequence of completions of \<open>async_read\<close>, each with the requested bytes
  or an error. A completion is a step on the session, \<open>read_all\<close> runs the read loop over bytes that arrive, and the handlers the session
  calls are the events it emits.
\<close>

datatype session_status = CONNECTED | DISCONNECTED | CLOSED

datatype session_event = Handled message | DisconnectedEvent

text \<open>What \<open>async_read\<close> is asked for next: a header or a body of the decoded length.\<close>

datatype read_stage = ReadHeader | ReadBody

record session =
  status :: session_status
  read_message_buffer :: message
  stage :: "read_stage option"

definition Session_new :: session where
  "Session_new = \<lparr>status = CONNECTED, read_message_buffer = Message_new, stage = None\<rparr>"

definition read_header :: "session \<Rightarrow> session" where
  "read_header s = s\<lparr>stage := Some ReadHeader\<rparr>"

definition read_body :: "session \<Rightarrow> session" where
  "read_body s = s\<lparr>stage := Some ReadBody\<rparr>"

definition start_read :: "session \<Rightarrow> session" where
  "start_read s = read_header s"

definition close :: "session \<Rightarrow> session" where
  "close s = s\<lparr>status := CLOSED\<rparr>"

definition disconneted :: "session \<Rightarrow> session \<times> session_event list" where
  "disconneted s =
     (if status s = DISCONNECTED then (s, [])
      else (s\<lparr>status := DISCONNECTED\<rparr>, [DisconnectedEvent]))"

text \<open>The bytes \<open>write_message\<close> hands to the socket, and the completion of that write.\<close>

definition write_message :: "message \<Rightarrow> string" where
  "write_message msg = frame msg"

definition write_completed :: "bool \<Rightarrow> session \<Rightarrow> session \<times> session_event list" where
  "write_completed error s = (if \<not> error then (s, []) else disconneted s)"

text \<open>The number of bytes the pending read is for. A length outside the buffer makes \<open>async_read\<close> write beyond it.\<close>

definition read_size :: "session \<Rightarrow> cpp_error + nat" where
  "read_size s =
     (case stage s of
        None \<Rightarrow> Inr 0
      | Some ReadHeader \<Rightarrow> Inr HEADER_LENGTH
      | Some ReadBody \<Rightarrow>
          if 0 \<le> body_length (read_message_buffer s) \<and> body_length (read_message_buffer s) \<le> int MAX_BODY_LENGTH
          then Inr (nat (body_length (read_message_buffer s))) else Inl OutOfBounds)"

text \<open>The completion of \<open>async_read\<close>: the handlers of \<open>read_header\<close> and \<open>read_body\<close>.\<close>

definition header_completed :: "bool \<Rightarrow> string \<Rightarrow> session \<Rightarrow> session \<times> session_event list" where
  "header_completed error bs s =
     (let s = s\<lparr>stage := None\<rparr>
      in if \<not> error
         then (read_body (s\<lparr>read_message_buffer := decode_length (write_header bs (read_message_buffer s))\<rparr>), [])
         else disconneted s)"

definition body_completed :: "bool \<Rightarrow> string \<Rightarrow> session \<Rightarrow> cpp_error + session \<times> session_event list" where
  "body_completed error bs s =
     (let s = s\<lparr>stage := None\<rparr>
      in if \<not> error
         then andThen (write_body bs (read_message_buffer s))
           (\<lambda>msg. Inr (read_header (s\<lparr>read_message_buffer := msg\<rparr>), [Handled msg]))
         else Inr (disconneted s))"

definition read_completed :: "bool \<Rightarrow> string \<Rightarrow> session \<Rightarrow> cpp_error + session \<times> session_event list" where
  "read_completed error bs s =
     (case stage s of
        None \<Rightarrow> Inr (s, [])
      | Some ReadHeader \<Rightarrow> Inr (header_completed error bs s)
      | Some ReadBody \<Rightarrow> body_completed error bs s)"

text \<open>
  The read loop over the bytes that have arrived: every read that can complete does, and the rest stays in
  the socket. Each header takes 20 bytes, so the loop ends.
\<close>

function read_all :: "string \<Rightarrow> session \<Rightarrow> cpp_error + session \<times> session_event list \<times> string" where
  "read_all bs s =
     (if stage s = None then Inr (s, [], bs)
      else andThen (read_size s) (\<lambda>n.
        if length bs < n then Inr (s, [], bs)
        else andThen (read_completed False (take n bs) s) (\<lambda>(s', ev).
          andThen (read_all (drop n bs) s') (\<lambda>(s'', ev', rest). Inr (s'', ev @ ev', rest)))))"
  by pat_completeness auto

termination
proof (relation "measures [\<lambda>(bs, s). length bs, \<lambda>(bs, s). if stage s = Some ReadBody then 1 else 0]", simp)
  fix bs s n p s' ev
  assume "stage s \<noteq> None" and n: "read_size s = Inr n" and "\<not> length bs < n"
    and completed: "read_completed False (take n bs) s = Inr p" and p: "(s', ev) = p"
  then consider (header) "stage s = Some ReadHeader" | (body) "stage s = Some ReadBody"
    by (cases "stage s") (metis read_stage.exhaust option.distinct(1) option.exhaust)+
  then show "((drop n bs, s'), bs, s) \<in> measures [\<lambda>(bs, s). length bs, \<lambda>(bs, s). if stage s = Some ReadBody then 1 else 0]"
  proof cases
    case header
    with n \<open>\<not> length bs < n\<close> show ?thesis by (simp add: read_size_def HEADER_LENGTH_def)
  next
    case body
    with completed p have "stage s' = Some ReadHeader"
      by (auto simp: read_completed_def body_completed_def read_header_def Let_def)
    with body show ?thesis by (simp, arith)
  qed
qed

declare read_all.simps [simp del]

section \<open>Reading what was written\<close>

definition reading :: "session \<Rightarrow> bool" where
  "reading s \<longleftrightarrow> stage s = Some ReadHeader \<and> buffer_ok (read_message_buffer s)"

lemma read_header_frame:
  assumes "reading s" and "message_ok msg"
  shows "\<exists>s'. header_completed False (header_of (body_length msg)) s = (s', []) \<and> stage s' = Some ReadBody \<and>
    buffer_ok (read_message_buffer s') \<and> body_length (read_message_buffer s') = body_length msg \<and> status s' = status s"
  using assms atoi_header_of [of "body_length msg"] length_header_of [of "body_length msg"]
  by (simp add: reading_def header_completed_def message_ok_def write_header_def decode_length_def read_body_def
      header_def buffer_ok_def)

lemma read_body_frame:
  assumes "buffer_ok (read_message_buffer s)" and "body_length (read_message_buffer s) = int (length bs)"
    and "length bs \<le> MAX_BODY_LENGTH"
  shows "\<exists>s' m. body_completed False bs s = Inr (s', [Handled m]) \<and> reading s' \<and> payload m = bs \<and> status s' = status s"
  using assms by (simp add: body_completed_def write_body_def reading_def read_header_def buffer_ok_def payload_def body_def)

lemma read_all_frame:
  assumes "reading s" and "message_ok msg"
  shows "\<exists>s' m. reading s' \<and> payload m = payload msg \<and> status s' = status s \<and>
    read_all (write_message msg @ rest) s =
      andThen (read_all rest s') (\<lambda>(s'', ev, r). Inr (s'', Handled m # ev, r))"
proof -
  let ?h = "header_of (body_length msg)" and ?b = "payload msg"
  have len: "length ?h = HEADER_LENGTH" and b: "int (length ?b) = body_length msg" and small: "length ?b \<le> MAX_BODY_LENGTH"
    using assms(2) by (auto simp: message_ok_def length_header_of length_payload)
  have n: "0 \<le> body_length msg" "body_length msg \<le> int MAX_BODY_LENGTH" "nat (body_length msg) = length ?b"
    using assms(2) by (auto simp: message_ok_def length_payload)
  obtain s1 where s1: "header_completed False ?h s = (s1, [])" "stage s1 = Some ReadBody"
      "buffer_ok (read_message_buffer s1)" "body_length (read_message_buffer s1) = body_length msg" "status s1 = status s"
    using read_header_frame [OF assms] by blast
  obtain s2 m where s2: "body_completed False ?b s1 = Inr (s2, [Handled m])" "reading s2" "payload m = ?b" "status s2 = status s1"
    using read_body_frame [of s1 ?b] s1 b small by auto
  have "read_all (?h @ ?b @ rest) s = andThen (read_all (?b @ rest) s1) (\<lambda>(s'', ev, r). Inr (s'', ev, r))"
    using assms(1) s1(1) len by (subst read_all.simps) (simp add: reading_def read_size_def read_completed_def)
  also have "read_all (?b @ rest) s1 = andThen (read_all rest s2) (\<lambda>(s'', ev, r). Inr (s'', Handled m # ev, r))"
    using s1 s2(1) n by (subst read_all.simps) (simp add: read_size_def read_completed_def)
  finally have "read_all (?h @ ?b @ rest) s = andThen (read_all rest s2) (\<lambda>(s'', ev, r). Inr (s'', Handled m # ev, r))"
    by (cases "read_all rest s2") auto
  with s1 s2 show ?thesis
    using frame_message_ok [OF assms(2)] by (auto simp: write_message_def)
qed

text \<open>What the handler of the session is given.\<close>

definition handled :: "session_event list \<Rightarrow> string list" where
  "handled ev = concat (map (\<lambda>e. case e of Handled m \<Rightarrow> [payload m] | DisconnectedEvent \<Rightarrow> []) ev)"

lemma handled_simps [simp]: "handled [] = []" "handled (Handled m # ev) = payload m # handled ev"
  by (simp_all add: handled_def)

lemma read_all_frames:
  assumes "reading s" and "list_all message_ok msgs" and "length rest < HEADER_LENGTH"
  shows "\<exists>s' ev. read_all (concat (map write_message msgs) @ rest) s = Inr (s', ev, rest) \<and>
    reading s' \<and> status s' = status s \<and> handled ev = map payload msgs"
  using assms(1,2)
proof (induction msgs arbitrary: s)
  case Nil
  with assms(3) show ?case
    by (subst read_all.simps) (simp add: reading_def read_size_def)
next
  case (Cons msg msgs)
  obtain s1 m where s1: "reading s1" "payload m = payload msg" "status s1 = status s"
      and eq: "read_all (write_message msg @ concat (map write_message msgs) @ rest) s =
        andThen (read_all (concat (map write_message msgs) @ rest) s1) (\<lambda>(s'', ev, r). Inr (s'', Handled m # ev, r))"
    using read_all_frame [of s msg "concat (map write_message msgs) @ rest"] Cons.prems by auto
  obtain s2 ev where "read_all (concat (map write_message msgs) @ rest) s1 = Inr (s2, ev, rest)"
      "reading s2" "status s2 = status s1" "handled ev = map payload msgs"
    using Cons.IH [OF s1(1)] Cons.prems by auto
  with eq s1 show ?case by simp
qed

section \<open>The disconnect handler\<close>

datatype session_op = WriteDone bool | ReadDone bool string | Close

fun session_step :: "session_op \<Rightarrow> session \<times> session_event list \<Rightarrow> cpp_error + session \<times> session_event list" where
  "session_step (WriteDone error) (s, ev) = (case write_completed error s of (s', ev') \<Rightarrow> Inr (s', ev @ ev'))"
| "session_step (ReadDone error bs) (s, ev) = andThen (read_completed error bs s) (\<lambda>(s', ev'). Inr (s', ev @ ev'))"
| "session_step Close (s, ev) = Inr (close s, ev)"

definition disconnects :: "session_event list \<Rightarrow> nat" where
  "disconnects ev = length (filter (\<lambda>e. e = DisconnectedEvent) ev)"

lemma disconnects_simps [simp]:
  "disconnects [] = 0" "disconnects (ev @ ev') = disconnects ev + disconnects ev'"
  "disconnects [Handled m] = 0" "disconnects [DisconnectedEvent] = 1"
  by (simp_all add: disconnects_def)

lemma session_step_once:
  assumes "session_step x (s, ev) = Inr (s', ev')" and "x \<noteq> Close"
    and "disconnects ev = (if status s = DISCONNECTED then 1 else 0)"
  shows "disconnects ev' = (if status s' = DISCONNECTED then 1 else 0)"
  using assms
  by (cases x)
    (auto simp: write_completed_def disconneted_def read_completed_def header_completed_def body_completed_def
      read_body_def read_header_def Let_def split: if_splits option.splits read_stage.splits)

section \<open>Properties of a session\<close>

text \<open>A session that reads, and the message with an empty body.\<close>

lemma reading_start: "reading (start_read Session_new)"
  by (simp add: reading_def start_read_def read_header_def Session_new_def)

definition sample_message :: message where
  "sample_message = \<lparr>body_length = 2, data_buffer = header_of 2 @ ''hi'' @ replicate 998 (CHR 0x00)\<rparr>"

lemma sample_message_ok: "message_ok sample_message" "payload sample_message = ''hi''"
  using length_header_of [of 2]
  by (simp_all add: sample_message_def message_ok_def buffer_ok_def payload_def body_def header_def message_lengths)

text \<open>
  C23: a stream of frames is split as it was written: whatever was read before, the session hands every message to its handler exactly once, in order
  and with its body unchanged, keeps an incomplete header in the socket, and is ready for the next frame.
\<close>

theorem frames_are_delivered_in_order:
  assumes "reading s" and "list_all message_ok msgs" and "length rest < HEADER_LENGTH"
  shows "\<exists>s' ev. read_all (concat (map write_message msgs) @ rest) s = Inr (s', ev, rest) \<and> reading s' \<and>
    handled ev = map payload msgs"
  using read_all_frames [OF assms] by blast

theorem frames_are_delivered_in_order_witness:
  "\<exists>s' ev. read_all (write_message sample_message @ write_message sample_message @ ''12'') (start_read Session_new) = Inr (s', ev, ''12'') \<and>
     handled ev = [''hi'', ''hi'']"
  using frames_are_delivered_in_order [OF reading_start, of "[sample_message, sample_message]" "''12''"] sample_message_ok
  by (simp add: HEADER_LENGTH_def) blast

text \<open>
  The disconnect handler of a session that is not closed is called at most once, however its reads and writes complete, and exactly once
  when the session ends disconnected.
\<close>

lemma disconnect_handler_called_once:
  assumes "forEach session_step xs (s, []) = Inr (s', ev)" and "Close \<notin> set xs" and "status s \<noteq> DISCONNECTED"
  shows "disconnects ev = (if status s' = DISCONNECTED then 1 else 0)"
proof -
  have "case (s', ev) of (s', ev) \<Rightarrow> disconnects ev = (if status s' = DISCONNECTED then 1 else 0)"
    by (rule forEach_keeps [OF _ assms(1)]) (use assms(2,3) in \<open>auto dest: session_step_once\<close>)
  then show ?thesis by simp
qed

text \<open>
  Closing a session that was disconnected makes the disconnect handler run a second time when another of its operations fails:
  \<open>close\<close> overwrites the status that guards the handler.
\<close>

lemma close_reenables_disconnect_handler:
  "\<exists>s' ev. forEach session_step [WriteDone True, Close, WriteDone True] (start_read Session_new, []) = Inr (s', ev) \<and> disconnects ev = 2"
  by (simp add: write_completed_def disconneted_def start_read_def read_header_def Session_new_def close_def disconnects_def)



end
