(* ===== verification/Cluster_Manager.thy ===== *)
theory Cluster_Manager
  imports Session Std_Containers
begin

text \<open>
  \<open>class ClusterManager\<close> (cluster_manager.hpp, cluster_manager.cpp): the connections of a server to the other servers. Everything runs in one \<open>io_context\<close> thread: the tasks
  that other threads post, the completions of \<open>async_connect\<close>, \<open>async_accept\<close> and of the reads and writes of the sessions, and the timers that retry a
  connection; each of them is a step on the manager. The sessions created for outgoing connections are the list \<open>connections\<close>, and a pointer to one is its position there, so that
  a session lives on when the map of outgoing sessions no longer refers to it. A result of the resolver is a list of addresses of any type \<open>'e\<close>.
\<close>

section \<open>State\<close>

record connection =
  conn_endpoint :: int
  conn_session :: session
  conn_out :: string

datatype cluster_task = BroadCast message | WriteTo int message

record 'e cluster_manager =
  incoming_sessions :: "(int, session) smap"
  incoming_sessions_count :: int
  endpoints :: "(int \<times> 'e list) list"
  endpoint_id_map :: "(int, 'e list) smap"
  outgoing_sessions :: "(int, nat) smap"
  connections :: "connection list"
  connecting :: "int list"
  retry_timers :: "int list"
  posted :: "cluster_task list"

definition ClusterManager_new :: "(int \<times> 'e list) list \<Rightarrow> 'e cluster_manager" where
  "ClusterManager_new eps =
     \<lparr>incoming_sessions = [], incoming_sessions_count = 0, endpoints = eps, endpoint_id_map = [], outgoing_sessions = [],
      connections = [], connecting = [], retry_timers = [], posted = []\<rparr>"

section \<open>Outgoing connections\<close>

definition session_status_of :: "int \<Rightarrow> 'e cluster_manager \<Rightarrow> session_status option" where
  "session_status_of endpoint_id cm =
     map_option (\<lambda>k. status (conn_session (connections cm ! k))) (map_find (outgoing_sessions cm) endpoint_id)"

definition connect :: "int \<Rightarrow> 'e cluster_manager \<Rightarrow> 'e cluster_manager" where
  "connect endpoint_id cm =
     (if session_status_of endpoint_id cm = Some CONNECTED then cm
      else let (addresses, ids) = map_index [] endpoint_id (endpoint_id_map cm)
           in cm\<lparr>endpoint_id_map := ids, connecting := connecting cm @ [endpoint_id]\<rparr>)"

text \<open>The completion of \<open>async_connect\<close>, and the timer that both of its failure paths and the disconnect handler start.\<close>

definition retry_later :: "int \<Rightarrow> 'e cluster_manager \<Rightarrow> 'e cluster_manager" where
  "retry_later endpoint_id cm = cm\<lparr>retry_timers := retry_timers cm @ [endpoint_id]\<rparr>"

definition connect_completed :: "bool \<Rightarrow> int \<Rightarrow> 'e cluster_manager \<Rightarrow> 'e cluster_manager" where
  "connect_completed error endpoint_id cm =
     (let cm = cm\<lparr>connecting := remove1 endpoint_id (connecting cm)\<rparr>
      in if \<not> error
         then cm\<lparr>connections := connections cm @
                   [\<lparr>conn_endpoint = endpoint_id, conn_session = start_read Session_new, conn_out = []\<rparr>],
                 outgoing_sessions := map_set endpoint_id (length (connections cm)) (outgoing_sessions cm)\<rparr>
         else retry_later endpoint_id cm)"

definition retry_expired :: "int \<Rightarrow> 'e cluster_manager \<Rightarrow> 'e cluster_manager" where
  "retry_expired endpoint_id cm = connect endpoint_id (cm\<lparr>retry_timers := remove1 endpoint_id (retry_timers cm)\<rparr>)"

text \<open>The completion of a read or a write of an outgoing session: a message it receives is only logged, a disconnection starts the timer.\<close>

definition outgoing_completed :: "nat \<Rightarrow> session \<times> session_event list \<Rightarrow> 'e cluster_manager \<Rightarrow> 'e cluster_manager" where
  "outgoing_completed k r cm =
     (let c = connections cm ! k; cm = cm\<lparr>connections := (connections cm)[k := c\<lparr>conn_session := fst r\<rparr>]\<rparr>
      in if DisconnectedEvent \<in> set (snd r) then retry_later (conn_endpoint c) cm else cm)"

definition outgoing_write_completed :: "bool \<Rightarrow> nat \<Rightarrow> 'e cluster_manager \<Rightarrow> 'e cluster_manager" where
  "outgoing_write_completed error k cm = outgoing_completed k (write_completed error (conn_session (connections cm ! k))) cm"

definition outgoing_read_completed :: "bool \<Rightarrow> string \<Rightarrow> nat \<Rightarrow> 'e cluster_manager \<Rightarrow> cpp_error + 'e cluster_manager" where
  "outgoing_read_completed error bs k cm =
     andThen (read_completed error bs (conn_session (connections cm ! k))) (\<lambda>r. Inr (outgoing_completed k r cm))"

section \<open>Incoming connections\<close>

definition cluster_accept_new_connection :: "bool \<Rightarrow> 'e cluster_manager \<Rightarrow> 'e cluster_manager" where
  "cluster_accept_new_connection error cm =
     (if \<not> error
      then cm\<lparr>incoming_sessions_count := incoming_sessions_count cm + 1,
              incoming_sessions := map_set (incoming_sessions_count cm) (start_read Session_new) (incoming_sessions cm)\<rparr>
      else cm)"

text \<open>The completion of a read of an incoming session: the messages it passes to the registered handler, and the manager.\<close>

fun handled_messages :: "session_event list \<Rightarrow> message list" where
  "handled_messages [] = []"
| "handled_messages (Handled m # evs) = m # handled_messages evs"
| "handled_messages (DisconnectedEvent # evs) = handled_messages evs"

definition incoming_read_completed ::
  "bool \<Rightarrow> string \<Rightarrow> int \<Rightarrow> 'e cluster_manager \<Rightarrow> cpp_error + message list \<times> 'e cluster_manager" where
  "incoming_read_completed error bs i cm =
     (case map_find (incoming_sessions cm) i of
        None \<Rightarrow> Inr ([], cm)
      | Some s \<Rightarrow> andThen (read_completed error bs s) (\<lambda>(s, evs).
          Inr (handled_messages evs,
               cm\<lparr>incoming_sessions := (if DisconnectedEvent \<in> set evs then map_erase i (incoming_sessions cm)
                                        else map_set i s (incoming_sessions cm))\<rparr>)))"

section \<open>Writing\<close>

text \<open>\<open>broad_cast\<close> and \<open>write_message\<close> post a task; \<open>run_posted\<close> runs the oldest one.\<close>

definition broad_cast :: "message \<Rightarrow> 'e cluster_manager \<Rightarrow> 'e cluster_manager" where
  "broad_cast msg cm = cm\<lparr>posted := posted cm @ [BroadCast msg]\<rparr>"

definition cluster_write_message :: "int \<Rightarrow> message \<Rightarrow> 'e cluster_manager \<Rightarrow> 'e cluster_manager" where
  "cluster_write_message endpoint_id msg cm = cm\<lparr>posted := posted cm @ [WriteTo endpoint_id msg]\<rparr>"

definition connection_write :: "message \<Rightarrow> nat \<Rightarrow> 'e cluster_manager \<Rightarrow> 'e cluster_manager" where
  "connection_write msg k cm =
     (let c = connections cm ! k in cm\<lparr>connections := (connections cm)[k := c\<lparr>conn_out := conn_out c @ write_message msg\<rparr>]\<rparr>)"

fun run_task :: "cluster_task \<Rightarrow> 'e cluster_manager \<Rightarrow> 'e cluster_manager" where
  "run_task (BroadCast msg) cm = fold (\<lambda>(endpoint_id, k). connection_write msg k) (outgoing_sessions cm) cm"
| "run_task (WriteTo endpoint_id msg) cm =
     (case map_find (outgoing_sessions cm) endpoint_id of None \<Rightarrow> cm | Some k \<Rightarrow> connection_write msg k cm)"

definition run_posted :: "'e cluster_manager \<Rightarrow> 'e cluster_manager" where
  "run_posted cm = (case posted cm of [] \<Rightarrow> cm | t # ts \<Rightarrow> run_task t (cm\<lparr>posted := ts\<rparr>))"

definition cluster_start :: "'e cluster_manager \<Rightarrow> 'e cluster_manager" where
  "cluster_start cm =
     (let cm = cm\<lparr>endpoint_id_map := fold (\<lambda>(i, addresses). map_set i addresses) (endpoints cm) (endpoint_id_map cm)\<rparr>
      in fold (\<lambda>(i, addresses). connect i) (endpoints cm) cm)"

section \<open>Steps of the manager\<close>

datatype manager_event =
    Post cluster_task
  | RunPosted
  | ConnectCompleted bool int
  | RetryExpired int
  | OutgoingWriteCompleted bool nat
  | OutgoingReadCompleted bool string nat
  | Accepted bool
  | IncomingReadCompleted bool string int

text \<open>A completion or a timer only occurs when it is pending.\<close>

fun event_enabled :: "manager_event \<Rightarrow> 'e cluster_manager \<Rightarrow> bool" where
  "event_enabled (ConnectCompleted error i) cm \<longleftrightarrow> i \<in> set (connecting cm)"
| "event_enabled (RetryExpired i) cm \<longleftrightarrow> i \<in> set (retry_timers cm)"
| "event_enabled (OutgoingWriteCompleted error k) cm \<longleftrightarrow> k < length (connections cm)"
| "event_enabled (OutgoingReadCompleted error bs k) cm \<longleftrightarrow> k < length (connections cm)"
| "event_enabled _ cm \<longleftrightarrow> True"

fun manager_step :: "manager_event \<Rightarrow> 'e cluster_manager \<Rightarrow> cpp_error + message list \<times> 'e cluster_manager" where
  "manager_step (Post (BroadCast msg)) cm = Inr ([], broad_cast msg cm)"
| "manager_step (Post (WriteTo i msg)) cm = Inr ([], cluster_write_message i msg cm)"
| "manager_step RunPosted cm = Inr ([], run_posted cm)"
| "manager_step (ConnectCompleted error i) cm = Inr ([], connect_completed error i cm)"
| "manager_step (RetryExpired i) cm = Inr ([], retry_expired i cm)"
| "manager_step (OutgoingWriteCompleted error k) cm = Inr ([], outgoing_write_completed error k cm)"
| "manager_step (OutgoingReadCompleted error bs k) cm = andThen (outgoing_read_completed error bs k cm) (\<lambda>cm. Inr ([], cm))"
| "manager_step (Accepted error) cm = Inr ([], cluster_accept_new_connection error cm)"
| "manager_step (IncomingReadCompleted error bs i) cm = incoming_read_completed error bs i cm"

inductive manager_run :: "'e cluster_manager \<Rightarrow> 'e cluster_manager \<Rightarrow> bool" where
  manager_start: "manager_run cm cm"
| manager_steps: "manager_run cm d \<Longrightarrow> event_enabled ev d \<Longrightarrow> manager_step ev d = Inr (out, e) \<Longrightarrow> manager_run cm e"

section \<open>Every endpoint is looked after\<close>

definition linked :: "'e cluster_manager \<Rightarrow> int \<Rightarrow> bool" where
  "linked cm i \<longleftrightarrow> session_status_of i cm = Some CONNECTED"

text \<open>The ways in which the manager is looking after an endpoint: an open session, a connection attempt, a retry timer.\<close>

definition links :: "'e cluster_manager \<Rightarrow> int \<Rightarrow> nat" where
  "links cm i = count_list (connecting cm) i + count_list (retry_timers cm) i + (if linked cm i then 1 else 0)"

definition manager_inv :: "'e cluster_manager \<Rightarrow> bool" where
  "manager_inv cm \<longleftrightarrow>
     (\<forall>i. links cm i = (if i \<in> fst ` set (endpoints cm) then 1 else 0)) \<and>
     (\<forall>k < length (connections cm). status (conn_session (connections cm ! k)) \<noteq> CLOSED) \<and>
     (\<forall>i k. map_find (outgoing_sessions cm) i = Some k \<longrightarrow> k < length (connections cm) \<and> conn_endpoint (connections cm ! k) = i) \<and>
     (\<forall>k < length (connections cm). status (conn_session (connections cm ! k)) = CONNECTED \<longrightarrow>
        map_find (outgoing_sessions cm) (conn_endpoint (connections cm ! k)) = Some k) \<and>
     map_ok (outgoing_sessions cm)"

lemma manager_invD:
  assumes "manager_inv cm"
  shows "links cm i = (if i \<in> fst ` set (endpoints cm) then 1 else 0)"
    and "k < length (connections cm) \<Longrightarrow> status (conn_session (connections cm ! k)) \<noteq> CLOSED"
    and "map_find (outgoing_sessions cm) i = Some k \<Longrightarrow> k < length (connections cm) \<and> conn_endpoint (connections cm ! k) = i"
    and "k < length (connections cm) \<Longrightarrow> status (conn_session (connections cm ! k)) = CONNECTED \<Longrightarrow>
      map_find (outgoing_sessions cm) (conn_endpoint (connections cm ! k)) = Some k"
    and "map_ok (outgoing_sessions cm)"
  using assms by (simp_all add: manager_inv_def)

lemma status_of_fields:
  "connections cm = connections cm' \<Longrightarrow> outgoing_sessions cm = outgoing_sessions cm' \<Longrightarrow> linked cm i = linked cm' i"
  by (simp add: linked_def session_status_of_def)

text \<open>What a completion can do to a session.\<close>

definition session_outcome :: "session \<Rightarrow> session \<times> session_event list \<Rightarrow> bool" where
  "session_outcome s r \<longleftrightarrow>
     status (fst r) = status s \<and> DisconnectedEvent \<notin> set (snd r) \<or>
     status s \<noteq> DISCONNECTED \<and> status (fst r) = DISCONNECTED \<and> DisconnectedEvent \<in> set (snd r)"

lemma disconneted_outcome: "session_outcome s (disconneted (s\<lparr>stage := st\<rparr>))" "session_outcome s (disconneted s)"
  by (simp_all add: session_outcome_def disconneted_def)

lemma write_completed_outcome: "session_outcome s (write_completed error s)"
  using disconneted_outcome(2) [of s] by (simp add: write_completed_def) (simp add: session_outcome_def)

lemma read_completed_outcome: "read_completed error bs s = Inr r \<Longrightarrow> session_outcome s r"
  using disconneted_outcome(1) [of s None]
  by (auto simp: read_completed_def header_completed_def body_completed_def read_header_def read_body_def Let_def
      split: option.splits read_stage.splits if_splits) (auto simp: session_outcome_def)

lemma outgoing_completed_inv:
  assumes "manager_inv cm" and "k < length (connections cm)" and "session_outcome (conn_session (connections cm ! k)) r"
  shows "manager_inv (outgoing_completed k r cm)"
proof -
  let ?c = "connections cm ! k"
  let ?cm = "cm\<lparr>connections := (connections cm)[k := ?c\<lparr>conn_session := fst r\<rparr>]\<rparr>"
  note inv = manager_invD [OF assms(1)]
  have nth: "connections ?cm ! j = (if j = k then ?c\<lparr>conn_session := fst r\<rparr> else connections cm ! j)"
    if "j < length (connections cm)" for j
    using that by simp
  have status: "session_status_of i ?cm =
      (if map_find (outgoing_sessions cm) i = Some k then Some (status (fst r)) else session_status_of i cm)" for i
    using inv(3) [of i] assms(2)
    by (cases "map_find (outgoing_sessions cm) i") (auto simp: session_status_of_def nth_list_update)
  from assms(3) consider (same) "status (fst r) = status (conn_session ?c)" "DisconnectedEvent \<notin> set (snd r)"
    | (lost) "status (conn_session ?c) \<noteq> DISCONNECTED" "status (fst r) = DISCONNECTED" "DisconnectedEvent \<in> set (snd r)"
    by (auto simp: session_outcome_def)
  then show ?thesis
  proof cases
    case same
    then have "session_status_of i ?cm = session_status_of i cm" for i
      unfolding status by (auto simp: session_status_of_def)
    then have "links ?cm i = links cm i" for i by (simp add: links_def linked_def)
    with same assms inv show ?thesis
      by (auto simp: outgoing_completed_def manager_inv_def Let_def nth_list_update)
  next
    case lost
    with inv(2) [OF assms(2)] have was: "status (conn_session ?c) = CONNECTED" by (cases "status (conn_session ?c)") auto
    have cur: "map_find (outgoing_sessions cm) (conn_endpoint ?c) = Some k" using inv(4) [OF assms(2) was] .
    have "map_find (outgoing_sessions cm) i = Some k \<longleftrightarrow> i = conn_endpoint ?c" for i using cur inv(3) by blast
    then have gone: "linked ?cm i \<longleftrightarrow> i \<noteq> conn_endpoint ?c \<and> linked cm i" for i
      unfolding linked_def status using lost by simp
    have "linked cm (conn_endpoint ?c)" using was cur by (simp add: linked_def session_status_of_def)
    moreover have "linked (retry_later (conn_endpoint ?c) ?cm) i = linked ?cm i" for i
      by (rule status_of_fields) (simp_all add: retry_later_def)
    ultimately have "links (retry_later (conn_endpoint ?c) ?cm) i = links cm i" for i
      unfolding links_def by (simp add: gone) (simp add: retry_later_def)
    with lost assms inv show ?thesis
      by (auto simp: outgoing_completed_def manager_inv_def retry_later_def Let_def nth_list_update)
  qed
qed

lemma count_remove1: "count_list (remove1 x xs) y = (if x = y then count_list xs y - 1 else count_list xs y)"
  by (induction xs) auto

lemma count_distinct: "distinct xs \<Longrightarrow> count_list xs x = (if x \<in> set xs then 1 else 0)"
  by (induction xs) auto

lemma count_in: "x \<in> set xs \<Longrightarrow> 1 \<le> count_list xs x"
  by (induction xs) auto

lemma connect_completed_inv:
  assumes "manager_inv cm" and "i \<in> set (connecting cm)"
  shows "manager_inv (connect_completed error i cm)"
proof -
  note inv = manager_invD [OF assms(1)]
  from inv(1) [of i] count_in [OF assms(2)] have alone: "\<not> linked cm i" "count_list (connecting cm) i = 1"
    by (auto simp: links_def split: if_splits)
  show ?thesis
  proof (cases error)
    case True
    have same: "linked (connect_completed error i cm) j = linked cm j" for j
      by (rule status_of_fields) (use True in \<open>simp_all add: connect_completed_def retry_later_def Let_def\<close>)
    have "links (connect_completed error i cm) j = links cm j" for j
      unfolding links_def same using True alone
      by (cases "j = i") (simp_all add: connect_completed_def retry_later_def count_remove1 Let_def)
    with True inv show ?thesis by (simp add: manager_inv_def connect_completed_def retry_later_def Let_def)
  next
    case False
    let ?cm = "connect_completed error i cm"
    have out: "connections ?cm = connections cm @ [\<lparr>conn_endpoint = i, conn_session = start_read Session_new, conn_out = []\<rparr>]"
      "outgoing_sessions ?cm = map_set i (length (connections cm)) (outgoing_sessions cm)" "endpoints ?cm = endpoints cm"
      using False by (simp_all add: connect_completed_def Let_def)
    have new: "status (start_read Session_new) = CONNECTED" by (simp add: start_read_def read_header_def Session_new_def)
    have st: "session_status_of j ?cm = (if j = i then Some CONNECTED else session_status_of j cm)" for j
      using inv(3) [of j] by (cases "map_find (outgoing_sessions cm) j") (auto simp: session_status_of_def out new nth_append)
    have "links ?cm j = links cm j" for j
      using alone st [of j] False
      by (cases "j = i") (simp_all add: links_def linked_def, simp_all add: connect_completed_def count_remove1 Let_def)
    moreover have "status (conn_session (connections cm ! k)) \<noteq> CONNECTED" if "map_find (outgoing_sessions cm) i = Some k" for k
      using alone(1) that by (simp add: linked_def session_status_of_def)
    ultimately show ?thesis
      unfolding manager_inv_def out using inv new
      by (auto simp: nth_append less_Suc_eq std_ok)
  qed
qed

lemma connect_fields:
  "connections (connect i cm) = connections cm" "outgoing_sessions (connect i cm) = outgoing_sessions cm" "endpoints (connect i cm) = endpoints cm"
  "retry_timers (connect i cm) = retry_timers cm"
  "connecting (connect i cm) = (if linked cm i then connecting cm else connecting cm @ [i])"
  by (simp_all add: connect_def linked_def case_prod_beta Let_def)

lemma connect_links: "links (connect i cm) j = links cm j + (if j = i \<and> \<not> linked cm i then 1 else 0)"
  using status_of_fields [of "connect i cm" cm j] by (simp add: links_def connect_fields)

lemma retry_expired_inv:
  assumes "manager_inv cm" and "i \<in> set (retry_timers cm)"
  shows "manager_inv (retry_expired i cm)"
proof -
  note inv = manager_invD [OF assms(1)]
  from inv(1) [of i] count_in [OF assms(2)] have alone: "\<not> linked cm i" "count_list (retry_timers cm) i = 1"
    by (auto simp: links_def split: if_splits)
  let ?cm = "cm\<lparr>retry_timers := remove1 i (retry_timers cm)\<rparr>"
  have same: "linked ?cm j = linked cm j" for j by (rule status_of_fields) simp_all
  have "links (retry_expired i cm) j = links cm j" for j
    unfolding retry_expired_def connect_links using alone
    by (cases "j = i") (simp_all add: same, simp_all add: links_def same count_remove1)
  with inv show ?thesis by (simp add: manager_inv_def retry_expired_def connect_fields)
qed

text \<open>The tasks write to sessions and change nothing else.\<close>

lemma connection_write_fields:
  "outgoing_sessions (connection_write m k cm) = outgoing_sessions cm" "endpoints (connection_write m k cm) = endpoints cm"
  "connecting (connection_write m k cm) = connecting cm" "retry_timers (connection_write m k cm) = retry_timers cm"
  "length (connections (connection_write m k cm)) = length (connections cm)" "posted (connection_write m k cm) = posted cm"
  by (simp_all add: connection_write_def Let_def)

lemma connection_write_nth:
  assumes "j < length (connections cm)"
  shows "connections (connection_write m k cm) ! j =
    (if j = k then (connections cm ! j)\<lparr>conn_out := conn_out (connections cm ! j) @ write_message m\<rparr> else connections cm ! j)"
  using assms by (simp add: connection_write_def Let_def nth_list_update)

definition only_writes :: "'e cluster_manager \<Rightarrow> 'e cluster_manager \<Rightarrow> bool" where
  "only_writes cm cm' \<longleftrightarrow>
     outgoing_sessions cm' = outgoing_sessions cm \<and> endpoints cm' = endpoints cm \<and> connecting cm' = connecting cm \<and>
     retry_timers cm' = retry_timers cm \<and> length (connections cm') = length (connections cm) \<and>
     (\<forall>j < length (connections cm). conn_endpoint (connections cm' ! j) = conn_endpoint (connections cm ! j) \<and>
        conn_session (connections cm' ! j) = conn_session (connections cm ! j))"

lemma only_writes_refl: "only_writes cm cm"
  by (simp add: only_writes_def)

lemma only_writes_trans: "only_writes a b \<Longrightarrow> only_writes b c \<Longrightarrow> only_writes a c"
  by (simp add: only_writes_def)

lemma only_writes_write: "only_writes cm (connection_write m k cm)"
  by (auto simp: only_writes_def connection_write_fields connection_write_nth)

lemma only_writes_fold: "only_writes cm (fold (\<lambda>(i, k). connection_write m k) ks cm)"
  by (induction ks arbitrary: cm) (auto intro: only_writes_refl only_writes_trans only_writes_write)

lemma only_writes_task: "only_writes cm (run_task t cm)"
  by (cases t) (auto simp: only_writes_refl only_writes_fold only_writes_write split: option.split)

lemma only_writes_inv:
  assumes "manager_inv cm" and "only_writes cm cm'"
  shows "manager_inv cm'"
proof -
  note inv = manager_invD [OF assms(1)]
  have "session_status_of i cm' = session_status_of i cm" for i
    using inv(3) [of i] assms(2) by (auto simp: session_status_of_def only_writes_def intro!: option.map_cong0 elim!: option.set_cases)
  then have "links cm' i = links cm i" for i using assms(2) by (simp add: links_def linked_def only_writes_def)
  with assms show ?thesis by (simp add: manager_inv_def only_writes_def)
qed

lemma other_fields_inv:
  assumes "manager_inv cm"
  shows "manager_inv (cm\<lparr>posted := ts\<rparr>)" "manager_inv (cm\<lparr>incoming_sessions := ins, incoming_sessions_count := c\<rparr>)"
    "manager_inv (cm\<lparr>incoming_sessions := ins\<rparr>)"
  using assms by (auto intro!: only_writes_inv [OF assms] simp: only_writes_def)

lemma manager_step_inv:
  assumes "manager_inv cm" and "event_enabled ev cm" and "manager_step ev cm = Inr (out, cm')"
  shows "manager_inv cm'"
  using assms
proof (cases "(ev, cm)" rule: manager_step.cases)
  case (3 cm)
  with assms show ?thesis
    by (auto simp: run_posted_def other_fields_inv split: list.splits intro!: only_writes_inv [OF _ only_writes_task])
next
  case (8 error cm)
  with assms show ?thesis by (auto simp: cluster_accept_new_connection_def intro!: only_writes_inv [OF assms(1)] simp: only_writes_def)
next
  case (9 error bs i cm)
  with assms show ?thesis
    by (auto simp: incoming_read_completed_def other_fields_inv split: option.splits)
qed (auto simp: broad_cast_def cluster_write_message_def other_fields_inv connect_completed_inv retry_expired_inv outgoing_write_completed_def
    outgoing_read_completed_def intro!: outgoing_completed_inv write_completed_outcome intro: read_completed_outcome)

lemma manager_run_inv:
  "manager_run cm d \<Longrightarrow> manager_inv cm \<Longrightarrow> manager_inv d \<and> endpoints d = endpoints cm"
proof (induction rule: manager_run.induct)
  case (manager_steps cm d ev out e)
  have "endpoints e = endpoints d"
    using manager_steps.hyps(3) only_writes_task [of "d\<lparr>posted := tl (posted d)\<rparr>"]
    by (cases "(ev, d)" rule: manager_step.cases)
      (auto simp: broad_cast_def cluster_write_message_def run_posted_def connect_completed_def retry_later_def retry_expired_def connect_fields
        outgoing_write_completed_def outgoing_read_completed_def outgoing_completed_def cluster_accept_new_connection_def incoming_read_completed_def
        only_writes_def Let_def split: list.splits option.splits)
  with manager_steps manager_step_inv show ?case by fastforce
qed simp

lemma start_inv:
  fixes eps :: "(int \<times> 'e list) list"
  assumes "distinct (map fst eps)"
  shows "manager_inv (cluster_start (ClusterManager_new eps)) \<and> endpoints (cluster_start (ClusterManager_new eps)) = eps"
proof -
  let ?fresh = "\<lambda>(cm :: 'e cluster_manager) c. connecting cm = c \<and> retry_timers cm = [] \<and> outgoing_sessions cm = [] \<and> connections cm = [] \<and> endpoints cm = eps"
  have step: "?fresh (connect i cm) (c @ [i])" if "?fresh cm c" for i c cm
    using that by (simp add: connect_fields linked_def session_status_of_def)
  have "?fresh (fold (\<lambda>(i, a). connect i) xs cm) (c @ map fst xs)" if "?fresh cm c" for xs :: "(int \<times> 'e list) list" and c cm
    using that
  proof (induction xs arbitrary: c cm)
    case (Cons x xs)
    obtain i a where "x = (i, a)" by (cases x)
    with Cons.IH [OF step [OF Cons.prems]] show ?case by simp
  qed simp
  note fresh = this
  let ?cm = "cluster_start (ClusterManager_new eps)"
  have cm: "?fresh ?cm (map fst eps)"
    unfolding cluster_start_def Let_def using fresh [of _ "[]"] by (simp add: ClusterManager_new_def)
  have "links ?cm i = (if i \<in> fst ` set eps then 1 else 0)" for i
  proof -
    have "count_list (map fst eps) i = (if i \<in> set (map fst eps) then 1 else 0)"
      using assms by (rule count_distinct)
    then show ?thesis using cm by (simp add: links_def linked_def session_status_of_def)
  qed
  with cm show ?thesis by (simp add: manager_inv_def smap.ok_empty)
qed

section \<open>Messages to the peers\<close>

text \<open>The messages that a list of tasks is meant to send to an endpoint.\<close>

fun addressed :: "int \<Rightarrow> cluster_task list \<Rightarrow> message list" where
  "addressed i [] = []"
| "addressed i (BroadCast m # ts) = m # addressed i ts"
| "addressed i (WriteTo j m # ts) = (if j = i then m # addressed i ts else addressed i ts)"

lemma fold_write_nth:
  assumes "distinct ks" and "k < length (connections cm)"
  shows "conn_out (connections (fold (\<lambda>k. connection_write m k) ks cm) ! k) =
    conn_out (connections cm ! k) @ (if k \<in> set ks then write_message m else [])"
  using assms by (induction ks arbitrary: cm) (auto simp: connection_write_nth connection_write_fields)

lemma fold_snd: "fold (\<lambda>(i, k). f k) xs s = fold f (map snd xs) s"
  by (induction xs arbitrary: s) auto

lemma run_task_out:
  assumes "manager_inv cm" and "map_find (outgoing_sessions cm) i = Some k"
  shows "conn_out (connections (run_task t cm) ! k) = conn_out (connections cm ! k) @ concat (map write_message (addressed i [t]))"
proof -
  note inv = manager_invD [OF assms(1)]
  have k: "k < length (connections cm)" "conn_endpoint (connections cm ! k) = i" using inv(3) assms(2) by auto
  show ?thesis
  proof (cases t)
    case (BroadCast m)
    have keys: "distinct (map fst (outgoing_sessions cm))" using inv(5) by (simp add: map_ok_def strict_sorted_iff)
    have "k1 = k2 \<longrightarrow> p = q" if "(p, k1) \<in> set (outgoing_sessions cm)" "(q, k2) \<in> set (outgoing_sessions cm)" for p q k1 k2
      using inv(3) [of p k1] inv(3) [of q k2] keys that by (auto simp: map_find_def)
    then have "inj_on snd (set (outgoing_sessions cm))" by (auto simp: inj_on_def)
    with keys have "distinct (map snd (outgoing_sessions cm))" by (simp add: distinct_map)
    moreover have "k \<in> set (map snd (outgoing_sessions cm))"
      using assms(2) by (force simp: map_find_def dest: map_of_SomeD)
    moreover have "fold (\<lambda>(i, k). connection_write m k) (outgoing_sessions cm) cm = fold (\<lambda>k. connection_write m k) (map snd (outgoing_sessions cm)) cm"
      by (rule fold_snd)
    ultimately show ?thesis using fold_write_nth [of "map snd (outgoing_sessions cm)" k cm m] k BroadCast by simp
  next
    case (WriteTo j m)
    then show ?thesis
      using assms(2) k inv(3) [of j] by (auto simp: connection_write_nth split: option.split)
  qed
qed

lemma run_posted_cons: "posted cm = t # ts \<Longrightarrow> run_posted cm = run_task t (cm\<lparr>posted := ts\<rparr>)"
  by (simp add: run_posted_def)

lemma run_task_posted: "posted (run_task t cm) = posted cm"
proof -
  have "posted (fold (\<lambda>(i, k). connection_write m k) ks d) = posted d" for ks m and d :: "'a cluster_manager"
    by (induction ks arbitrary: d) (auto simp: connection_write_fields)
  then show ?thesis by (cases t) (auto simp: connection_write_fields split: option.split)
qed

lemma run_all_posted:
  assumes "manager_inv cm" and "map_find (outgoing_sessions cm) i = Some k"
  shows "let d = (run_posted ^^ length (posted cm)) cm
    in posted d = [] \<and> map_find (outgoing_sessions d) i = Some k \<and>
       conn_out (connections d ! k) = conn_out (connections cm ! k) @ concat (map write_message (addressed i (posted cm)))"
  using assms
proof (induction "posted cm" arbitrary: cm)
  case Nil
  then show ?case by (simp flip: Nil.hyps(1))
next
  case (Cons t ts)
  let ?d = "run_task t (cm\<lparr>posted := ts\<rparr>)"
  have d: "run_posted cm = ?d" "posted ?d = ts" using Cons.hyps(2) by (simp_all add: run_posted_cons run_task_posted)
  have pre: "manager_inv (cm\<lparr>posted := ts\<rparr>)" by (rule other_fields_inv [OF Cons.prems(1)])
  have keep: "manager_inv ?d" "map_find (outgoing_sessions ?d) i = Some k"
    using only_writes_inv [OF pre only_writes_task] only_writes_task [of "cm\<lparr>posted := ts\<rparr>" t] Cons.prems(2) by (auto simp: only_writes_def)
  have "addressed i (t # ts) = addressed i [t] @ addressed i ts" by (cases t) simp_all
  moreover have "conn_out (connections ?d ! k) = conn_out (connections cm ! k) @ concat (map write_message (addressed i [t]))"
    using run_task_out [OF pre, of i k t] Cons.prems(2) by simp
  moreover have "(run_posted ^^ length (posted cm)) cm = (run_posted ^^ length (posted ?d)) ?d"
    using Cons.hyps(2) d by (simp add: funpow_swap1 flip: Cons.hyps(2))
  ultimately show ?case
    using Cons.hyps(1) [of ?d] keep d(2) by (simp add: Let_def flip: Cons.hyps(2))
qed

section \<open>Properties of the cluster manager\<close>

text \<open>
  C20: the manager never gives up on a configured endpoint and never opens a second connection to it: from the start on, whatever completions, failures and timers occur,
  exactly one of these holds for it: a session is connected, one connection attempt is under way, or one retry timer is running.
\<close>

theorem endpoint_never_abandoned:
  assumes "manager_run (cluster_start (ClusterManager_new eps)) cm" and "distinct (map fst eps)" and "i \<in> fst ` set eps"
  shows "count_list (connecting cm) i + count_list (retry_timers cm) i + (if session_status_of i cm = Some CONNECTED then 1 else 0) = 1"
  using manager_run_inv [OF assms(1)] start_inv [OF assms(2)] assms(3)
  by (auto simp: manager_inv_def links_def linked_def)

text \<open>The connection to endpoint 2 is opened, lost, and tried again.\<close>

definition flaky :: "nat cluster_manager \<Rightarrow> nat cluster_manager" where
  "flaky cm = retry_expired 2 (outgoing_write_completed True 0 (connect_completed False 2 cm))"

theorem endpoint_never_abandoned_witness:
  "\<exists>cm. manager_run (cluster_start (ClusterManager_new [(1, [10]), (2, [20 :: nat])])) cm \<and> connecting cm = [1, 2] \<and>
     count_list (connecting cm) 2 + count_list (retry_timers cm) 2 + (if session_status_of 2 cm = Some CONNECTED then 1 else 0) = 1"
proof -
  let ?s = "cluster_start (ClusterManager_new [(1, [10]), (2, [20 :: nat])])"
  let ?a = "connect_completed False 2 ?s"
  let ?b = "outgoing_write_completed True 0 ?a"
  have s: "connecting ?s = [1, 2]" "connections ?s = []" "retry_timers ?s = []" "outgoing_sessions ?s = []"
    by (simp_all add: cluster_start_def ClusterManager_new_def connect_def session_status_of_def map_index_def map_find_def)
  have a: "connecting ?a = [1]" "length (connections ?a) = 1" "retry_timers ?a = []"
    using s by (simp_all add: connect_completed_def)
  have b: "retry_timers ?b = [2]" "connecting (flaky ?s) = [1, 2]"
    using s by (simp_all add: flaky_def connect_completed_def outgoing_write_completed_def outgoing_completed_def write_completed_def disconneted_def
        retry_later_def retry_expired_def connect_def session_status_of_def start_read_def read_header_def Session_new_def
        map_find_def case_prod_beta Let_def)
  have "manager_run ?s ?a" by (rule manager_steps [OF manager_start, of "ConnectCompleted False 2"]) (simp_all add: s)
  then have "manager_run ?s ?b" by (rule manager_steps [of _ _ "OutgoingWriteCompleted True 0"]) (simp_all add: a)
  then have run: "manager_run ?s (flaky ?s)"
    unfolding flaky_def by (rule manager_steps [of _ _ "RetryExpired 2"]) (simp_all add: b)
  from endpoint_never_abandoned [OF run, of 2] b(2) run show ?thesis by (intro exI [of _ "flaky ?s"]) simp
qed

text \<open>
  Once the posted tasks have run, the socket to a connected endpoint has been handed exactly the frames of the messages broadcast or addressed to it, in the order of the
  calls; a peer that reads them hands the same message bodies, in that order, to its handler.
\<close>

lemma posted_messages_reach_peer:
  assumes "manager_inv cm" and "map_find (outgoing_sessions cm) i = Some k" and "list_all message_ok (addressed i (posted cm))"
    and "reading peer" and "conn_out (connections cm ! k) = []"
  shows "let d = (run_posted ^^ length (posted cm)) cm
    in posted d = [] \<and> (\<exists>peer' ev. read_all (conn_out (connections d ! k)) peer = Inr (peer', ev, []) \<and> reading peer' \<and>
         handled ev = map payload (addressed i (posted cm)))"
  using run_all_posted [OF assms(1,2)] read_all_frames [OF assms(4,3), of "[]"] assms(5)
  by (auto simp: Let_def HEADER_LENGTH_def)

end
