(* ===== verification/Cluster_Master.thy ===== *)
theory Cluster_Master
  imports Cluster_Manager Cluster_Node_Delivery
begin

text \<open>
  \<open>class ClusterMaster\<close> (cluster_master.hpp, cluster_master.cpp): one server, with the nodes of its partitions over one cluster manager and one client manager. It dispatches the messages
  that both managers receive to the node of their partition. Every node has an \<open>io_context\<close> of its own, whose queue of posted handlers is the list \<open>slot_tasks\<close>; the
  interleaving of the threads is the order of the steps of a server. The list \<open>slot_sent\<close> is the history of what a node has handed to the cluster manager.
\<close>

datatype node_task = HandleMessage raft_message | HandleDisconnected client_id_type

record node_slot =
  slot_node :: cluster_node
  slot_timers :: nat
  slot_tasks :: "node_task list"
  slot_sent :: "(destination \<times> raft_message) list"

record 'e cluster_master =
  nodes :: "(partition_id_type, node_slot) smap"
  cluster_manager_p :: "'e cluster_manager"
  client_manager_p :: "raft_message client_manager"
  master_config :: server_configuration

definition ClusterMaster_new ::
  "'e cluster_manager \<Rightarrow> raft_message client_manager \<Rightarrow> server_configuration \<Rightarrow> 'e cluster_master" where
  "ClusterMaster_new cm cl cfg =
     \<lparr>nodes = [], cluster_manager_p = cluster_start cm, client_manager_p = cl, master_config = cfg\<rparr>"

definition add_cluster_node :: "partition_id_type \<Rightarrow> cluster_node \<Rightarrow> 'e cluster_master \<Rightarrow> 'e cluster_master" where
  "add_cluster_node p n m =
     m\<lparr>nodes := map_set p \<lparr>slot_node = n, slot_timers = 0, slot_tasks = [], slot_sent = []\<rparr> (nodes m)\<rparr>"

definition post_task :: "node_task \<Rightarrow> node_slot \<Rightarrow> node_slot" where
  "post_task t sl = sl\<lparr>slot_tasks := slot_tasks sl @ [t]\<rparr>"

text \<open>The message is decoded here to find its partition and once more by the node, which posts it to its thread.\<close>

definition message_handler :: "wire \<Rightarrow> message \<Rightarrow> 'e cluster_master \<Rightarrow> cpp_error + 'e cluster_master" where
  "message_handler w msg m =
     andThen (deserialize_from_message w msg) (\<lambda>raft_msg.
       case map_find (nodes m) (msg_partition_id raft_msg) of
         None \<Rightarrow> Inl AssertFailed
       | Some sl \<Rightarrow> andThen (deserialize_from_message w msg) (\<lambda>posted_msg.
           Inr (m\<lparr>nodes := map_set (msg_partition_id raft_msg) (post_task (HandleMessage posted_msg) sl) (nodes m)\<rparr>)))"

definition client_disconnected :: "client_id_type \<Rightarrow> 'e cluster_master \<Rightarrow> 'e cluster_master" where
  "client_disconnected client_id m = m\<lparr>nodes := map (\<lambda>(p, sl). (p, post_task (HandleDisconnected client_id) sl)) (nodes m)\<rparr>"

definition get_nodes :: "'e cluster_master \<Rightarrow> (partition_id_type, cluster_node) smap" where
  "get_nodes m = fold (\<lambda>(p, sl). map_set p (slot_node sl)) (nodes m) []"

section \<open>A server\<close>

text \<open>A node runs on the client manager of its server; what it sends is posted to the cluster manager.\<close>

definition slot_world :: "node_slot \<Rightarrow> raft_message client_manager \<Rightarrow> world" where
  "slot_world sl cl = \<lparr>node = slot_node sl, clients = cl, sent = slot_sent sl, vote_timers = slot_timers sl\<rparr>"

fun post_sent :: "wire \<Rightarrow> (destination \<times> raft_message) list \<Rightarrow> 'e cluster_manager \<Rightarrow> cpp_error + 'e cluster_manager" where
  "post_sent w [] cm = Inr cm"
| "post_sent w ((dest, msg) # out) cm =
     andThen (serialize_to_message w msg Message_new) (\<lambda>buf.
       post_sent w out (case dest of ToAll \<Rightarrow> broad_cast buf cm | ToNode i \<Rightarrow> cluster_write_message i buf cm))"

definition run_node :: "node_env \<Rightarrow> node_event \<Rightarrow> partition_id_type \<Rightarrow> 'e cluster_master \<Rightarrow> cpp_error + 'e cluster_master" where
  "run_node env ev p m =
     (case map_find (nodes m) p of
        None \<Rightarrow> Inr m
      | Some sl \<Rightarrow> andThen (node_step env ev (slot_world sl (client_manager_p m))) (\<lambda>s.
          andThen (post_sent (env_wire env) (drop (length (slot_sent sl)) (sent s)) (cluster_manager_p m)) (\<lambda>cm.
            Inr (m\<lparr>nodes := map_set p (sl\<lparr>slot_node := node s, slot_timers := vote_timers s, slot_sent := sent s\<rparr>) (nodes m),
                   cluster_manager_p := cm, client_manager_p := clients s\<rparr>))))"

fun task_event :: "node_task \<Rightarrow> node_event" where
  "task_event (HandleMessage msg) = Receive msg"
| "task_event (HandleDisconnected client_id) = ConsumerLost client_id"

text \<open>The thread of a partition takes its oldest task.\<close>

definition take_task :: "partition_id_type \<Rightarrow> 'e cluster_master \<Rightarrow> (node_task \<times> 'e cluster_master) option" where
  "take_task p m =
     (case map_find (nodes m) p of
        None \<Rightarrow> None
      | Some sl \<Rightarrow> (case slot_tasks sl of
          [] \<Rightarrow> None
        | t # ts \<Rightarrow> Some (t, m\<lparr>nodes := map_set p (sl\<lparr>slot_tasks := ts\<rparr>) (nodes m)\<rparr>)))"

datatype server_event =
    ClientAccepted client_id_type
  | ClientSent client_id_type message
  | ClientLost client_id_type
  | Manager manager_event
  | RunTask partition_id_type
  | RunTimer partition_id_type node_event

definition is_timer :: "node_event \<Rightarrow> bool" where
  "is_timer ev \<longleftrightarrow> ev = HeartbeatTimer \<or> ev = VoteTimer \<or> ev = VoteDelay"

fun server_step :: "node_env \<Rightarrow> server_event \<Rightarrow> 'e cluster_master \<Rightarrow> cpp_error + 'e cluster_master" where
  "server_step env (ClientAccepted c) m = Inr (m\<lparr>client_manager_p := accept_new_connection c (client_manager_p m)\<rparr>)"
| "server_step env (ClientSent c msg) m =
     andThen (handle_message (env_wire env) msg c (client_manager_p m)) (\<lambda>(forwarded, cl).
       forEach (message_handler (env_wire env)) forwarded (m\<lparr>client_manager_p := cl\<rparr>))"
| "server_step env (ClientLost c) m =
     (let (client_id, cl) = session_disconnected c (client_manager_p m) in Inr (client_disconnected client_id (m\<lparr>client_manager_p := cl\<rparr>)))"
| "server_step env (Manager ev) m =
     andThen (manager_step ev (cluster_manager_p m)) (\<lambda>(received, cm).
       forEach (message_handler (env_wire env)) received (m\<lparr>cluster_manager_p := cm\<rparr>))"
| "server_step env (RunTask p) m =
     (case take_task p m of None \<Rightarrow> Inr m | Some (t, m) \<Rightarrow> run_node env (task_event t) p m)"
| "server_step env (RunTimer p ev) m = (if is_timer ev then run_node env ev p m else Inr m)"

text \<open>
  What can happen to a server: completions and timers that are pending, messages of peers that name a real node as candidate, and tasks of the posted nodes.
\<close>

fun server_enabled :: "server_event \<Rightarrow> 'e cluster_master \<Rightarrow> bool" where
  "server_enabled (Manager ev) m \<longleftrightarrow> event_enabled ev (cluster_manager_p m)"
| "server_enabled (RunTask p) m \<longleftrightarrow> (case take_task p m of None \<Rightarrow> True | Some (t, m') \<Rightarrow> event_ok (task_event t))"
| "server_enabled _ m \<longleftrightarrow> True"

inductive server_run :: "wire \<Rightarrow> server_configuration \<Rightarrow> 'e cluster_master \<Rightarrow> 'e cluster_master \<Rightarrow> bool" for w cfg where
  server_start: "server_run w cfg m m"
| server_steps: "server_run w cfg m m' \<Longrightarrow> env_wire env = w \<Longrightarrow> server_config env = cfg \<Longrightarrow> server_enabled ev m' \<Longrightarrow>
    server_step env ev m' = Inr m'' \<Longrightarrow> server_run w cfg m m''"

section \<open>The nodes of a server\<close>

text \<open>A node as it is seen inside its server.\<close>

definition node_world :: "partition_id_type \<Rightarrow> 'e cluster_master \<Rightarrow> world option" where
  "node_world p m = map_option (\<lambda>sl. slot_world sl (client_manager_p m)) (map_find (nodes m) p)"

text \<open>One step of a server is a run of every one of its nodes.\<close>

definition nodes_run :: "wire \<Rightarrow> server_configuration \<Rightarrow> 'e cluster_master \<Rightarrow> 'e cluster_master \<Rightarrow> bool" where
  "nodes_run w cfg m m' \<longleftrightarrow>
     (\<forall>p s. node_world p m = Some s \<longrightarrow> (\<exists>s'. node_world p m' = Some s' \<and> node_run w cfg s s'))"

lemma node_run_trans: "node_run w cfg s t \<Longrightarrow> node_run w cfg t u \<Longrightarrow> node_run w cfg s u"
  by (rotate_tac, induction rule: node_run.induct) (auto intro: run_step)

lemma nodes_run_refl: "nodes_run w cfg m m"
  by (auto simp: nodes_run_def intro: run_start)

lemma nodes_run_trans: "nodes_run w cfg m m' \<Longrightarrow> nodes_run w cfg m' m'' \<Longrightarrow> nodes_run w cfg m m''"
  unfolding nodes_run_def by (meson node_run_trans)

text \<open>Steps that leave the nodes alone: they may post tasks and change the managers.\<close>

definition same_nodes :: "'e cluster_master \<Rightarrow> 'e cluster_master \<Rightarrow> bool" where
  "same_nodes m m' \<longleftrightarrow> (\<forall>p cl. map_option (\<lambda>sl. slot_world sl cl) (map_find (nodes m') p) = map_option (\<lambda>sl. slot_world sl cl) (map_find (nodes m) p))"

lemma same_nodes_refl: "nodes m' = nodes m \<Longrightarrow> same_nodes m m'"
  by (simp add: same_nodes_def)

lemma same_nodes_managers [simp]:
  "same_nodes (m\<lparr>client_manager_p := cl\<rparr>) m' = same_nodes m m'" "same_nodes (m\<lparr>cluster_manager_p := cm\<rparr>) m' = same_nodes m m'"
  by (simp_all add: same_nodes_def)

lemma same_nodes_trans: "same_nodes m m' \<Longrightarrow> same_nodes m' m'' \<Longrightarrow> same_nodes m m''"
  by (simp add: same_nodes_def)

lemma post_task_world [simp]: "slot_world (post_task t sl) cl = slot_world sl cl"
  by (simp add: slot_world_def post_task_def)

lemma same_nodes_handler: "message_handler w msg m = Inr m' \<Longrightarrow> same_nodes m m'"
  by (auto simp: message_handler_def same_nodes_def split: option.splits)

lemma same_nodes_handlers: "forEach (message_handler w) msgs m = Inr m' \<Longrightarrow> same_nodes m m'"
  by (erule forEach_keeps [rotated, where P = "same_nodes m"])
    (auto intro: same_nodes_refl same_nodes_trans dest: same_nodes_handler)

lemma same_nodes_disconnected: "same_nodes m (client_disconnected c (m\<lparr>client_manager_p := cl\<rparr>))"
  by (simp add: client_disconnected_def same_nodes_def map_find_values option.map_comp comp_def)

lemma same_nodes_take: "take_task p m = Some (t, m') \<Longrightarrow> same_nodes m m'"
  by (auto simp: take_task_def same_nodes_def slot_world_def split: option.splits list.splits)

lemma clients_changed:
  fixes env :: node_env
  assumes "env_wire env = w" and "server_config env = cfg"
  shows "node_run w cfg (slot_world sl cl) (slot_world sl cl')"
  by (rule run_step [OF run_start, of env _ _ "ClientsChanged cl'"]) (use assms in \<open>simp_all add: slot_world_def\<close>)

lemma nodes_run_same:
  fixes env :: node_env
  assumes "same_nodes m m'" and "env_wire env = w" and "server_config env = cfg"
  shows "nodes_run w cfg m m'"
  unfolding nodes_run_def
proof (intro allI impI)
  fix p s assume "node_world p m = Some s"
  then obtain sl where sl: "map_find (nodes m) p = Some sl" "s = slot_world sl (client_manager_p m)" by (auto simp: node_world_def)
  with assms(1) have "node_world p m' = Some (slot_world sl (client_manager_p m'))"
    by (simp add: same_nodes_def node_world_def)
  with sl clients_changed [OF assms(2,3)] show "\<exists>s'. node_world p m' = Some s' \<and> node_run w cfg s s'" by blast
qed

lemma nodes_run_node:
  assumes "run_node env ev p m = Inr m'" and "event_ok ev" and "env_wire env = w" and "server_config env = cfg"
  shows "nodes_run w cfg m m'"
proof (cases "map_find (nodes m) p")
  case None
  with assms(1) show ?thesis by (simp add: run_node_def nodes_run_refl)
next
  case (Some sl)
  with assms(1) obtain s cm where s: "node_step env ev (slot_world sl (client_manager_p m)) = Inr s"
    and m': "m' = m\<lparr>nodes := map_set p (sl\<lparr>slot_node := node s, slot_timers := vote_timers s, slot_sent := sent s\<rparr>) (nodes m),
       cluster_manager_p := cm, client_manager_p := clients s\<rparr>"
    by (auto simp: run_node_def)
  have same: "slot_world (sl\<lparr>slot_node := node s, slot_timers := vote_timers s, slot_sent := sent s\<rparr>) (clients s) = s"
    by (simp add: slot_world_def)
  show ?thesis unfolding nodes_run_def
  proof (intro allI impI)
    fix q u assume u: "node_world q m = Some u"
    show "\<exists>s'. node_world q m' = Some s' \<and> node_run w cfg u s'"
    proof (cases "q = p")
      case True
      with u Some have "u = slot_world sl (client_manager_p m)" by (simp add: node_world_def)
      with s assms(2-4) have "node_run w cfg u s" by (auto intro: run_step [OF run_start])
      with True show ?thesis by (simp add: node_world_def m' same)
    next
      case False
      with u obtain sl' where "map_find (nodes m) q = Some sl'" "u = slot_world sl' (client_manager_p m)" by (auto simp: node_world_def)
      with False clients_changed [OF assms(3,4)] show ?thesis by (simp add: node_world_def m')
    qed
  qed
qed

lemma server_step_nodes:
  assumes "server_step env ev m = Inr m'" and "server_enabled ev m" and "env_wire env = w" and "server_config env = cfg"
  shows "nodes_run w cfg m m'"
proof (cases "(env, ev, m)" rule: server_step.cases)
  case (1 env c m)
  with assms show ?thesis by (auto intro!: nodes_run_same [of _ _ env] same_nodes_refl)
next
  case (2 env c msg m)
  with assms show ?thesis
    by (auto intro!: nodes_run_same [of _ _ env] dest!: same_nodes_handlers)
next
  case (3 env c m)
  with assms show ?thesis
    by (auto simp: case_prod_beta Let_def intro!: nodes_run_same [of _ _ env] intro: same_nodes_disconnected)
next
  case (4 env ev m)
  with assms show ?thesis
    by (auto intro!: nodes_run_same [of _ _ env] dest!: same_nodes_handlers)
next
  case (5 env p m)
  with assms show ?thesis
    by (auto split: option.splits intro: nodes_run_refl nodes_run_trans [OF nodes_run_same [OF same_nodes_take] nodes_run_node])
next
  case (6 env p ev m)
  with assms show ?thesis
    by (auto simp: is_timer_def split: if_splits intro: nodes_run_refl nodes_run_node)
qed

lemma server_run_nodes: "server_run w cfg m m' \<Longrightarrow> nodes_run w cfg m m'"
  by (induction rule: server_run.induct) (auto intro: nodes_run_refl nodes_run_trans server_step_nodes)

section \<open>Properties of a server\<close>


text \<open>A server of node 0 that serves partition 0 and has no peers yet.\<close>

definition sample_server :: "nat cluster_master" where
  "sample_server = add_cluster_node 0 (sample_node 0) (ClusterMaster_new (ClusterManager_new [(1, [10]), (2, [20])]) ClientManager_new sample_config)"

lemma sample_server_fields:
  "nodes sample_server = [(0, \<lparr>slot_node = sample_node 0, slot_timers = 0, slot_tasks = [], slot_sent = []\<rparr>)]"
  "node_world 0 sample_server = Some (start_world (sample_node 0))"
  by (simp_all add: sample_server_def add_cluster_node_def ClusterMaster_new_def node_world_def slot_world_def start_world_def map_find_def)


lemma types_differ: "CLIENT_OPEN_QUEUE \<noteq> CLIENT_PUT_MESSAGE" "CLIENT_OPEN_QUEUE \<noteq> CLIENT_COMMIT_MESSAGE"
  by (simp_all add: message_types)

lemma client_sent_outcome:
  assumes "deserialize_from_message (env_wire env) msg = Inr rm"
  shows "server_step env (ClientSent c msg) m =
    (if msg_type rm \<notin> {CLIENT_OPEN_QUEUE, CLIENT_PUT_MESSAGE, CLIENT_COMMIT_MESSAGE} then Inl RuntimeError
     else case map_find (nodes m) (msg_partition_id rm) of
       None \<Rightarrow> Inl AssertFailed
     | Some sl \<Rightarrow> Inr (m\<lparr>nodes := map_set (msg_partition_id rm) (sl\<lparr>slot_tasks := slot_tasks sl @ [HandleMessage rm]\<rparr>) (nodes m),
         client_manager_p := (if msg_type rm = CLIENT_OPEN_QUEUE then open_partition (msg_partition_id rm) c (client_manager_p m)
           else client_manager_p m)\<rparr>))"
  using assms types_differ
  by (auto simp: handle_message_def message_handler_def post_task_def split: option.split)

text \<open>
  C32: what a message of a client does to a server, for every message: a type that is not one of the three client requests stops the server with an exception, and a partition it
  does not serve with an assertion; otherwise the message is posted to the node of its partition, after the client has become a consumer of it if it opens the queue, and no other
  node and no connection is touched.
\<close>

theorem client_message_outcome:
  assumes "deserialize_from_message (env_wire env) msg = Inr rm"
  shows "server_step env (ClientSent c msg) m =
    (if msg_type rm \<notin> {CLIENT_OPEN_QUEUE, CLIENT_PUT_MESSAGE, CLIENT_COMMIT_MESSAGE} then Inl RuntimeError
     else case map_find (nodes m) (msg_partition_id rm) of
       None \<Rightarrow> Inl AssertFailed
     | Some sl \<Rightarrow> Inr (m\<lparr>nodes := map_set (msg_partition_id rm) (sl\<lparr>slot_tasks := slot_tasks sl @ [HandleMessage rm]\<rparr>) (nodes m),
         client_manager_p := (if msg_type rm = CLIENT_OPEN_QUEUE then open_partition (msg_partition_id rm) c (client_manager_p m)
           else client_manager_p m)\<rparr>))"
  using assms by (rule client_sent_outcome)

text \<open>A request for partition 9, which the sample server does not serve.\<close>

definition stray_request :: raft_message where
  "stray_request = set_partition_id 9 (loadClientPutMessageRequest (ClientPutMessage_new\<lparr>cpm_message_fld := Some ''hi''\<rparr>) RaftMessage_new)"

lemma stray_sizes:
  "ClientPutMessage_ByteSizeLong varint_wire (get_put_message_request stray_request) = 4"
  "FlowMessage_ByteSizeLong varint_wire stray_request = 10"
  by (simp_all add: byte_size_defs message_getter_defs get_defs stray_request_def load_defs message_new_defs message_types)
    (simp_all add: varint_size)

lemma stray_request_fits: "FlowMessage_fits varint_wire stray_request"
  using stray_sizes(1)
  by (simp add: fits_defs get_defs stray_request_def load_defs message_new_defs MessageType_IsValid_def message_types in_int32_def in_int64_def)

theorem client_message_outcome_witness:
  "\<exists>msg. serialize_as_message varint_wire stray_request = Inr msg \<and> server_step sample_env (ClientSent 7 msg) sample_server = Inl AssertFailed"
proof -
  from varint.serialize_as_message_ok [OF stray_request_fits] stray_sizes(2) obtain msg where
    msg: "serialize_as_message varint_wire stray_request = Inr msg" "payload msg = FlowMessage_SerializeWithCachedSizes varint_wire stray_request"
    by (auto simp: MAX_BODY_LENGTH_def)
  have "deserialize_from_message (env_wire sample_env) msg = Inr stray_request"
    using varint.deserialize_payload [OF stray_request_fits msg(2)] by simp
  from client_message_outcome [OF this, of 7 sample_server] msg(1) show ?thesis
    by (auto simp: stray_request_def load_defs get_defs message_new_defs sample_server_fields map_find_def)
qed

end
