(* ===== verification/Server.thy ===== *)
theory Server
  imports Cluster_Master Logging
begin

text \<open>
  The server program (application/cluster_node.cpp): \<open>main\<close> and \<open>RunServer\<close>, which reads the configuration and builds the managers, the cluster master and one node for each
  partition, up to the point where the threads start to run their \<open>io_context\<close>. What the program takes from its environment is the record \<open>server_os\<close>: the files, the ports that can be
  bound, the resolver, and the values of the members that are not initialized.
\<close>

record 'e server_os =
  os_wire :: wire
  config_text :: "string \<Rightarrow> string option"
  log_writable :: "string \<Rightarrow> bool"
  can_bind :: "int \<Rightarrow> bool"
  resolver :: "string \<Rightarrow> string \<Rightarrow> cpp_error + 'e list"
  os_disk :: file_system
  uninitialized :: int

definition unsigned_short :: "int \<Rightarrow> int" where
  "unsigned_short v = v mod 2 ^ 16"

text \<open>The loop over the configured nodes from position \<open>i\<close> on: the cluster port of this node, and the other endpoints.\<close>

fun scan_nodes ::
  "'e server_os \<Rightarrow> int \<Rightarrow> int \<Rightarrow> server_point list \<Rightarrow> int \<times> (int \<times> 'e list) list \<Rightarrow> cpp_error + int \<times> (int \<times> 'e list) list" where
  "scan_nodes os cur i [] (port, others) = Inr (port, others)"
| "scan_nodes os cur i ((n, host, cluster_port, client_port) # ps) (port, others) =
     (if n = cur
      then andThen (stoi cluster_port) (\<lambda>v. scan_nodes os cur (i + 1) ps (unsigned_short v, others))
      else andThen (resolver os host cluster_port) (\<lambda>addresses. scan_nodes os cur (i + 1) ps (port, others @ [(i, addresses)])))"

definition bind_port :: "'e server_os \<Rightarrow> int \<Rightarrow> cpp_error + unit" where
  "bind_port os port = (if can_bind os port then Inr () else Inl RuntimeError)"

definition client_port_of :: "server_configuration \<Rightarrow> cpp_error + int" where
  "client_port_of cfg =
     (if 0 \<le> current_node cfg \<and> current_node cfg < int (length (server_nodes cfg))
      then andThen (stoi (snd (snd (snd (server_nodes cfg ! nat (current_node cfg)))))) (\<lambda>v. Inr (unsigned_short v))
      else Inl OutOfBounds)"

definition start_partition ::
  "'e server_os \<Rightarrow> server_configuration \<Rightarrow> partition_id_type \<Rightarrow> 'e cluster_master \<Rightarrow> cpp_error + 'e cluster_master" where
  "start_partition os cfg p m =
     (let storage = ClusterNodeStorage_new (uninitialized os) p (current_node cfg);
          node_config = \<lparr>cfg_partition_id = p, cfg_node_id = current_node cfg, cfg_total_nodes = int (length (server_nodes cfg))\<rparr>
      in andThen (ClusterNode_new (os_wire os) node_config storage (uninitialized os) (uninitialized os) (os_disk os)) (\<lambda>n.
           Inr (add_cluster_node p n m)))"

definition start_server :: "'e server_os \<Rightarrow> server_configuration \<Rightarrow> cpp_error + 'e cluster_master" where
  "start_server os cfg =
     andThen (open_logger (log_writable os) (''flowmq_log_'' @ to_string (current_node cfg) @ ''.log'') Logger_new) (\<lambda>_.
     andThen (scan_nodes os (current_node cfg) 0 (server_nodes cfg) (0, [])) (\<lambda>(cluster_port, others).
     andThen (client_port_of cfg) (\<lambda>client_port.
     andThen (bind_port os cluster_port) (\<lambda>_.
     andThen (bind_port os client_port) (\<lambda>_.
       let m = ClusterMaster_new (ClusterManager_new others) ClientManager_new cfg
       in if partitions_ids cfg = [] then Inl AssertFailed
          else forEach (start_partition os cfg) (partitions_ids cfg) m)))))"

definition RunServer :: "'e server_os \<Rightarrow> string \<Rightarrow> int \<Rightarrow> cpp_error + 'e cluster_master" where
  "RunServer os config_file cur_node =
     (case config_text os config_file of
        None \<Rightarrow> Inl RuntimeError
      | Some in_file \<Rightarrow> andThen (load_config (uninitialized os) in_file) (\<lambda>cfg.
          start_server os (if cur_node \<ge> 0 then cfg\<lparr>current_node := cur_node\<rparr> else cfg)))"

section \<open>The main program\<close>

text \<open>A standard exception ends in the handler of \<open>main\<close>; a failed assertion or an invalid access ends the process.\<close>

fun is_exception :: "cpp_error \<Rightarrow> bool" where
  "is_exception AssertFailed = False"
| "is_exception OutOfBounds = False"
| "is_exception NullPointer = False"
| "is_exception Diverges = False"
| "is_exception _ = True"

datatype 'e outcome = Serving "'e cluster_master" | Exited int | Aborted cpp_error

definition main_program :: "'e server_os \<Rightarrow> string list \<Rightarrow> 'e outcome" where
  "main_program os argv =
     (if length argv < 2 then Exited 1
      else case RunServer os (argv ! 1) (if length argv > 2 then atoi (argv ! 2) else - 1) of
          Inr m \<Rightarrow> Serving m
        | Inl e \<Rightarrow> if is_exception e then Exited 0 else Aborted e)"

section \<open>What a started server looks like\<close>

text \<open>The positions of the other nodes in the configuration.\<close>

fun other_positions :: "int \<Rightarrow> int \<Rightarrow> server_point list \<Rightarrow> int list" where
  "other_positions cur i [] = []"
| "other_positions cur i (pt # ps) = (if fst pt = cur then other_positions cur (i + 1) ps else i # other_positions cur (i + 1) ps)"

lemma scan_nodes_positions:
  "scan_nodes os cur i ps (port, others) = Inr (port', others') \<Longrightarrow> map fst others' = map fst others @ other_positions cur i ps"
  by (induction os cur i ps "(port, others)" arbitrary: port others rule: scan_nodes.induct) (auto split: if_splits)

lemma other_positions_range: "set (other_positions cur i ps) \<subseteq> {i..<i + int (length ps)} \<and> distinct (other_positions cur i ps)"
proof (induction ps arbitrary: i)
  case (Cons pt ps)
  from Cons.IH [of "i + 1"] show ?case by auto
qed simp

lemma other_positions_ids:
  assumes "map fst ps = map (\<lambda>k. i + int k) [0..<length ps]"
  shows "other_positions cur i ps = filter (\<lambda>k. k \<noteq> cur) [i..i + int (length ps) - 1]"
  using assms
proof (induction ps arbitrary: i)
  case (Cons pt ps)
  have "map fst (pt # ps) = i # map (\<lambda>k. i + 1 + int k) [0..<length ps]"
    using Cons.prems by (simp add: upt_conv_Cons map_Suc_upt [symmetric] comp_def del: upt_Suc)
  then have pt: "fst pt = i" and "map fst ps = map (\<lambda>k. i + 1 + int k) [0..<length ps]" by auto
  from Cons.IH [OF this(2)] pt show ?case by (auto simp: upto_rec1 filter_id_conv)
qed simp

text \<open>The followers of a new node are the other ids below the number of nodes.\<close>

lemma keys_fold_set: "set (map_keys (fold (\<lambda>i. map_set i v) is m)) = set (map_keys m) \<union> set is"
proof (induction "is" arbitrary: m)
  case (Cons i "is")
  then show ?case by (auto simp: map_keys_def map_set_keys)
qed simp

lemma new_node_fields:
  assumes "ClusterNode_new w cfg st heart_beat votes fs = Inr n"
  shows "partition_id n = cfg_partition_id cfg \<and> node_id n = cfg_node_id cfg \<and> total_nodes n = cfg_total_nodes cfg \<and>
    set (map_keys (next_index n)) = {0..<cfg_total_nodes cfg} - {cfg_node_id cfg}"
proof -
  from assms obtain log n' where n': "n' = fold commit_log_entry [1..int (length log) - 1] ((initial_node cfg st heart_beat votes)\<lparr>log_entries := log\<rparr>)"
    and n: "n = n' \<or> (\<exists>i. n = n'\<lparr>commit_index := i\<rparr>)"
    by (auto simp: ClusterNode_new_def Let_def case_prod_beta split: if_splits)
  obtain q where "n' = ((initial_node cfg st heart_beat votes)\<lparr>log_entries := log\<rparr>)\<lparr>queue := q\<rparr>"
    using commit_all_frame n' by metis
  with n have "next_index n = next_index (initial_node cfg st heart_beat votes)" "partition_id n = cfg_partition_id cfg"
    "node_id n = cfg_node_id cfg" "total_nodes n = cfg_total_nodes cfg" by (auto simp: initial_node_def Let_def)
  moreover have "set (map_keys (next_index (initial_node cfg st heart_beat votes))) = {0..<cfg_total_nodes cfg} - {cfg_node_id cfg}"
    by (auto simp: initial_node_def keys_fold_set map_keys_def [of "[]"] Let_def)
  ultimately show ?thesis by simp
qed

lemma new_node_returns:
  assumes "wire_format w" and "storage_valid w (st, fs)"
  shows "\<exists>n. ClusterNode_new w cfg st heart_beat votes fs = Inr n"
proof -
  from assms(2) obtain es where "list_all (entry_ok w) es"
    "map_find (files fs) (storage_log_entry_filename st) = Some (log_text w es) \<or> map_find (files fs) (storage_log_entry_filename st) = None" by auto
  with wire_format.load_file [OF assms(1)] wire_format.load_missing [OF assms(1)]
  have "\<exists>r log. storage_load_log_entry_from_file w [sentinel] st fs = Inr (r, log)"
    by (auto simp: storage_load_log_entry_from_file_def)
  moreover have "log_entries (initial_node cfg st heart_beat votes) = [sentinel]" by (simp add: initial_node_def Let_def)
  ultimately show ?thesis
    by (auto simp: ClusterNode_new_def check_if_previous_log_in_sync_def log_at_def case_prod_beta Let_def)
qed

text \<open>What the environment has to provide for a server to start.\<close>

definition node_ready :: "'e server_os \<Rightarrow> server_point \<Rightarrow> bool" where
  "node_ready os pt = (case pt of (n, host, cluster_port, client_port) \<Rightarrow>
     (\<exists>a. resolver os host cluster_port = Inr a) \<and> (\<exists>v. stoi cluster_port = Inr v) \<and> (\<exists>v. stoi client_port = Inr v))"

definition os_ready :: "'e server_os \<Rightarrow> server_configuration \<Rightarrow> bool" where
  "os_ready os cfg \<longleftrightarrow>
     wire_format (os_wire os) \<and> (\<forall>name. log_writable os name) \<and> (\<forall>port. can_bind os port) \<and> list_all (node_ready os) (server_nodes cfg) \<and>
     (\<forall>p. storage_valid (os_wire os) (ClusterNodeStorage_new (uninitialized os) p (current_node cfg), os_disk os))"

lemma scan_nodes_ready:
  "list_all (node_ready os) ps \<Longrightarrow> \<exists>r. scan_nodes os cur i ps x = Inr r"
proof (induction os cur i ps x rule: scan_nodes.induct)
  case (2 os cur i n host cluster_port client_port ps port others)
  from 2(3) have "node_ready os (n, host, cluster_port, client_port)" and ps: "list_all (node_ready os) ps" by simp_all
  then obtain a v where "resolver os host cluster_port = Inr a" "stoi cluster_port = Inr v" by (auto simp: node_ready_def)
  with ps 2(1,2) show ?case by (cases "n = cur") auto
qed simp

text \<open>A node as \<open>RunServer\<close> creates it.\<close>

definition fresh_slot :: "server_configuration \<Rightarrow> partition_id_type \<Rightarrow> node_slot \<Rightarrow> bool" where
  "fresh_slot cfg p sl \<longleftrightarrow> slot_tasks sl = [] \<and> partition_id (slot_node sl) = p \<and> node_id (slot_node sl) = current_node cfg \<and>
     set (map_keys (next_index (slot_node sl))) = {0..<int (length (server_nodes cfg))} - {current_node cfg}"

lemma start_partition_ok:
  assumes "os_ready os cfg"
  shows "\<exists>sl. start_partition os cfg p m = Inr (m\<lparr>nodes := map_set p sl (nodes m)\<rparr>) \<and> fresh_slot cfg p sl"
proof -
  let ?cfg = "\<lparr>cfg_partition_id = p, cfg_node_id = current_node cfg, cfg_total_nodes = int (length (server_nodes cfg))\<rparr>"
  let ?st = "ClusterNodeStorage_new (uninitialized os) p (current_node cfg)"
  from assms have "wire_format (os_wire os)" "storage_valid (os_wire os) (?st, os_disk os)" unfolding os_ready_def by blast+
  from new_node_returns [OF this] obtain n where
    n: "ClusterNode_new (os_wire os) ?cfg ?st (uninitialized os) (uninitialized os) (os_disk os) = Inr n" by blast
  then have "start_partition os cfg p m =
      Inr (m\<lparr>nodes := map_set p \<lparr>slot_node = n, slot_timers = 0, slot_tasks = [], slot_sent = []\<rparr> (nodes m)\<rparr>)"
    by (simp add: start_partition_def add_cluster_node_def Let_def)
  moreover have "fresh_slot cfg p \<lparr>slot_node = n, slot_timers = 0, slot_tasks = [], slot_sent = []\<rparr>"
    using new_node_fields [OF n] by (simp add: fresh_slot_def)
  ultimately show ?thesis by blast
qed

lemma start_partitions:
  assumes "os_ready os cfg"
  shows "\<exists>ns. forEach (start_partition os cfg) ids m = Inr (m\<lparr>nodes := ns\<rparr>) \<and>
    (\<forall>p. case map_find ns p of None \<Rightarrow> p \<notin> set ids \<and> map_find (nodes m) p = None
       | Some sl \<Rightarrow> if p \<in> set ids then fresh_slot cfg p sl else map_find (nodes m) p = Some sl)"
proof (induction ids arbitrary: m)
  case Nil
  have "m\<lparr>nodes := nodes m\<rparr> = m" by simp
  then show ?case by (auto intro!: exI [of _ "nodes m"] split: option.split)
next
  case (Cons p ids)
  from start_partition_ok [OF assms, of p m] obtain sl where
    sl: "start_partition os cfg p m = Inr (m\<lparr>nodes := map_set p sl (nodes m)\<rparr>)" "fresh_slot cfg p sl" by blast
  let ?m = "m\<lparr>nodes := map_set p sl (nodes m)\<rparr>"
  from Cons.IH [of ?m] obtain ns where
    ns: "forEach (start_partition os cfg) ids ?m = Inr (?m\<lparr>nodes := ns\<rparr>)"
      "\<forall>q. case map_find ns q of None \<Rightarrow> q \<notin> set ids \<and> map_find (nodes ?m) q = None
         | Some sl' \<Rightarrow> if q \<in> set ids then fresh_slot cfg q sl' else map_find (nodes ?m) q = Some sl'"
    by (elim exE conjE)
  have "case map_find ns q of None \<Rightarrow> q \<notin> set (p # ids) \<and> map_find (nodes m) q = None
       | Some sl \<Rightarrow> if q \<in> set (p # ids) then fresh_slot cfg q sl else map_find (nodes m) q = Some sl" for q
    using ns(2) [rule_format, of q] sl(2) by (auto split: option.splits if_splits)
  with sl(1) ns(1) show ?case by (intro exI [of _ ns]) simp
qed

lemma started_manager:
  assumes "scan_nodes os cur 0 ps (0, []) = Inr (port, others)"
  shows "manager_inv (cluster_start (ClusterManager_new others)) \<and> endpoints (cluster_start (ClusterManager_new others)) = others \<and>
    map fst others = other_positions cur 0 ps"
  using scan_nodes_positions [OF assms] other_positions_range [of cur 0 ps] start_inv [of others] by simp

text \<open>
  C19: a server whose configuration numbers the nodes by their positions starts: for every partition it has a node with the id of the server, no posted work, and the other nodes as followers; the
  cluster manager is connecting to exactly these followers, under their node ids, and will not give up on any of them.
\<close>

theorem server_starts:
  assumes "config_text os config_file = Some in_file" and "load_config (uninitialized os) in_file = Inr cfg"
    and "cfg' = (if cur_node \<ge> 0 then cfg\<lparr>current_node := cur_node\<rparr> else cfg)" and "os_ready os cfg'"
    and "map fst (server_nodes cfg') = map int [0..<length (server_nodes cfg')]"
    and "0 \<le> current_node cfg'" and "current_node cfg' < int (length (server_nodes cfg'))" and "partitions_ids cfg' \<noteq> []"
  shows "\<exists>m. RunServer os config_file cur_node = Inr m \<and> manager_inv (cluster_manager_p m) \<and> client_manager_p m = ClientManager_new \<and>
    fst ` set (endpoints (cluster_manager_p m)) = {0..<int (length (server_nodes cfg'))} - {current_node cfg'} \<and>
    (\<forall>p. map_find (nodes m) p \<noteq> None \<longleftrightarrow> p \<in> set (partitions_ids cfg')) \<and>
    (\<forall>p sl. map_find (nodes m) p = Some sl \<longrightarrow> partition_id (slot_node sl) = p \<and> node_id (slot_node sl) = current_node cfg' \<and> slot_tasks sl = [] \<and>
       set (map_keys (next_index (slot_node sl))) = fst ` set (endpoints (cluster_manager_p m)))"
proof -
  let ?n = "int (length (server_nodes cfg'))" and ?cur = "current_node cfg'"
  from assms(4) have nodes: "list_all (node_ready os) (server_nodes cfg')" and log: "log_writable os name" and port: "can_bind os k" for name k
    by (simp_all add: os_ready_def)
  from scan_nodes_ready [OF nodes, of ?cur 0 "(0, [])"] obtain cluster_port others where
    scan: "scan_nodes os ?cur 0 (server_nodes cfg') (0, []) = Inr (cluster_port, others)" by auto
  have "node_ready os (server_nodes cfg' ! nat ?cur)"
    using nodes assms(6,7) by (simp add: list_all_length nat_less_iff)
  then obtain v where "stoi (snd (snd (snd (server_nodes cfg' ! nat ?cur)))) = Inr v"
    by (auto simp: node_ready_def split: prod.splits)
  then have client: "client_port_of cfg' = Inr (unsigned_short v)" using assms(6,7) by (simp add: client_port_of_def)
  let ?m = "ClusterMaster_new (ClusterManager_new others) ClientManager_new cfg'"
  from start_partitions [OF assms(4), of "partitions_ids cfg'" ?m] obtain ns where
    ns: "forEach (start_partition os cfg') (partitions_ids cfg') ?m = Inr (?m\<lparr>nodes := ns\<rparr>)"
      "\<forall>p. case map_find ns p of None \<Rightarrow> p \<notin> set (partitions_ids cfg') \<and> map_find (nodes ?m) p = None
       | Some sl \<Rightarrow> if p \<in> set (partitions_ids cfg') then fresh_slot cfg' p sl else map_find (nodes ?m) p = Some sl"
    by (elim exE conjE)
  have slots: "case map_find ns p of None \<Rightarrow> p \<notin> set (partitions_ids cfg')
      | Some sl \<Rightarrow> p \<in> set (partitions_ids cfg') \<and> fresh_slot cfg' p sl" for p
    using ns(2) [rule_format, of p] by (auto simp: ClusterMaster_new_def split: option.splits if_splits)
  let ?s = "?m\<lparr>nodes := ns\<rparr>"
  have "start_server os cfg' = Inr ?s"
    using scan client ns(1) assms(8) log port by (simp add: start_server_def open_logger_def Logger_new_def bind_port_def Let_def)
  then have run: "RunServer os config_file cur_node = Inr ?s" using assms(1-3) by (simp add: RunServer_def)
  have "other_positions ?cur 0 (server_nodes cfg') = filter (\<lambda>k. k \<noteq> ?cur) [0..0 + ?n - 1]"
    by (rule other_positions_ids) (use assms(5) in simp)
  then have ids: "fst ` set others = {0..<?n} - {?cur}"
    using started_manager [OF scan] by (auto simp flip: set_map)
  have m: "cluster_manager_p ?s = cluster_start (ClusterManager_new others)" "client_manager_p ?s = ClientManager_new" "nodes ?s = ns"
    by (simp_all add: ClusterMaster_new_def)
  have "map_find ns p \<noteq> None \<longleftrightarrow> p \<in> set (partitions_ids cfg')" for p using slots [of p] by (auto split: option.splits)
  moreover have "fresh_slot cfg' p sl" if "map_find ns p = Some sl" for p sl using slots [of p] that by simp
  ultimately show ?thesis
    using run started_manager [OF scan] ids unfolding fresh_slot_def by (intro exI [of _ ?s]) (simp add: m)
qed

definition sample_os :: "string server_os" where
  "sample_os = \<lparr>os_wire = varint_wire, config_text = (\<lambda>_. Some (print_config sample_config)), log_writable = (\<lambda>_. True),
     can_bind = (\<lambda>_. True), resolver = (\<lambda>host port. Inr [host]), os_disk = empty_disk, uninitialized = 0\<rparr>"

lemma sample_os_ready: "os_ready sample_os sample_config"
  "load_config (uninitialized sample_os) (print_config sample_config) = Inr sample_config"
proof -
  have "storage_valid varint_wire (ClusterNodeStorage_new 0 p 1, empty_disk)" for p by (rule new_storage_valid) simp
  moreover have "list_all (node_ready sample_os) (server_nodes sample_config)"
  proof -
    have "\<exists>v. stoi s = Inr v" if "s \<in> {''12'', ''13'', ''9000'', ''9001''}" for s
    proof -
      have "stoi ''12'' = Inr 12" "stoi ''13'' = Inr 13" "stoi ''9000'' = Inr 9000" "stoi ''9001'' = Inr 9001" by code_simp+
      with that show ?thesis by auto
    qed
    then show ?thesis by (simp add: sample_config_def node_ready_def sample_os_def)
  qed
  ultimately show "os_ready sample_os sample_config"
    by (simp add: os_ready_def sample_os_def varint.wire_format_axioms) (simp add: sample_config_def)
  show "load_config (uninitialized sample_os) (print_config sample_config) = Inr sample_config"
    by (rule load_printed_config) (simp add: sample_config_def config_ok_def value_ok_def in_int32_def in_int64_def)
qed

theorem server_starts_witness:
  "\<exists>m. RunServer sample_os ''node1.config'' (- 1) = Inr m \<and> fst ` set (endpoints (cluster_manager_p m)) = {0} \<and> map_find (nodes m) 5 \<noteq> None"
proof -
  have c: "current_node sample_config = 1" "length (server_nodes sample_config) = 2" "map fst (server_nodes sample_config) = map int [0..<2]"
    "partitions_ids sample_config = [0, 5]" by (simp_all add: sample_config_def upt_rec)
  show ?thesis
    using server_starts [of sample_os "''node1.config''" "print_config sample_config" sample_config sample_config "- 1"] sample_os_ready c
    by (force simp: sample_os_def)
qed

text \<open>
  The ids of the nodes have to be their positions: a node whose id is at least the number of configured nodes, as the second node of the example in configuration.hpp, reads its client port
  past the end of the vector.
\<close>

lemma id_beyond_nodes_aborts:
  assumes "config_text os config_file = Some in_file" and "load_config (uninitialized os) in_file = Inr cfg" and "os_ready os cfg"
    and "int (length (server_nodes cfg)) \<le> current_node cfg"
  shows "main_program os [program, config_file] = Aborted OutOfBounds"
proof -
  from assms(3) have nodes: "list_all (node_ready os) (server_nodes cfg)" and log: "log_writable os name" for name
    by (simp_all add: os_ready_def)
  from scan_nodes_ready [OF nodes, of "current_node cfg" 0 "(0, [])"] obtain r where
    "scan_nodes os (current_node cfg) 0 (server_nodes cfg) (0, []) = Inr r" by blast
  with log assms show ?thesis
    by (cases r) (simp add: main_program_def RunServer_def start_server_def open_logger_def Logger_new_def client_port_of_def)
qed

end
