(* ===== verification/Generic_Client.thy ===== *)
theory Generic_Client
  imports Session
begin

text \<open>
  \<open>class GenericClient\<close> (generic_client.hpp, generic_client.cpp): one connection of a client to a server. The sessions it has opened are the list \<open>links\<close>, and \<open>session_\<close> is the position of
  one of them, or none before \<open>start\<close>; a session that is replaced keeps its handlers. Whether a connection to a list of addresses succeeds is a parameter, as in \<open>boost::asio::connect\<close>, which
  throws when it does not.
\<close>

record link =
  link_session :: session
  link_out :: string

record 'e generic_client =
  running_flag :: bool
  links :: "link list"
  client_session :: "nat option"
  client_endpoints :: "'e list"

definition GenericClient_new :: "'e list \<Rightarrow> 'e generic_client" where
  "GenericClient_new eps = \<lparr>running_flag = True, links = [], client_session = None, client_endpoints = eps\<rparr>"

definition client_connect :: "('e list \<Rightarrow> bool) \<Rightarrow> 'e list \<Rightarrow> 'e generic_client \<Rightarrow> cpp_error + 'e generic_client" where
  "client_connect reachable eps gc =
     (if \<not> reachable eps then Inl RuntimeError
      else Inr (gc\<lparr>links := links gc @ [\<lparr>link_session = start_read Session_new, link_out = []\<rparr>],
                   client_session := Some (length (links gc))\<rparr>))"

definition client_start :: "('e list \<Rightarrow> bool) \<Rightarrow> 'e generic_client \<Rightarrow> cpp_error + 'e generic_client" where
  "client_start reachable gc = client_connect reachable (client_endpoints gc) gc"

definition reset_endpoint :: "'e list \<Rightarrow> 'e generic_client \<Rightarrow> 'e generic_client" where
  "reset_endpoint eps gc = gc\<lparr>client_endpoints := eps\<rparr>"

text \<open>Calls through \<open>session_\<close>, a null pointer before \<open>start\<close>.\<close>

definition with_session :: "(link \<Rightarrow> link) \<Rightarrow> 'e generic_client \<Rightarrow> cpp_error + 'e generic_client" where
  "with_session f gc =
     (case client_session gc of
        None \<Rightarrow> Inl NullPointer
      | Some k \<Rightarrow> Inr (gc\<lparr>links := (links gc)[k := f (links gc ! k)]\<rparr>))"

definition client_write_message :: "message \<Rightarrow> 'e generic_client \<Rightarrow> cpp_error + 'e generic_client" where
  "client_write_message msg = with_session (\<lambda>l. l\<lparr>link_out := link_out l @ write_message msg\<rparr>)"

definition client_stop :: "'e generic_client \<Rightarrow> cpp_error + 'e generic_client" where
  "client_stop = with_session (\<lambda>l. l\<lparr>link_session := close (link_session l)\<rparr>)"

definition GenericClient_destroy :: "'e generic_client \<Rightarrow> cpp_error + 'e generic_client" where
  "GenericClient_destroy = with_session (\<lambda>l. l\<lparr>link_session := close (link_session l)\<rparr>)"

definition running :: "'e generic_client \<Rightarrow> bool" where
  "running gc = running_flag gc"

text \<open>
  The completion of a read or a write on one of the sessions: the disconnect handler clears the flag, the messages go to the registered handler.
\<close>

definition link_completed :: "nat \<Rightarrow> session \<times> session_event list \<Rightarrow> 'e generic_client \<Rightarrow> session_event list \<times> 'e generic_client" where
  "link_completed k r gc =
     (snd r, gc\<lparr>links := (links gc)[k := (links gc ! k)\<lparr>link_session := fst r\<rparr>],
               running_flag := (if DisconnectedEvent \<in> set (snd r) then False else running_flag gc)\<rparr>)"

definition link_ok :: "'e generic_client \<Rightarrow> bool" where
  "link_ok gc \<longleftrightarrow> (\<forall>k. client_session gc = Some k \<longrightarrow> k < length (links gc))"

text \<open>What has been handed to the current connection.\<close>

definition outgoing_bytes :: "'e generic_client \<Rightarrow> string" where
  "outgoing_bytes gc = (case client_session gc of None \<Rightarrow> [] | Some k \<Rightarrow> link_out (links gc ! k))"

lemma client_write_ok:
  assumes "link_ok gc" and "client_session gc = Some k"
  shows "\<exists>gc'. client_write_message msg gc = Inr gc' \<and> link_ok gc' \<and> client_session gc' = Some k \<and>
    outgoing_bytes gc' = outgoing_bytes gc @ write_message msg \<and> client_endpoints gc' = client_endpoints gc \<and> length (links gc') = length (links gc)"
  using assms by (simp add: client_write_message_def with_session_def link_ok_def outgoing_bytes_def)

lemma client_start_ok:
  assumes "reachable (client_endpoints gc)"
  shows "\<exists>gc'. client_start reachable gc = Inr gc' \<and> link_ok gc' \<and> client_session gc' = Some (length (links gc)) \<and> outgoing_bytes gc' = [] \<and>
    client_endpoints gc' = client_endpoints gc \<and> length (links gc') = Suc (length (links gc))"
  using assms by (simp add: client_start_def client_connect_def link_ok_def outgoing_bytes_def)

end
