(* ===== verification/Simple_Client.thy ===== *)
theory Simple_Client
  imports Generic_Client Raft_Message
begin

text \<open>
  \<open>class SimpleClient\<close> (simple_client.hpp): the client library. Opening a queue sends the request and blocks the caller on a condition variable until the answer has arrived; the thread
  of the \<open>io_context\<close> handles the messages of the server, and follows the redirection to the leader. The number of callers that wait is \<open>waiting\<close>, what open calls have returned
  is \<open>opened\<close>, and \<open>received\<close> is what was passed to the registered handler. The resolver and the reachability of addresses are parameters.
\<close>

record client_net =
  resolve :: "string \<Rightarrow> string \<Rightarrow> cpp_error + (string \<times> string) list"
  reachable :: "(string \<times> string) list \<Rightarrow> bool"

record simple_client =
  generic :: "(string \<times> string) generic_client"
  client_partition_id :: partition_id_type
  handler_set :: bool
  stats_running :: bool
  stopped :: bool
  open_queue_msg :: raft_message
  retries :: int
  waiting :: nat
  opened :: "int list"
  received :: "(string \<times> message_id_type) list"

definition RETRIES_LIMIT :: int where
  "RETRIES_LIMIT = 10"

definition SimpleClient_new :: "partition_id_type \<Rightarrow> (string \<times> string) list \<Rightarrow> simple_client" where
  "SimpleClient_new p eps =
     \<lparr>generic = GenericClient_new eps, client_partition_id = p, handler_set = False, stats_running = True, stopped = False,
      open_queue_msg = RaftMessage_new, retries = 0, waiting = 0, opened = [], received = []\<rparr>"

text \<open>A call of the generic client.\<close>

definition on_generic ::
  "((string \<times> string) generic_client \<Rightarrow> cpp_error + (string \<times> string) generic_client) \<Rightarrow> simple_client \<Rightarrow> cpp_error + simple_client" where
  "on_generic f c = andThen (f (generic c)) (\<lambda>gc. Inr (c\<lparr>generic := gc\<rparr>))"

definition simple_start :: "client_net \<Rightarrow> simple_client \<Rightarrow> cpp_error + simple_client" where
  "simple_start net c = on_generic (client_start (reachable net)) (c\<lparr>stopped := False\<rparr>)"

definition simple_stop :: "simple_client \<Rightarrow> cpp_error + simple_client" where
  "simple_stop c = on_generic client_stop (c\<lparr>stopped := True\<rparr>)"

definition register_handler :: "simple_client \<Rightarrow> simple_client" where
  "register_handler c = c\<lparr>handler_set := True\<rparr>"

definition send_request :: "wire \<Rightarrow> raft_message \<Rightarrow> simple_client \<Rightarrow> cpp_error + simple_client" where
  "send_request w raft_msg c = andThen (serialize_as_message w raft_msg) (\<lambda>msg. on_generic (client_write_message msg) c)"

text \<open>
  \<open>open_queue_sync\<close> up to the call of \<open>wait\<close>, the wait, and the return of the callers that are woken. The thread that handles messages does not take the mutex, so an answer
  may be handled between the two.
\<close>

definition open_queue_sync :: "wire \<Rightarrow> string \<Rightarrow> int \<Rightarrow> simple_client \<Rightarrow> cpp_error + simple_client" where
  "open_queue_sync w queue_name mode c =
     (let c = c\<lparr>open_queue_msg := set_partition_id (client_partition_id c)
            (loadClientOpenQueueRequest (ClientOpenQueue_new\<lparr>coq_open_mode_fld := Some mode, coq_queue_name_fld := Some queue_name\<rparr>)
               (open_queue_msg c))\<rparr>
      in send_request w (open_queue_msg c) c)"

definition open_queue_wait :: "simple_client \<Rightarrow> simple_client" where
  "open_queue_wait c = c\<lparr>waiting := waiting c + 1\<rparr>"

definition open_queue_result :: "simple_client \<Rightarrow> int" where
  "open_queue_result c = (if retries c < RETRIES_LIMIT then 1 else 0)"

definition notify_all :: "simple_client \<Rightarrow> simple_client" where
  "notify_all c = c\<lparr>opened := opened c @ replicate (waiting c) (open_queue_result c), waiting := 0\<rparr>"

definition simple_commit_message :: "wire \<Rightarrow> message_id_type \<Rightarrow> simple_client \<Rightarrow> cpp_error + simple_client" where
  "simple_commit_message w message_id c =
     send_request w (set_partition_id (client_partition_id c)
       (loadClientCommitMessageRequest (ClientCommitMessage_new\<lparr>ccm_message_id_fld := Some message_id\<rparr>) RaftMessage_new)) c"

definition put_request :: "partition_id_type \<Rightarrow> string \<Rightarrow> raft_message" where
  "put_request p message =
     set_partition_id p (loadClientPutMessageRequest (ClientPutMessage_new\<lparr>cpm_message_fld := Some message\<rparr>) RaftMessage_new)"

definition send_message :: "wire \<Rightarrow> string \<Rightarrow> simple_client \<Rightarrow> cpp_error + simple_client" where
  "send_message w message c = send_request w (put_request (client_partition_id c) message) c"

text \<open>The timer of \<open>stats\<close> runs until the client has been stopped.\<close>

definition stats_expired :: "simple_client \<Rightarrow> simple_client" where
  "stats_expired c = c\<lparr>stats_running := \<not> stopped c\<rparr>"

definition follow_redirect :: "client_net \<Rightarrow> wire \<Rightarrow> ClientOpenQueueResponse \<Rightarrow> simple_client \<Rightarrow> cpp_error + simple_client" where
  "follow_redirect net w resp c =
     andThen (resolve net (cor_leader_ip resp) (cor_leader_port resp)) (\<lambda>eps.
       andThen (on_generic (client_start (reachable net)) (c\<lparr>generic := reset_endpoint eps (generic c)\<rparr>)) (\<lambda>c.
         send_request w (open_queue_msg c) c))"

definition handle_open_response :: "client_net \<Rightarrow> wire \<Rightarrow> ClientOpenQueueResponse \<Rightarrow> simple_client \<Rightarrow> cpp_error + simple_client" where
  "handle_open_response net w resp c =
     (if cor_status resp = Status_ERROR
      then if cor_leader_ip resp = [] then Inr c else follow_redirect net w resp c
      else Inr (notify_all (c\<lparr>open_queue_msg := RaftMessage_new\<rparr>)))"

definition simple_handle_message :: "client_net \<Rightarrow> wire \<Rightarrow> message \<Rightarrow> simple_client \<Rightarrow> cpp_error + simple_client" where
  "simple_handle_message net w msg c =
     andThen (deserialize w (payload msg)) (\<lambda>raft_msg.
       if msg_type raft_msg = CLIENT_OPEN_QUEUE_RESPONSE then handle_open_response net w (get_open_queue_response raft_msg) c
       else if msg_type raft_msg = SERVER_SEND_MESSAGE
       then let req = get_server_send_essage raft_msg
            in if handler_set c then Inr (c\<lparr>received := received c @ [(ssm_message req, ssm_message_id req)]\<rparr>) else Inl BadFunctionCall
       else Inr c)"

section \<open>Runs of a client\<close>

datatype client_event =
    Start
  | Stop
  | OpenQueue string int
  | OpenQueueWait
  | SendMessage string
  | CommitMessage message_id_type
  | Incoming message
  | StatsTimer
  | LinkCompleted nat "session \<times> session_event list"

fun client_step :: "client_net \<Rightarrow> wire \<Rightarrow> client_event \<Rightarrow> simple_client \<Rightarrow> cpp_error + simple_client" where
  "client_step net w Start c = simple_start net c"
| "client_step net w Stop c = simple_stop c"
| "client_step net w (OpenQueue queue_name mode) c = open_queue_sync w queue_name mode c"
| "client_step net w OpenQueueWait c = Inr (open_queue_wait c)"
| "client_step net w (SendMessage message) c = send_message w message c"
| "client_step net w (CommitMessage message_id) c = simple_commit_message w message_id c"
| "client_step net w (Incoming msg) c = simple_handle_message net w msg c"
| "client_step net w StatsTimer c = Inr (stats_expired c)"
| "client_step net w (LinkCompleted k r) c = Inr (c\<lparr>generic := snd (link_completed k r (generic c))\<rparr>)"

definition client_run :: "client_net \<Rightarrow> wire \<Rightarrow> client_event list \<Rightarrow> simple_client \<Rightarrow> cpp_error + simple_client" where
  "client_run net w = forEach (client_step net w)"

text \<open>Calls of the generic client leave the other members.\<close>

lemma on_generic_frame: "on_generic f c = Inr c' \<Longrightarrow> \<exists>gc. c' = c\<lparr>generic := gc\<rparr>"
  by (auto simp: on_generic_def)

lemma send_request_frame: "send_request w m c = Inr c' \<Longrightarrow> \<exists>gc. c' = c\<lparr>generic := gc\<rparr>"
  by (auto simp: send_request_def dest: on_generic_frame)

lemma follow_redirect_frame: "follow_redirect net w resp c = Inr c' \<Longrightarrow> \<exists>gc. c' = c\<lparr>generic := gc\<rparr>"
  by (auto simp: follow_redirect_def dest!: on_generic_frame send_request_frame)

lemmas client_frames = on_generic_frame send_request_frame follow_redirect_frame

lemmas client_call_defs = simple_start_def simple_stop_def open_queue_sync_def send_message_def simple_commit_message_def
  simple_handle_message_def handle_open_response_def

text \<open>No operation counts a retry.\<close>

lemma client_step_opened:
  assumes "client_step net w ev c = Inr c'" and "retries c = 0" and "set (opened c) \<subseteq> {1}"
  shows "retries c' = 0 \<and> set (opened c') \<subseteq> {1}"
  using assms
  by (cases ev)
    (auto simp: client_call_defs open_queue_wait_def notify_all_def open_queue_result_def RETRIES_LIMIT_def stats_expired_def Let_def
      split: if_splits dest!: client_frames)

section \<open>Requests and answers that fit in a frame\<close>

definition open_request :: "partition_id_type \<Rightarrow> string \<Rightarrow> int \<Rightarrow> raft_message" where
  "open_request p queue_name mode = set_partition_id p (loadClientOpenQueueRequest
     (ClientOpenQueue_new\<lparr>coq_open_mode_fld := Some mode, coq_queue_name_fld := Some queue_name\<rparr>) RaftMessage_new)"

text \<open>An answer of a server to a client that opens a queue.\<close>

definition answer :: "int \<Rightarrow> string \<Rightarrow> string \<Rightarrow> raft_message" where
  "answer st ip port = set_partition_id 0 (loadClientOpenQueueResponse
     (ClientOpenQueueResponse_new\<lparr>cor_status_fld := Some st, cor_leader_ip_fld := Some ip, cor_leader_port_fld := Some port\<rparr>) RaftMessage_new)"

lemma answer_fields [simp]:
  "msg_type (answer st ip port) = CLIENT_OPEN_QUEUE_RESPONSE"
  "cor_status (get_open_queue_response (answer st ip port)) = st"
  "cor_leader_ip (get_open_queue_response (answer st ip port)) = ip"
  "cor_leader_port (get_open_queue_response (answer st ip port)) = port"
  by (simp_all add: answer_def load_defs get_defs message_getter_defs)

context wire_format
begin

lemma put_request_fits:
  assumes "in_int64 p" and "length message + 100 \<le> MAX_BODY_LENGTH"
  shows "fits_frame w (put_request p message)"
proof -
  have sub: "ClientPutMessage_ByteSizeLong w (get_put_message_request (put_request p message)) \<le> length message + 6"
    using small_length [of "length message"] assms
    by (simp add: put_request_def load_defs get_defs byte_size_defs message_getter_defs message_new_defs)
  have "FlowMessage_ByteSizeLong w (put_request p message) \<le> MAX_BODY_LENGTH"
    using small_length [OF order_trans [OF sub]] sub varint_sizes(2) [of p] varint_sizes(3) [of CLIENT_PUT_MESSAGE] assms(2)
    by (simp add: FlowMessage_ByteSizeLong_def put_request_def load_defs get_defs FlowMessage_new_def)
  moreover have "FlowMessage_fits w (put_request p message)"
    using assms sub
    by (simp add: fits_defs put_request_def load_defs get_defs message_new_defs MessageType_IsValid_def message_types MAX_BODY_LENGTH_def)
  ultimately show ?thesis by (simp add: fits_frame_def)
qed

lemma open_request_fits:
  assumes "in_int64 p" and "in_int32 mode" and "length queue_name + 100 \<le> MAX_BODY_LENGTH"
  shows "fits_frame w (open_request p queue_name mode)"
proof -
  have sub: "ClientOpenQueue_ByteSizeLong w (get_open_queue_request (open_request p queue_name mode)) \<le> length queue_name + 17"
    using small_length [of "length queue_name"] varint_sizes(1) [of mode] assms
    by (simp add: open_request_def load_defs get_defs byte_size_defs message_getter_defs message_new_defs)
  have "FlowMessage_ByteSizeLong w (open_request p queue_name mode) \<le> MAX_BODY_LENGTH"
    using small_length [OF order_trans [OF sub]] sub varint_sizes(2) [of p] varint_sizes(3) [of CLIENT_OPEN_QUEUE] assms(3)
    by (simp add: FlowMessage_ByteSizeLong_def open_request_def load_defs get_defs FlowMessage_new_def)
  moreover have "FlowMessage_fits w (open_request p queue_name mode)"
    using assms sub
    by (simp add: fits_defs open_request_def load_defs get_defs message_new_defs MessageType_IsValid_def message_types MAX_BODY_LENGTH_def)
  ultimately show ?thesis by (simp add: fits_frame_def)
qed

lemma answer_fits:
  assumes "st = Status_SUCCESS \<or> st = Status_ERROR" and "length ip + length port + 100 \<le> MAX_BODY_LENGTH"
  shows "fits_frame w (answer st ip port)"
proof -
  have sub: "ClientOpenQueueResponse_ByteSizeLong w (get_open_queue_response (answer st ip port)) \<le> length ip + length port + 30"
    using small_length [of "length ip"] small_length [of "length port"] varint_sizes(3) [of st] assms(2)
    by (simp add: answer_def load_defs get_defs byte_size_defs message_getter_defs message_new_defs)
  have "FlowMessage_ByteSizeLong w (answer st ip port) \<le> MAX_BODY_LENGTH"
    using small_length [OF order_trans [OF sub]] sub varint_sizes(2) [of 0] varint_sizes(3) [of CLIENT_OPEN_QUEUE_RESPONSE] assms(2)
    by (simp add: FlowMessage_ByteSizeLong_def answer_def load_defs get_defs FlowMessage_new_def)
  moreover have "FlowMessage_fits w (answer st ip port)"
    using assms sub
    by (auto simp: fits_defs answer_def load_defs get_defs message_new_defs MessageType_IsValid_def message_types MAX_BODY_LENGTH_def
        Status_IsValid_def Status_SUCCESS_def Status_ERROR_def in_int32_def in_int64_def)
  ultimately show ?thesis by (simp add: fits_frame_def)
qed

end

section \<open>Properties of the client\<close>

text \<open>
  \<open>open_queue_sync\<close> never reports a failure: over every run of a client, each call that returns has returned 1, because no code counts the retries that its result depends on.
\<close>

lemma open_queue_always_succeeds:
  assumes "client_run net w evs (SimpleClient_new p eps) = Inr c"
  shows "retries c = 0 \<and> set (opened c) \<subseteq> {1}"
  by (rule forEach_keeps [OF _ assms [unfolded client_run_def]])
    (auto simp: SimpleClient_new_def dest: client_step_opened)

text \<open>A client of partition 0 that has connected, and a network that resolves every name and reaches every address.\<close>

definition open_net :: client_net where
  "open_net = \<lparr>resolve = (\<lambda>host port. Inr [(host, port)]), reachable = (\<lambda>_. True)\<rparr>"

lemma open_net_fields [simp]: "resolve open_net host port = Inr [(host, port)]" "reachable open_net eps"
  by (simp_all add: open_net_def)

lemma send_request_ok:
  assumes "serialize_as_message w m = Inr msg" and "link_ok (generic c)" and "client_session (generic c) = Some k"
  shows "\<exists>gc. send_request w m c = Inr (c\<lparr>generic := gc\<rparr>) \<and> link_ok gc \<and> client_session gc = Some k \<and>
    outgoing_bytes gc = outgoing_bytes (generic c) @ write_message msg \<and> client_endpoints gc = client_endpoints (generic c)"
  using client_write_ok [OF assms(2,3), of msg] assms(1) by (auto simp: send_request_def on_generic_def)

lemma simple_start_ok:
  "reachable net (client_endpoints (generic c)) \<Longrightarrow>
   \<exists>gc k. simple_start net c = Inr (c\<lparr>stopped := False, generic := gc\<rparr>) \<and> link_ok gc \<and> client_session gc = Some k \<and> outgoing_bytes gc = []"
  using client_start_ok [of "reachable net" "generic c"] by (auto simp: simple_start_def on_generic_def)

text \<open>The request of \<open>open_queue_sync\<close>, for a client that is not opening another queue.\<close>

lemma open_queue_sync_request:
  "open_queue_msg c = RaftMessage_new \<Longrightarrow> open_queue_sync w queue_name mode c =
     send_request w (open_request (client_partition_id c) queue_name mode)
       (c\<lparr>open_queue_msg := open_request (client_partition_id c) queue_name mode\<rparr>)"
  by (simp add: open_queue_sync_def open_request_def Let_def)

text \<open>A run of a client that opens its queue; \<open>early\<close> tells whether the answer is handled before the caller waits.\<close>

definition open_events :: "message \<Rightarrow> bool \<Rightarrow> client_event list" where
  "open_events msg early = [Start, OpenQueue ''jobs'' 0] @ (if early then [Incoming msg, OpenQueueWait] else [OpenQueueWait, Incoming msg])"

lemma open_events_run:
  assumes "deserialize w (payload msg) = Inr (answer Status_SUCCESS [] [])" and "reachable net eps" and "wire_format w"
  shows "\<exists>c. client_run net w (open_events msg early) (SimpleClient_new 0 eps) = Inr c \<and>
    waiting c = (if early then 1 else 0) \<and> opened c = (if early then [] else [1])"
proof -
  let ?c = "SimpleClient_new 0 eps"
  have new: "client_endpoints (generic ?c) = eps" "client_partition_id ?c = 0" "open_queue_msg ?c = RaftMessage_new"
    by (simp_all add: SimpleClient_new_def GenericClient_new_def)
  from simple_start_ok [of net ?c] assms(2) new obtain gc k where
    s: "simple_start net ?c = Inr (?c\<lparr>stopped := False, generic := gc\<rparr>)" "link_ok gc" "client_session gc = Some k" by auto
  have "fits_frame w (open_request 0 ''jobs'' 0)"
    by (rule wire_format.open_request_fits [OF assms(3)]) (simp_all add: in_int64_def in_int32_def MAX_BODY_LENGTH_def)
  from wire_format.fits_frame_decodes [OF assms(3) this] obtain req where
    req: "serialize_as_message w (open_request 0 ''jobs'' 0) = Inr req" by blast
  let ?d = "?c\<lparr>stopped := False, generic := gc, open_queue_msg := open_request 0 ''jobs'' 0\<rparr>"
  from send_request_ok [OF req, of ?d k] s(2,3) obtain gc' where
    r: "send_request w (open_request 0 ''jobs'' 0) ?d = Inr (?d\<lparr>generic := gc'\<rparr>)" by auto
  then have o: "open_queue_sync w ''jobs'' 0 (?c\<lparr>stopped := False, generic := gc\<rparr>) = Inr (?d\<lparr>generic := gc'\<rparr>)"
    by (subst open_queue_sync_request) (simp_all add: new)
  show ?thesis
    using s(1) o assms(1)
    by (simp add: client_run_def open_events_def simple_handle_message_def handle_open_response_def open_queue_wait_def notify_all_def
        open_queue_result_def RETRIES_LIMIT_def Status_SUCCESS_def Status_ERROR_def)
      (simp add: SimpleClient_new_def)
qed

lemma sample_answer: "\<exists>msg. deserialize varint_wire (payload msg) = Inr (answer Status_SUCCESS [] [])"
proof -
  have "fits_frame varint_wire (answer Status_SUCCESS [] [])"
    by (rule varint.answer_fits) (simp_all add: MAX_BODY_LENGTH_def)
  from varint.fits_frame_decodes [OF this] show ?thesis by (auto simp: varint.deserialize_same)
qed

text \<open>
  An answer that is handled between the request and the wait of \<open>open_queue_sync\<close> is lost: the queue is open, the caller waits, and no answer is outstanding that would wake it. The
  condition variable is waited for without a predicate, and the handler notifies it without the mutex.
\<close>

lemma early_answer_is_lost:
  assumes "wire_format w" and "deserialize w (payload msg) = Inr (answer Status_SUCCESS [] [])" and "reachable net eps"
  shows "\<exists>c. client_run net w [Start, OpenQueue ''jobs'' 0, Incoming msg, OpenQueueWait] (SimpleClient_new 0 eps) = Inr c \<and>
    waiting c = 1 \<and> opened c = []"
  using open_events_run [OF assms(2,3,1), of True] by (simp add: open_events_def)



end
