(* ===== verification/Demo_Client.thy ===== *)
theory Demo_Client
  imports Simple_Client
begin

text \<open>
  The interactive client (application/client.cpp): it connects to a server and sends what is typed, one line at a time, until the connection or the input ends, while a second thread prints the
  messages of the server. \<open>printed\<close> is what that thread has printed, before formatting.
\<close>

definition demo_open_queue ::
  "wire \<Rightarrow> string \<Rightarrow> int \<Rightarrow> (string \<times> string) generic_client \<Rightarrow> cpp_error + (string \<times> string) generic_client" where
  "demo_open_queue w queue_name mode gc =
     andThen (serialize_as_message w (loadClientOpenQueueRequest
         (ClientOpenQueue_new\<lparr>coq_open_mode_fld := Some mode, coq_queue_name_fld := Some queue_name\<rparr>) RaftMessage_new)) (\<lambda>msg.
       client_write_message msg gc)"

definition demo_commit_message ::
  "wire \<Rightarrow> int \<Rightarrow> (string \<times> string) generic_client \<Rightarrow> cpp_error + (string \<times> string) generic_client" where
  "demo_commit_message w message_id gc =
     andThen (serialize_as_message w (loadClientCommitMessageRequest
         (ClientCommitMessage_new\<lparr>ccm_message_id_fld := Some message_id\<rparr>) RaftMessage_new)) (\<lambda>msg.
       client_write_message msg gc)"

text \<open>\<open>std::string::find\<close>, compared with \<open>npos\<close>.\<close>

fun contains_string :: "string \<Rightarrow> string \<Rightarrow> bool" where
  "contains_string pat [] = (pat = [])"
| "contains_string pat (c # cs) = (take (length pat) (c # cs) = pat \<or> contains_string pat cs)"

definition demo_line :: "wire \<Rightarrow> string \<Rightarrow> (string \<times> string) generic_client \<Rightarrow> cpp_error + (string \<times> string) generic_client" where
  "demo_line w line gc =
     (if line = ''open'' then demo_open_queue w ''test_queue'' 0 gc
      else if contains_string ''commit'' line
      then andThen (stoi (drop 6 line)) (\<lambda>msg_id. if msg_id = - 1 then Inr gc else demo_commit_message w msg_id gc)
      else andThen (serialize_as_message w (loadClientPutMessageRequest (ClientPutMessage_new\<lparr>cpm_message_fld := Some line\<rparr>) RaftMessage_new)) (\<lambda>msg.
        client_write_message msg gc))"

definition print_message :: "wire \<Rightarrow> message \<Rightarrow> raft_message list \<Rightarrow> cpp_error + raft_message list" where
  "print_message w msg printed = andThen (deserialize w (payload msg)) (\<lambda>raft_msg. Inr (printed @ [raft_msg]))"

fun print_event :: "wire \<Rightarrow> session_event \<Rightarrow> raft_message list \<Rightarrow> cpp_error + raft_message list" where
  "print_event w (Handled msg) printed = print_message w msg printed"
| "print_event w DisconnectedEvent printed = Inr printed"

datatype demo_event = Typed string | Completed nat "session \<times> session_event list"

text \<open>The loop over the typed lines, with the completions of the other thread between them; it ends with the input, or when the connection is found closed.\<close>

fun demo_loop ::
  "wire \<Rightarrow> demo_event list \<Rightarrow> (string \<times> string) generic_client \<times> raft_message list \<Rightarrow>
   cpp_error + (string \<times> string) generic_client \<times> raft_message list" where
  "demo_loop w [] (gc, printed) = Inr (gc, printed)"
| "demo_loop w (Typed line # evs) (gc, printed) =
     (if running gc then andThen (demo_line w line gc) (\<lambda>gc. demo_loop w evs (gc, printed)) else Inr (gc, printed))"
| "demo_loop w (Completed k r # evs) (gc, printed) =
     (let (events, gc) = link_completed k r gc
      in andThen (forEach (print_event w) events printed) (\<lambda>printed. demo_loop w evs (gc, printed)))"

datatype demo_outcome = DemoRan "(string \<times> string) generic_client \<times> raft_message list" | DemoExited int | DemoAborted cpp_error

text \<open>
  An exception before the second thread exists is caught and ends the program, after the destructor of the client has run, which uses \<open>session_\<close>. Once the thread runs, an exception
  ends the process: in the thread itself because nothing catches it, and in the main thread because the unjoined thread is destroyed.
\<close>

definition demo_main :: "client_net \<Rightarrow> wire \<Rightarrow> string list \<Rightarrow> demo_event list \<Rightarrow> demo_outcome" where
  "demo_main net w argv evs =
     (if length argv \<noteq> 4 then DemoExited 1
      else case resolve net (argv ! 1) (argv ! 2) of
          Inl e \<Rightarrow> DemoExited 0
        | Inr eps \<Rightarrow>
            let gc = GenericClient_new eps
            in case client_start (reachable net) gc of
                Inl e \<Rightarrow> (case GenericClient_destroy gc of Inl e \<Rightarrow> DemoAborted e | Inr _ \<Rightarrow> DemoExited 0)
              | Inr gc \<Rightarrow> (case demo_loop w evs (gc, []) of Inl e \<Rightarrow> DemoAborted e | Inr r \<Rightarrow> DemoRan r))"

section \<open>What the typed lines do\<close>

lemma contains_prefix [simp]: "contains_string pat (pat @ rest)"
  by (cases "pat @ rest") (auto simp flip: take_append [of "length pat"] dest: arg_cong [of _ _ "take (length pat)"])

context wire_format
begin

lemma commit_request_fits:
  assumes "in_int64 message_id"
  shows "fits_frame w (loadClientCommitMessageRequest (ClientCommitMessage_new\<lparr>ccm_message_id_fld := Some message_id\<rparr>) RaftMessage_new)"
proof -
  let ?m = "loadClientCommitMessageRequest (ClientCommitMessage_new\<lparr>ccm_message_id_fld := Some message_id\<rparr>) RaftMessage_new"
  have sub: "ClientCommitMessage_ByteSizeLong w (get_commit_message_request ?m) \<le> 11"
    using varint_sizes(2) [of message_id] by (simp add: load_defs get_defs byte_size_defs message_getter_defs message_new_defs)
  have "FlowMessage_ByteSizeLong w ?m \<le> MAX_BODY_LENGTH"
    using small_length [of "ClientCommitMessage_ByteSizeLong w (get_commit_message_request ?m)"] sub varint_sizes(3) [of CLIENT_COMMIT_MESSAGE]
    by (simp add: FlowMessage_ByteSizeLong_def load_defs get_defs RaftMessage_new_def FlowMessage_new_def MAX_BODY_LENGTH_def)
  moreover have "FlowMessage_fits w ?m"
    using assms sub
    by (simp add: fits_defs load_defs get_defs message_new_defs MessageType_IsValid_def message_types RaftMessage_new_def)
  ultimately show ?thesis by (simp add: fits_frame_def)
qed

text \<open>A typed commit is sent as the request to commit the message with that id, which the server decodes.\<close>

lemma typed_commit:
  assumes "in_int32 message_id" and "message_id \<noteq> - 1" and "link_ok gc" and "client_session gc = Some k"
  shows "\<exists>gc' msg. demo_line w (''commit '' @ to_string message_id) gc = Inr gc' \<and> outgoing_bytes gc' = outgoing_bytes gc @ write_message msg \<and>
    deserialize_from_message w msg =
      Inr (loadClientCommitMessageRequest (ClientCommitMessage_new\<lparr>ccm_message_id_fld := Some message_id\<rparr>) RaftMessage_new)"
proof -
  have "in_int64 message_id" using assms(1) by (auto simp: in_int32_def in_int64_def)
  from fits_frame_decodes [OF commit_request_fits [OF this]] obtain msg where
    msg: "serialize_as_message w (loadClientCommitMessageRequest (ClientCommitMessage_new\<lparr>ccm_message_id_fld := Some message_id\<rparr>) RaftMessage_new) = Inr msg"
      "deserialize_from_message w msg =
        Inr (loadClientCommitMessageRequest (ClientCommitMessage_new\<lparr>ccm_message_id_fld := Some message_id\<rparr>) RaftMessage_new)" by blast
  have "stoi ('' '' @ to_string message_id) = Inr message_id"
    using stoi_to_string [OF assms(1)] by (simp add: stoi_def is_space_def)
  moreover have "contains_string ''commit'' (''commit '' @ to_string message_id)"
    using contains_prefix [of "''commit''" "'' '' @ to_string message_id"] by simp
  ultimately show ?thesis
    using client_write_ok [OF assms(3,4), of msg] msg assms(2) by (auto simp: demo_line_def demo_commit_message_def)
qed

end

text \<open>
  The ids of messages are chosen among all 64 bit integers, but the client reads one of 32 bits: typing the id of nearly every message throws \<open>std::out_of_range\<close>, which ends the process.
\<close>

lemma typed_long_id_throws:
  assumes "\<not> in_int32 message_id"
  shows "demo_line w (''commit '' @ to_string message_id) gc = Inl OutOfRange"
proof -
  have "stoi ('' '' @ to_string message_id) = Inl OutOfRange"
    using to_string_no_space [of message_id "[]"] scan_to_string [of "[]" message_id] assms by (simp add: stoi_def is_space_def)
  moreover have "contains_string ''commit'' (''commit '' @ to_string message_id)"
    using contains_prefix [of "''commit''" "'' '' @ to_string message_id"] by simp
  ultimately show ?thesis by (simp add: demo_line_def)
qed

text \<open>
  A client that cannot reach its server does not report the error: the destructor that runs while the exception is thrown uses the session that was never created.
\<close>

lemma unreachable_server_crashes_client:
  assumes "resolve net host port = Inr eps" and "\<not> reachable net eps"
  shows "demo_main net w [program, host, port, user] evs = DemoAborted NullPointer"
  using assms
  by (simp add: demo_main_def client_start_def client_connect_def GenericClient_new_def GenericClient_destroy_def with_session_def)

end
