(* ===== verification/System.thy ===== *)
theory System
  imports Server Demo_Client Cluster_Node_Types
begin

text \<open>
  The components together: what one server sends is what another dispatches to its nodes, what a client sends becomes an entry of the log of the leader, and the sizes of the
  messages on these ways.
\<close>

section \<open>From server to server\<close>

text \<open>The messages for one peer among those a node has sent.\<close>

definition sent_to :: "int \<Rightarrow> (destination \<times> raft_message) list \<Rightarrow> raft_message list" where
  "sent_to i out = map snd (filter (\<lambda>(d, m). d = ToAll \<or> d = ToNode i) out)"

lemma sent_to_simps [simp]:
  "sent_to i [] = []" "sent_to i ((d, m) # out) = (if d = ToAll \<or> d = ToNode i then m # sent_to i out else sent_to i out)"
  by (simp_all add: sent_to_def)

definition encodes :: "wire \<Rightarrow> raft_message \<Rightarrow> message \<Rightarrow> bool" where
  "encodes w m buf \<longleftrightarrow> message_ok buf \<and> (\<forall>msg. payload msg = payload buf \<longrightarrow> deserialize_from_message w msg = Inr m)"

lemma fits_frame_encodes:
  assumes "wire_format w" and "fits_frame w m"
  shows "\<exists>buf. serialize_as_message w m = Inr buf \<and> encodes w m buf"
  using wire_format.fits_frame_decodes [OF assms] by (auto simp: encodes_def)

lemma post_sent_ok:
  assumes "wire_format w" and "list_all (\<lambda>(d, m). fits_frame w m) out"
  shows "\<exists>ts. post_sent w out cm = Inr (cm\<lparr>posted := posted cm @ ts\<rparr>) \<and> (\<forall>i. list_all2 (encodes w) (sent_to i out) (addressed i ts))"
  using assms(2)
proof (induction out arbitrary: cm)
  case Nil
  show ?case by (intro exI [of _ "[]"]) simp
next
  case (Cons x out)
  obtain d m where x: "x = (d, m)" by (cases x)
  with Cons.prems have "fits_frame w m" and out: "list_all (\<lambda>(d, m). fits_frame w m) out" by simp_all
  then obtain buf where buf: "serialize_as_message w m = Inr buf" "encodes w m buf" using fits_frame_encodes [OF assms(1)] by blast
  define t where "t = (case d of ToAll \<Rightarrow> BroadCast buf | ToNode i \<Rightarrow> WriteTo i buf)"
  have post: "(case d of ToAll \<Rightarrow> broad_cast buf cm | ToNode i \<Rightarrow> cluster_write_message i buf cm) = cm\<lparr>posted := posted cm @ [t]\<rparr>"
    by (simp add: t_def broad_cast_def cluster_write_message_def split: destination.split)
  from Cons.IH [OF out, of "cm\<lparr>posted := posted cm @ [t]\<rparr>"] obtain ts where
    ts: "post_sent w out (cm\<lparr>posted := posted cm @ [t]\<rparr>) = Inr (cm\<lparr>posted := posted cm @ t # ts\<rparr>)"
      "\<And>i. list_all2 (encodes w) (sent_to i out) (addressed i ts)" by auto
  have "post_sent w (x # out) cm = Inr (cm\<lparr>posted := posted cm @ t # ts\<rparr>)"
    using x buf(1) post ts(1) by (simp add: serialize_as_message_def)
  moreover have "list_all2 (encodes w) (sent_to i (x # out)) (addressed i (t # ts))" for i
    using x buf(2) ts(2) [of i] by (simp add: t_def split: destination.split)
  ultimately show ?case by blast
qed

lemma handled_payloads: "handled evs = map payload (handled_messages evs)"
  by (induction evs rule: handled_messages.induct) (simp_all add: handled_def)

text \<open>A server hands every message to the node of its partition, behind what that node has still to do.\<close>

lemma dispatch_messages:
  assumes "list_all2 (\<lambda>m msg. deserialize_from_message w msg = Inr m) ms msgs"
    and "\<forall>m \<in> set ms. map_find (nodes M) (msg_partition_id m) \<noteq> None"
  shows "\<exists>M'. forEach (message_handler w) msgs M = Inr M' \<and>
    (\<forall>p. map_find (nodes M') p = map_option (\<lambda>sl. sl\<lparr>slot_tasks := slot_tasks sl @ map HandleMessage (filter (\<lambda>m. msg_partition_id m = p) ms)\<rparr>)
       (map_find (nodes M) p))"
  using assms
proof (induction ms msgs arbitrary: M rule: list_all2_induct)
  case Nil
  show ?case by (simp add: option.map_ident)
next
  case (Cons m ms msg msgs)
  let ?p = "msg_partition_id m"
  from Cons.prems obtain sl where sl: "map_find (nodes M) ?p = Some sl" by auto
  let ?M = "M\<lparr>nodes := map_set ?p (post_task (HandleMessage m) sl) (nodes M)\<rparr>"
  have step: "message_handler w msg M = Inr ?M" using Cons.hyps(1) sl by (simp add: message_handler_def)
  have "\<forall>m' \<in> set ms. map_find (nodes ?M) (msg_partition_id m') \<noteq> None" using Cons.prems by simp
  from Cons.IH [OF this] obtain M' where M': "forEach (message_handler w) msgs ?M = Inr M'"
    "\<And>p. map_find (nodes M') p = map_option (\<lambda>sl. sl\<lparr>slot_tasks := slot_tasks sl @ map HandleMessage (filter (\<lambda>m. msg_partition_id m = p) ms)\<rparr>)
       (map_find (nodes ?M) p)" by blast
  have "map_find (nodes M') p = map_option (\<lambda>sl. sl\<lparr>slot_tasks := slot_tasks sl @ map HandleMessage (filter (\<lambda>m. msg_partition_id m = p) (m # ms))\<rparr>)
       (map_find (nodes M) p)" for p
    using M'(2) [of p] sl by (auto simp: post_task_def)
  with step M'(1) show ?case by auto
qed

text \<open>
  C17: what a node of one server sends reaches the nodes of another, whole and in order: once the cluster manager has run the tasks of the calls, a peer behind a connected endpoint
  reads from the connection, and its server posts to the node of each partition exactly the messages of that partition that were broadcast or addressed to it, in the order
  they were sent.
\<close>

theorem messages_between_servers:
  assumes "wire_format w" and "list_all (\<lambda>(d, m). fits_frame w m) out"
    and "manager_inv cm" and "posted cm = []" and "map_find (outgoing_sessions cm) i = Some k" and "conn_out (connections cm ! k) = []"
    and "reading peer" and "\<forall>m \<in> set (sent_to i out). map_find (nodes M) (msg_partition_id m) \<noteq> None"
  shows "\<exists>cm' peer' ev M'. post_sent w out cm = Inr cm' \<and>
    read_all (conn_out (connections ((run_posted ^^ length (posted cm')) cm') ! k)) peer = Inr (peer', ev, []) \<and> reading peer' \<and>
    forEach (message_handler w) (handled_messages ev) M = Inr M' \<and>
    (\<forall>p. map_find (nodes M') p = map_option (\<lambda>sl. sl\<lparr>slot_tasks := slot_tasks sl @
       map HandleMessage (filter (\<lambda>m. msg_partition_id m = p) (sent_to i out))\<rparr>) (map_find (nodes M) p))"
proof -
  from post_sent_ok [OF assms(1,2), of cm] assms(4) obtain ts where
    ts: "post_sent w out cm = Inr (cm\<lparr>posted := ts\<rparr>)" "list_all2 (encodes w) (sent_to i out) (addressed i ts)" by auto
  let ?cm = "cm\<lparr>posted := ts\<rparr>"
  have ok: "list_all message_ok (addressed i ts)"
    using ts(2) by (auto simp: list_all2_conv_all_nth list_all_length encodes_def)
  have "manager_inv ?cm" using assms(3) by (rule other_fields_inv)
  from posted_messages_reach_peer [OF this, of i k peer] ok assms(5-7) obtain peer' ev where
    r: "read_all (conn_out (connections ((run_posted ^^ length ts) ?cm) ! k)) peer = Inr (peer', ev, [])" "reading peer'"
      "handled ev = map payload (addressed i ts)" by (auto simp: Let_def)
  have "list_all2 (\<lambda>m msg. deserialize_from_message w msg = Inr m) (sent_to i out) (handled_messages ev)"
    using ts(2) r(3) unfolding handled_payloads encodes_def
    by (auto simp: list_all2_conv_all_nth list_eq_iff_nth_eq)
  from dispatch_messages [OF this assms(8)] ts(1) r(1,2) show ?thesis by (intro exI [of _ ?cm]) auto
qed

text \<open>A manager that is connected to endpoint 2, for a node that has broadcast a vote request; the peer serves partition 0.\<close>

definition connected_manager :: "nat cluster_manager" where
  "connected_manager = connect_completed False 2 (cluster_start (ClusterManager_new [(1, [10]), (2, [20])]))"

lemma connected_manager_ok:
  "manager_inv connected_manager" "posted connected_manager = []" "map_find (outgoing_sessions connected_manager) 2 = Some 0"
  "conn_out (connections connected_manager ! 0) = []"
proof -
  let ?s = "cluster_start (ClusterManager_new [(1, [10]), (2, [20 :: nat])])"
  have s: "connecting ?s = [1, 2]" "connections ?s = []" "outgoing_sessions ?s = []" "posted ?s = []"
    by (simp_all add: cluster_start_def ClusterManager_new_def connect_def session_status_of_def map_index_def map_find_def)
  have "manager_inv ?s" using start_inv [of "[(1, [10]), (2, [20 :: nat])]"] by simp
  then show "manager_inv connected_manager" unfolding connected_manager_def using s by (intro connect_completed_inv) simp_all
  show "posted connected_manager = []" "map_find (outgoing_sessions connected_manager) 2 = Some 0" "conn_out (connections connected_manager ! 0) = []"
    using s by (simp_all add: connected_manager_def connect_completed_def map_find_def)
qed

definition sample_vote :: raft_message where
  "sample_vote = set_partition_id 0 (vote_request 1 0 0 0)"

theorem messages_between_servers_witness:
  "\<exists>cm' peer' ev M' sl. post_sent varint_wire [(ToNode 1, sample_vote), (ToAll, sample_vote)] connected_manager = Inr cm' \<and>
     read_all (conn_out (connections ((run_posted ^^ length (posted cm')) cm') ! 0)) (start_read Session_new) = Inr (peer', ev, []) \<and>
     forEach (message_handler varint_wire) (handled_messages ev) sample_server = Inr M' \<and>
     map_find (nodes M') 0 = Some sl \<and> slot_tasks sl = [HandleMessage sample_vote]"
proof -
  have fits: "list_all (\<lambda>(d, m). fits_frame varint_wire m) [(ToNode 1, sample_vote), (ToAll, sample_vote)]"
    using varint.control_frames(1) [of 0 1 0 0 0] by (simp add: sample_vote_def)
  have p: "msg_partition_id sample_vote = 0" by (simp add: sample_vote_def get_defs load_defs vote_request_def message_getter_defs set_partition_id_def)
  have slot: "map_find (nodes sample_server) 0 = Some \<lparr>slot_node = sample_node 0, slot_timers = 0, slot_tasks = [], slot_sent = []\<rparr>"
    by (simp add: sample_server_fields map_find_def)
  from messages_between_servers [OF varint.wire_format_axioms fits connected_manager_ok reading_start, of sample_server] slot p show ?thesis
    by (auto simp del: funpow.simps)
qed

section \<open>From a client to the log\<close>

lemma put_request_fields [simp]:
  "msg_type (put_request p message) = CLIENT_PUT_MESSAGE" "msg_partition_id (put_request p message) = p"
  "cpm_message (get_put_message_request (put_request p message)) = message"
  by (simp_all add: put_request_def load_defs get_defs message_getter_defs set_partition_id_def)

lemma put_request_typed:
  assumes "wire_format w" and "in_int64 p" and "length message + 200 \<le> MAX_BODY_LENGTH" and "length (log_entries n) + 1 < 2 ^ 31"
  shows "message_typed w n (put_request p message)"
  using wire_format.put_request_fits [OF assms(1,2), of message] assms(3,4)
  by (simp add: message_typed_def fits_frame_def message_types)

lemma leader_adds_entry:
  assumes "node_step env (Receive (put_request p message)) s = Inr s'" and "state (node s) = LEADER"
  shows "log_entries (node s') = log_entries (node s) @
    [log_entry (int (length (log_entries (node s)))) (cur_term (node s)) (random_id env) LogEntry_ADD message] \<and> (\<exists>out. sent s' = sent s @ out)"
proof -
  from assms have "add_log_entry env (log_entry (int (length (log_entries (node s)))) (cur_term (node s)) (random_id env) LogEntry_ADD message) s = Inr s'"
    by (simp add: local_message_handler_def handle_client_put_message_def message_types)
  from add_log_entry_frame [OF this] show ?thesis by (auto simp: replicated_def)
qed

text \<open>The thread of a partition runs a task of a node in a typed state.\<close>

lemma run_node_typed:
  assumes "wire_format (env_wire env)" and "env_typed env" and "map_find (nodes M) p = Some sl"
    and "world_typed (env_wire env) (slot_world sl (client_manager_p M))" and "event_typed (env_wire env) ev (slot_world sl (client_manager_p M))"
    and "\<And>s. node_step env ev (slot_world sl (client_manager_p M)) = Inr s \<Longrightarrow> \<exists>out. sent s = slot_sent sl @ out"
  shows "\<exists>s M'. node_step env ev (slot_world sl (client_manager_p M)) = Inr s \<and> run_node env ev p M = Inr M' \<and>
    map_find (nodes M') p = Some (sl\<lparr>slot_node := node s, slot_timers := vote_timers s, slot_sent := sent s\<rparr>) \<and> client_manager_p M' = clients s \<and>
    world_typed (env_wire env) s"
proof -
  from wire_format.node_step_typed [OF assms(1) refl assms(2,4,5)] obtain s where
    s: "node_step env ev (slot_world sl (client_manager_p M)) = Inr s" "world_typed (env_wire env) s" by (auto simp: returns_typed_def)
  from assms(6) [OF s(1)] obtain out where out: "sent s = slot_sent sl @ out" by blast
  with s(2) have "list_all (\<lambda>(d, m). fits_frame (env_wire env) m) out" by (simp add: world_typed_def)
  from post_sent_ok [OF assms(1) this, of "cluster_manager_p M"] obtain cm where
    "post_sent (env_wire env) out (cluster_manager_p M) = Inr cm" by blast
  with s assms(3) out show ?thesis by (simp add: run_node_def)
qed


text \<open>A client of partition 0 that has connected to a server with the leader of that partition.\<close>

definition connected_client :: simple_client where
  "connected_client = (SimpleClient_new 0 [])\<lparr>generic :=
     \<lparr>running_flag = True, links = [\<lparr>link_session = start_read Session_new, link_out = []\<rparr>], client_session = Some 0, client_endpoints = []\<rparr>\<rparr>"

lemma connected_client_starts:
  "simple_start open_net (SimpleClient_new 0 []) = Inr connected_client"
  by (simp add: simple_start_def on_generic_def client_start_def client_connect_def SimpleClient_new_def GenericClient_new_def connected_client_def)

definition leading_server :: "nat cluster_master" where
  "leading_server = add_cluster_node 0 ((sample_node 0)\<lparr>state := LEADER\<rparr>) (ClusterMaster_new (ClusterManager_new [(1, [10]), (2, [20])]) ClientManager_new sample_config)"

lemma leading_server_fields:
  "map_find (nodes leading_server) 0 = Some \<lparr>slot_node = (sample_node 0)\<lparr>state := LEADER\<rparr>, slot_timers = 0, slot_tasks = [], slot_sent = []\<rparr>"
  "client_manager_p leading_server = ClientManager_new"
  by (simp_all add: leading_server_def add_cluster_node_def ClusterMaster_new_def map_find_def)


section \<open>From the queue to a consumer\<close>

lemma frames_for:
  assumes "wire_format w" and "\<forall>m \<in> set ms. fits_frame w m"
  shows "\<exists>bufs. list_all2 (\<lambda>m buf. serialize_as_message w m = Inr buf) ms bufs \<and> list_all2 (encodes w) ms bufs"
  using assms(2)
proof (induction ms)
  case (Cons m ms)
  then obtain bufs where "list_all2 (\<lambda>m buf. serialize_as_message w m = Inr buf) ms bufs" "list_all2 (encodes w) ms bufs" by auto
  moreover obtain buf where "serialize_as_message w m = Inr buf" "encodes w m buf" using fits_frame_encodes [OF assms(1)] Cons.prems by auto
  ultimately show ?case by (intro exI [of _ "buf # bufs"]) simp
qed auto

text \<open>What a client does with the messages it is sent.\<close>

lemma sends_are_received:
  assumes "wire_format w" and "list_all2 (encodes w) (map (\<lambda>(m, content). set_partition_id p (server_send m content)) ms) bufs"
    and "map payload msgs = map payload bufs" and "handler_set c"
  shows "forEach (simple_handle_message net w) msgs c = Inr (c\<lparr>received := received c @ map (\<lambda>(m, content). (content, m)) ms\<rparr>)"
  using assms(2-4)
proof (induction ms arbitrary: bufs msgs c)
  case (Cons x ms)
  obtain m content where x: "x = (m, content)" by (cases x)
  from Cons.prems(1) x obtain buf bufs' where bufs: "bufs = buf # bufs'" "encodes w (set_partition_id p (server_send m content)) buf"
    "list_all2 (encodes w) (map (\<lambda>(m, content). set_partition_id p (server_send m content)) ms) bufs'" by (auto simp: list_all2_Cons1)
  with Cons.prems(2) obtain msg msgs' where msgs: "msgs = msg # msgs'" "payload msg = payload buf" "map payload msgs' = map payload bufs'" by (cases msgs) auto
  then have "deserialize w (payload msg) = Inr (set_partition_id p (server_send m content))"
    using bufs(2) wire_format.deserialize_same [OF assms(1), of msg] by (simp add: encodes_def)
  then have "simple_handle_message net w msg c = Inr (c\<lparr>received := received c @ [(content, m)]\<rparr>)"
    using Cons.prems(3) by (simp add: simple_handle_message_def server_send_def load_defs get_defs message_getter_defs msg_type_def set_partition_id_def message_types)
  with Cons.IH [OF bufs(3) msgs(3), of "c\<lparr>received := received c @ [(content, m)]\<rparr>"] Cons.prems(3) msgs(1) x show ?case by simp
qed simp

text \<open>
  C16: what a leader delivers reaches the handler of the consumer: a leader with connected consumers hands out its waiting messages, and the frames it writes for one of them, read by the session of that client, make
  the client call its registered handler once for each message that was its turn, in order, with the text that was put and the id.
\<close>

theorem delivery_reaches_handler:
  assumes "wire_format (env_wire env)" and "world_typed (env_wire env) s" and "state (node s) = LEADER" and "active (partition_id (node s)) (clients s)"
    and "- 1 \<notin> set (consumers (partition_id (node s)) (clients s))" and "reading peer" and "handler_set c"
  shows "\<exists>s' bufs peer' ev. trigger_message_delivery env s = Inr s' \<and> undelivered_messages (queue (node s')) = [] \<and>
    list_all2 (\<lambda>m buf. serialize_as_message (env_wire env) m = Inr buf) (drop (length (inbox (clients s) client_id)) (inbox (clients s') client_id)) bufs \<and>
    read_all (concat (map write_message bufs)) peer = Inr (peer', ev, []) \<and> reading peer' \<and>
    forEach (simple_handle_message net (env_wire env)) (handled_messages ev) c =
      Inr (c\<lparr>received := received c @ map (\<lambda>(m, x). (opt_get [] (map_find (message_store (queue (node s))) m), m)) (filter (\<lambda>(m, x). x = client_id) (turns s))\<rparr>)"
proof -
  let ?w = "env_wire env" and ?q = "queue (node s)" and ?p = "partition_id (node s)"
  let ?ms = "map (\<lambda>(m, x). (m, opt_get [] (map_find (message_store ?q) m))) (filter (\<lambda>(m, x). x = client_id) (turns s))"
  have q: "queue_typed ?q" "queue_inv ?q" "in_int64 ?p" using assms(2) by (simp_all add: world_typed_def node_typed_def queue_typed_def)
  have fits: "fits_frame ?w (outgoing (node s) m)" if "m \<in> set (undelivered_messages ?q)" for m
    using undelivered_typed [OF q(1) that] wire_format.server_send_fits [OF assms(1) q(3), of m] by (auto simp: outgoing_def)
  then have "\<forall>m \<in> set (undelivered_messages ?q). deliverable ?w (node s) m"
    using wire_format.serialize_typed [OF assms(1)] by (auto simp: deliverable_def outgoing_def)
  then obtain q' cm where d: "trigger_message_delivery env s = Inr (s\<lparr>node := (node s)\<lparr>queue := q'\<rparr>, clients := cm\<rparr>)" "undelivered_messages q' = []"
    "inbox cm client_id = inbox (clients s) client_id @ map (outgoing (node s) \<circ> fst) (filter (\<lambda>(m, x). x = client_id) (turns s))"
    by (rule leader_delivery [OF assms(3) q(2) assms(4,5)]) blast
  have out: "map (outgoing (node s) \<circ> fst) (filter (\<lambda>(m, x). x = client_id) (turns s)) = map (\<lambda>(m, content). set_partition_id ?p (server_send m content)) ?ms"
    by (auto simp: outgoing_def)
  have "\<exists>bufs. list_all2 (\<lambda>m buf. serialize_as_message ?w m = Inr buf) (map (outgoing (node s) \<circ> fst) (filter (\<lambda>(m, x). x = client_id) (turns s))) bufs \<and>
      list_all2 (encodes ?w) (map (outgoing (node s) \<circ> fst) (filter (\<lambda>(m, x). x = client_id) (turns s))) bufs"
  proof (rule frames_for [OF assms(1)], rule ballI)
    fix x assume "x \<in> set (map (outgoing (node s) \<circ> fst) (filter (\<lambda>(m, x). x = client_id) (turns s)))"
    then obtain m where m: "(m, client_id) \<in> set (turns s)" "x = outgoing (node s) m" by auto
    have "m \<in> fst ` set (turns s)" by (rule image_eqI [OF _ m(1)]) simp
    with fits m(2) show "fits_frame ?w x" by simp
  qed
  then obtain bufs where bufs: "list_all2 (\<lambda>m buf. serialize_as_message ?w m = Inr buf) (map (\<lambda>(m, content). set_partition_id ?p (server_send m content)) ?ms) bufs"
    "list_all2 (encodes ?w) (map (\<lambda>(m, content). set_partition_id ?p (server_send m content)) ?ms) bufs"
    unfolding out by blast
  have "list_all message_ok bufs" using bufs(2) by (auto simp: list_all2_conv_all_nth list_all_length encodes_def)
  from read_all_frames [OF assms(6) this, of "[]"] obtain peer' ev where
    r: "read_all (concat (map write_message bufs)) peer = Inr (peer', ev, [])" "reading peer'" "handled ev = map payload bufs" by (auto simp: HEADER_LENGTH_def)
  from sends_are_received [OF assms(1) bufs(2) _ assms(7), of "handled_messages ev" net] r(3)
  have "forEach (simple_handle_message net ?w) (handled_messages ev) c = Inr (c\<lparr>received := received c @ map (\<lambda>(m, content). (content, m)) ?ms\<rparr>)"
    by (simp add: handled_payloads)
  moreover have "map (\<lambda>(m, content). (content, m)) ?ms = map (\<lambda>(m, x). (opt_get [] (map_find (message_store ?q) m), m)) (filter (\<lambda>(m, x). x = client_id) (turns s))"
    by auto
  ultimately show ?thesis using d r bufs(1) unfolding out by (intro exI conjI) (assumption | simp)+
qed

text \<open>The leader with two consumers and a waiting message, and a client that has connected and registered its handler.\<close>

theorem delivery_reaches_handler_witness:
  "\<exists>s' bufs peer' ev c'. trigger_message_delivery sample_env serving_world = Inr s' \<and>
     list_all2 (\<lambda>m buf. serialize_as_message varint_wire m = Inr buf) (inbox (clients s') 7) bufs \<and>
     read_all (concat (map write_message bufs)) (start_read Session_new) = Inr (peer', ev, []) \<and>
     forEach (simple_handle_message open_net varint_wire) (handled_messages ev) (register_handler connected_client) = Inr c' \<and> received c' = [(''hello'', 42)]"
proof -
  let ?s = serving_world and ?c = "register_handler connected_client"
  have "node_typed varint_wire (sample_node 0)" using leader_world_typed by (simp add: world_typed_def leader_world_def node_typed_def)
  moreover have store: "message_store (queue (node ?s)) = [(42, ''hello'')]" by (simp add: serving_world_def insert_message_def empty_queue_def map_find_def)
  ultimately have "world_typed varint_wire ?s"
    using serving_ok(2) two_consumers_active
    by (simp add: world_typed_def node_typed_def queue_typed_def active_def serving_world_def map_find_def in_int64_def MAX_BODY_LENGTH_def)
  moreover have "active (partition_id (node ?s)) (clients ?s)" "- 1 \<notin> set (consumers (partition_id (node ?s)) (clients ?s))"
    using two_consumers_active by (simp_all add: serving_ok)
  moreover have "handler_set ?c" "received ?c = []" by (simp_all add: register_handler_def connected_client_def SimpleClient_new_def)
  moreover have "turns ?s = [(42, 7)]" by (simp add: turns_def serving_ok cmgr.target_at_def)
  moreover have "inbox (clients ?s) 7 = []" by (simp add: serving_ok)
  ultimately show ?thesis
    using delivery_reaches_handler [of sample_env ?s "start_read Session_new" ?c 7 open_net] varint.wire_format_axioms serving_ok(1) reading_start store
    by (fastforce simp: map_find_def)
qed

section \<open>Sizes\<close>



text \<open>
  C33: the limit is real: a message of 975 bytes fits in the frame of the client, and the leader that receives it adds it to its log, but the append request does not fit, and the
  assertion on its length stops the server.
\<close>

theorem long_message_stops_leader:
  "fits_frame varint_wire (put_request 0 (replicate 975 CHR ''x'')) \<and>
   node_step sample_env (Receive (put_request 0 (replicate 975 CHR ''x''))) leader_world = Inl AssertFailed"
proof
  let ?x = "replicate 975 CHR ''x''"
  show "fits_frame varint_wire (put_request 0 ?x)"
    by (simp add: fits_frame_def put_request_def load_defs fits_defs byte_size_defs message_getter_defs message_new_defs message_types
        MessageType_IsValid_def varint_size MAX_BODY_LENGTH_def RaftMessage_new_def)
  let ?e = "log_entry 1 0 42 LogEntry_ADD ?x"
  have big: "FlowMessage_ByteSizeLong varint_wire (set_partition_id 0 (append_request 0 0 0 0 [?e] 0)) > MAX_BODY_LENGTH"
    by (simp add: append_request_def log_entry_def load_defs byte_size_defs message_getter_defs message_new_defs message_types size_all_def
        LogEntry_ADD_def varint_size MAX_BODY_LENGTH_def RaftMessage_new_def)
  have "post_message sample_env d (append_request 0 0 0 0 [?e] 0) s = Inl AssertFailed" if "partition_id (node s) = 0" for d s
    using varint.serialize_as_message_error [OF big] that
    by (simp add: post_message_def serialize_raft_message_def serialize_as_message_def Let_def)
  moreover have "next_index (sample_node 0) = [(1, 1), (2, 1)]" "pending_append_reqs (sample_node 0) = []"
    by (simp_all add: sample_node_def initial_node_def upto.simps Let_def)
  ultimately show "node_step sample_env (Receive (put_request 0 ?x)) leader_world = Inl AssertFailed"
    by (simp add: local_message_handler_def handle_client_put_message_def message_types leader_world_def add_log_entry_def trigger_entry_update_def
        log_at_def map_index_def map_find_def map_keys_def MAX_PENDING_APPEND_def Let_def)
qed

end
