(* ===== verification/Test_Programs.thy ===== *)
theory Test_Programs
  imports System
begin

text \<open>
  The programs that test a deployment (application/integration\_test.cpp, application/benchmark\_test.cpp), as runs of the client library of Simple\_Client, and the unit tests of
  the configuration, the log files and the mock network (configuration\_test.cpp, log\_entry\_storage\_test.cpp, cluster\_node\_test.cpp), replayed on the model. What the thread of
  the \<open>io_context\<close> handles while the main thread waits or sleeps is a parameter of the programs.
\<close>

section \<open>The programs\<close>

datatype test_outcome = Passed | Exited int | Blocked | Terminated | Aborted cpp_error

text \<open>
  The ids the handler has pushed since the vector was cleared; \<open>seen\<close> is the number of messages handled before. \<open>open_phase\<close> is the opening of the queue
  with what is handled before and after the caller waits, and the sleep after it; \<open>None\<close> when the caller was not woken.
\<close>

definition message_ids :: "nat \<Rightarrow> simple_client \<Rightarrow> message_id_type list" where
  "message_ids seen c = map snd (drop seen (received c))"

definition open_phase ::
  "client_net \<Rightarrow> wire \<Rightarrow> client_event list \<times> client_event list \<Rightarrow> simple_client \<Rightarrow> cpp_error + simple_client option" where
  "open_phase net w bg c =
     andThen (client_run net w ([Start, OpenQueue ''test_queue'' 0] @ fst bg @ [OpenQueueWait] @ snd bg) c) (\<lambda>c.
       Inr (if waiting c = 0 then Some c else None))"

definition test_message :: "int \<Rightarrow> client_event" where
  "test_message i = SendMessage (''test'' @ to_string i)"

definition send_tests :: "int \<Rightarrow> client_event list" where
  "send_tests test_count = map test_message [0..test_count - 1]"

text \<open>An open that never returns ends the program's progress; otherwise it continues with the client.\<close>

definition then_opened ::
  "cpp_error + simple_client option \<Rightarrow> (simple_client \<Rightarrow> cpp_error + test_outcome) \<Rightarrow> cpp_error + test_outcome" where
  "then_opened r k = andThen r (\<lambda>c. case c of None \<Rightarrow> Inr Blocked | Some c \<Rightarrow> k c)"

text \<open>
  The body of \<open>main\<close> once the thread runs. Returning from it early destroys a thread that was not joined, so that the process is aborted instead of ending with status 1.
\<close>

definition integration_body ::
  "client_net \<Rightarrow> wire \<Rightarrow> (nat \<Rightarrow> client_event list \<times> client_event list) \<Rightarrow> (nat \<Rightarrow> client_event list) \<Rightarrow> simple_client \<Rightarrow> cpp_error + test_outcome" where
  "integration_body net w opens sleeps c =
     then_opened (open_phase net w (opens 0) c) (\<lambda>c.
       andThen (client_run net w (map CommitMessage (message_ids 0 c) @ send_tests 10 @ sleeps 0) c) (\<lambda>c1.
         let ids = message_ids (length (received c)) c1
         in if length ids \<noteq> 10 then Inr Terminated
            else andThen (client_run net w (CommitMessage (ids ! 0) # sleeps 1 @ [Stop]) c1) (\<lambda>c2.
              then_opened (open_phase net w (opens 1) c2) (\<lambda>c3.
                let ids = message_ids (length (received c2)) c3
                in if length ids \<noteq> 9 then Inr Terminated
                   else andThen (client_run net w (map CommitMessage ids @ sleeps 2 @ [Stop]) c3) (\<lambda>c4.
                     then_opened (open_phase net w (opens 2) c4) (\<lambda>c5.
                       if message_ids (length (received c4)) c5 \<noteq> [] then Inr Terminated
                       else andThen (client_run net w [Stop] c5) (\<lambda>_. Inr Passed)))))))"

text \<open>The benchmark keeps the ids in a vector of \<open>int\<close>: its handler converts the 64 bit ids of the messages. It sends \<open>test_count\<close> = 10000 messages.\<close>

definition benchmark_ids :: "nat \<Rightarrow> simple_client \<Rightarrow> int list" where
  "benchmark_ids seen c = map (\<lambda>i. to_int32 (to_uint64 i)) (message_ids seen c)"

definition benchmark_body ::
  "client_net \<Rightarrow> wire \<Rightarrow> int \<Rightarrow> client_event list \<times> client_event list \<Rightarrow> (nat \<Rightarrow> client_event list) \<Rightarrow> simple_client \<Rightarrow> cpp_error + test_outcome" where
  "benchmark_body net w test_count opening sleeps c =
     then_opened (open_phase net w opening c) (\<lambda>c.
       andThen (client_run net w (map CommitMessage (benchmark_ids 0 c) @ send_tests test_count @ sleeps 0) c) (\<lambda>c1.
         let ids = benchmark_ids (length (received c)) c1
         in if int (length ids) \<noteq> test_count then Inr Terminated
            else andThen (client_run net w (map CommitMessage ids @ sleeps 1 @ [Stop]) c1) (\<lambda>_. Inr Passed)))"

text \<open>\<open>main\<close> of both programs: the arguments, the resolver and the client. An exception before the thread exists is printed, and the program ends with status 0.\<close>

definition test_main ::
  "client_net \<Rightarrow> (simple_client \<Rightarrow> cpp_error + test_outcome) \<Rightarrow> string list \<Rightarrow> test_outcome" where
  "test_main net program argv =
     (if length argv \<noteq> 4 then Exited 1
      else case andThen (resolve net (argv ! 1) (argv ! 2)) (\<lambda>eps. andThen (stoi (argv ! 3)) (\<lambda>p. Inr (SimpleClient_new p eps))) of
          Inl e \<Rightarrow> Exited 0
        | Inr c \<Rightarrow> (case program (register_handler c) of Inl e \<Rightarrow> Aborted e | Inr r \<Rightarrow> r))"

section \<open>What the integration test relies on\<close>

text \<open>
  The scenario of the integration test, for any queue that keeps the contract of a delivery queue: new messages are all delivered to the one consumer, one of them is committed, the
  consumer disconnects and connects again, receives all the others and only those, commits them, and after the next reconnect nothing is pending.
\<close>

context delivery_queue
begin

lemma put_all_status:
  assumes "inv q" and "distinct (map fst ms)" and "\<forall>m\<in>fst ` set ms. status q m = Unknown"
  shows "inv (fold (\<lambda>(m, s). put m s) ms q) \<and>
    (\<forall>m. status (fold (\<lambda>(m, s). put m s) ms q) m = (if m \<in> fst ` set ms then Undelivered else status q m))"
  using assms
proof (induction ms arbitrary: q)
  case (Cons a ms)
  obtain m s where a: "a = (m, s)" by fastforce
  have "m \<notin> fst ` set ms" using Cons.prems a by simp
  then have "\<forall>m'\<in>fst ` set ms. status (put m s q) m' = Unknown"
    using Cons.prems by (auto simp: status_put)
  with Cons.IH [OF inv_put [OF Cons.prems(1), of m s]] Cons.prems a show ?case
    by (auto simp: status_put)
qed simp

lemma commit_all_status:
  assumes "inv q"
  shows "inv (fold commit ms q) \<and>
    (\<forall>m. status (fold commit ms q) m = (if m \<in> set ms \<and> status q m \<noteq> Unknown then Committed else status q m))"
  using assms
proof (induction ms arbitrary: q)
  case (Cons m ms)
  from Cons.IH [OF inv_commit [OF Cons.prems, of m]] Cons.prems show ?case
    by (auto simp: status_commit)
qed simp

definition hand_over :: "client_id_type \<Rightarrow> 'q \<Rightarrow> 'q" where
  "hand_over c q = fold (\<lambda>m. deliver m c) (pending q) q"

lemma hand_over_status:
  assumes "inv q"
  shows "inv (hand_over c q) \<and> (\<forall>m. status (hand_over c q) m = (if status q m = Undelivered then Delivered c else status q m))"
proof -
  let ?cs = "map (\<lambda>_. c) (pending q)"
  have "zip (pending q) ?cs = map (\<lambda>m. (m, c)) (pending q)" by (simp add: zip_map2 zip_same_conv_map)
  then have "hand_over c q = fold (\<lambda>(m, c). deliver m c) (zip (pending q) ?cs) q"
    by (simp add: hand_over_def fold_map comp_def)
  moreover have "map_of (zip (pending q) ?cs) m = (if status q m = Undelivered then Some c else None)" for m
    using pending_status [OF assms] by (auto simp: \<open>zip (pending q) ?cs = _\<close> map_of_map_restrict restrict_map_def)
  ultimately show ?thesis
    using deliver_all_status [OF assms pending_distinct [OF assms], of ?cs] pending_status [OF assms] by auto
qed

lemma restart_scenario:
  assumes "inv q" and "pending q = []" and "\<forall>m. status q m \<noteq> Delivered c" and "c' \<noteq> c"
    and "distinct (map fst ms)" and "\<forall>m\<in>fst ` set ms. status q m = Unknown" and "m \<in> fst ` set ms"
  defines "q1 \<equiv> hand_over c (fold (\<lambda>(m, s). put m s) ms q)"
  defines "q2 \<equiv> disconnect c (commit m q1)"
  defines "q3 \<equiv> disconnect c' (fold commit (pending q2) (hand_over c' q2))"
  shows "{m. status q1 m = Delivered c} = fst ` set ms" and "set (pending q2) = fst ` set ms - {m}"
    and "(\<forall>m. status q m \<noteq> Delivered c') \<longrightarrow> pending q3 = []"
proof -
  have none: "status q m \<noteq> Undelivered" for m using pending_status [OF assms(1)] assms(2) by auto
  let ?p = "fold (\<lambda>(m, s). put m s) ms q"
  have p: "inv ?p" "\<And>m. status ?p m = (if m \<in> fst ` set ms then Undelivered else status q m)"
    using put_all_status [OF assms(1,5,6)] by blast+
  have q1: "inv q1" "\<And>m. status q1 m = (if m \<in> fst ` set ms then Delivered c else status q m)"
    using hand_over_status [OF p(1), of c] none unfolding q1_def by (auto simp: p(2))
  then show "{m. status q1 m = Delivered c} = fst ` set ms" using assms(3) by auto
  have q2: "inv q2" "\<And>m'. status q2 m' = (if m' = m then Committed else if m' \<in> fst ` set ms then Undelivered else status q m')"
    using inv_disconnect [OF inv_commit [OF q1(1), of m], of c] assms(3,7)
    by (auto simp: q2_def status_disconnect [OF inv_commit [OF q1(1), of m]] status_commit [OF q1(1)] q1(2))
  then show "set (pending q2) = fst ` set ms - {m}" using pending_status [OF q2(1)] none by auto
  let ?h = "hand_over c' q2"
  have h: "inv ?h" "\<And>m. status ?h m = (if status q2 m = Undelivered then Delivered c' else status q2 m)"
    using hand_over_status [OF q2(1), of c'] by blast+
  have f: "inv (fold commit (pending q2) ?h)"
      "\<And>m. status (fold commit (pending q2) ?h) m = (if status q2 m = Undelivered then Committed else status q2 m)"
    using commit_all_status [OF h(1), of "pending q2"] pending_status [OF q2(1)] h(2) by auto
  show "(\<forall>m. status q m \<noteq> Delivered c') \<longrightarrow> pending q3 = []"
  proof
    assume "\<forall>m. status q m \<noteq> Delivered c'"
    then have "status q3 m' \<noteq> Undelivered" for m'
      using none by (simp add: q3_def status_disconnect [OF f(1)] f(2) q2(2))
    then show "pending q3 = []" using pending_status [OF inv_disconnect [OF f(1), of c']] by (auto simp: q3_def)
  qed
qed

end

text \<open>The queue of a partition keeps the contract, so that the expectations of the test hold of it.\<close>

lemma integration_test_expectations:
  assumes "queue_inv q" and "undelivered_messages q = []" and "\<forall>m c. status_of q m \<noteq> Delivered c"
    and "distinct (map fst ms)" and "\<forall>m\<in>fst ` set ms. status_of q m = Unknown" and "m \<in> fst ` set ms" and "c' \<noteq> c"
  defines "q1 \<equiv> mq.hand_over c (fold (\<lambda>(m, s) q. snd (insert_message m s q)) ms q)"
  defines "q2 \<equiv> snd (handle_client_disconnected c (snd (commit_message m q1)))"
  defines "q3 \<equiv> snd (handle_client_disconnected c'
    (fold (\<lambda>m q. snd (commit_message m q)) (get_all_undelivered_messages [] q2) (mq.hand_over c' q2)))"
  shows "{m. status_of q1 m = Delivered c} = fst ` set ms" and "set (get_all_undelivered_messages [] q2) = fst ` set ms - {m}"
    and "get_all_undelivered_messages [] q3 = []"
  using mq.restart_scenario [of q c c' ms m] assms by (simp_all add: get_all_undelivered_messages_def)

text \<open>
  The benchmark commits the ids it has converted: for a message whose id has more than 32 bits the commit names another message, and the message stays where it was.
\<close>

lemma benchmark_commits_other_message:
  assumes "queue_inv q" and "\<not> in_int32 i"
  shows "to_int32 (to_uint64 i) \<noteq> i" and "status_of (snd (commit_message (to_int32 (to_uint64 i)) q)) i = status_of q i"
proof -
  have "in_int32 (to_int32 n)" for n by (auto simp: to_int32_def in_int32_def Let_def)
  then show "to_int32 (to_uint64 i) \<noteq> i" using assms(2) by metis
  then show "status_of (snd (commit_message (to_int32 (to_uint64 i)) q)) i = status_of q i"
    using mq.status_commit [OF assms(1)] by simp
qed

section \<open>The unit tests on the model\<close>

text \<open>configuration\_test.cpp: the text of the test, with its blank lines, comment and trailing spaces. The partitions are not set.\<close>

definition test_config :: string where
  "test_config =
     ''current_node = 3 '' @ [CHR 0x0A] @ ''id = 0 '' @ [CHR 0x0A] @ ''host = localhost   '' @ [CHR 0x0A] @
     ''cluster_port = 12    '' @ [CHR 0x0A] @ [CHR 0x0A] @ ''# comment'' @ [CHR 0x0A] @ ''client_port = 9000 '' @ [CHR 0x0A] @
     ''id = 1 '' @ [CHR 0x0A] @ ''host = localhost   '' @ [CHR 0x0A] @ ''cluster_port = 13    '' @ [CHR 0x0A] @
     ''client_port = 9001 '' @ [CHR 0x0A] @ [CHR 0x0A] @ [CHR 0x0A]"

lemma test_load_config:
  "load_config 77 test_config =
     Inr \<lparr>current_node = 3, server_nodes = [(0, ''localhost'', ''12'', ''9000''), (1, ''localhost'', ''13'', ''9001'')], partitions_ids = []\<rparr>"
  by code_simp

text \<open>log\_entry\_storage\_test.cpp: entries saved and loaded, then appended to the file and loaded again, for any number of entries and any wire format.\<close>

definition test_entry :: "int \<Rightarrow> LogEntry" where
  "test_entry i = log_entry i 2 (1000 + i) (if i mod 2 = 0 then LogEntry_ADD else LogEntry_COMMIT) (to_string i @ ''_message'')"

definition test_entries :: "int \<Rightarrow> LogEntry list" where
  "test_entries n = map test_entry [0..n - 1]"

definition storage_test :: "wire \<Rightarrow> string \<Rightarrow> LogEntry list \<Rightarrow> file_system \<Rightarrow> cpp_error + (int \<times> LogEntry list \<times> int \<times> LogEntry list)" where
  "storage_test w name es fs =
     (let (r1, fs1) = save_log_entry_to_file w name es fs
      in andThen (load_log_entry_from_file w name [] fs1) (\<lambda>(_, loaded).
         let (r2, fs2) = append_log_entry_to_file w name es fs1
         in andThen (load_log_entry_from_file w name [] fs2) (\<lambda>(_, loaded2). Inr (r1, loaded, r2, loaded2))))"

context wire_format
begin

lemma test_entries_ok: "list_all (entry_ok w) (test_entries 1000)"
proof -
  have "entry_ok w (test_entry i)" if "0 \<le> i" "i < 1000" for i
  proof -
    have "length (to_string i) \<le> 3"
      using digits_of_length [of "nat i" 2] that by (simp add: to_string_def)
    then have "entry_typed w (test_entry i)"
      unfolding test_entry_def using that
      by (intro new_entry_typed) (auto simp: in_int32_def in_int64_def MAX_BODY_LENGTH_def)
    then show ?thesis by (simp add: entry_typed_def entry_ok_def MAX_BODY_LENGTH_def)
  qed
  then show ?thesis by (simp add: list_all_iff test_entries_def)
qed

lemma storage_test_passes:
  assumes "list_all (entry_ok w) es" and "writable fs name"
  shows "storage_test w name es fs = Inr (0, es, 0, es @ es)"
proof -
  define fs1 where "fs1 = fs\<lparr>files := map_set name (log_text w es) (files fs)\<rparr>"
  define fs2 where "fs2 = fs1\<lparr>files := map_set name (log_text w es @ log_text w es) (files fs1)\<rparr>"
  have "save_log_entry_to_file w name es fs = (0, fs1)"
    using assms(2) by (simp add: save_log_entry_to_file_def result_of_def overwrite_file_def fs1_def log_text_def)
  moreover have "append_log_entry_to_file w name es fs1 = (0, fs2)"
    using assms(2) by (simp add: append_log_entry_to_file_def result_of_def append_file_def fs1_def fs2_def log_text_def)
  moreover have "load_log_entry_from_file w name [] fs1 = Inr (0, es)"
    using load_file [OF assms(1), of fs1 name "[]"] by (simp add: fs1_def)
  moreover have "load_log_entry_from_file w name [] fs2 = Inr (0, es @ es)"
    using load_file [of "es @ es" fs2 name "[]"] assms(1) by (simp add: fs2_def log_text_append)
  ultimately show ?thesis by (simp add: storage_test_def)
qed

end

lemma test_write_and_read_1000:
  "storage_test varint_wire ''test_file_log_entry.data'' (test_entries 1000) \<lparr>files = [], writable = \<lambda>_. True\<rparr> =
     Inr (0, test_entries 1000, 0, test_entries 1000 @ test_entries 1000)"
  using varint.test_entries_ok by (rule varint.storage_test_passes) simp

text \<open>
  cluster\_node\_test.cpp: the mock network hands a message to the handlers of the registered managers at once. What the handler of each manager was called with is kept by its id.
\<close>

type_synonym mock_network = "(int, message list) smap"

definition register_cluster_manager :: "int \<Rightarrow> mock_network \<Rightarrow> cpp_error + mock_network" where
  "register_cluster_manager i clusters = (if map_find clusters i \<noteq> None then Inl AssertFailed else Inr (map_set i [] clusters))"

definition receive_mock_message :: "message \<Rightarrow> int \<Rightarrow> mock_network \<Rightarrow> mock_network" where
  "receive_mock_message msg i clusters = map_set i (opt_get [] (map_find clusters i) @ [msg]) clusters"

definition broad_cast_message_from :: "int \<Rightarrow> message \<Rightarrow> mock_network \<Rightarrow> mock_network" where
  "broad_cast_message_from i msg clusters = fold (receive_mock_message msg) (filter (\<lambda>k. k \<noteq> i) (map_keys clusters)) clusters"

definition mock_send_message_to :: "int \<Rightarrow> message \<Rightarrow> mock_network \<Rightarrow> mock_network" where
  "mock_send_message_to i msg clusters = (if map_find clusters i = None then clusters else receive_mock_message msg i clusters)"

text \<open>A broadcast reaches every registered manager but the sender, once.\<close>

lemma receive_all:
  "distinct ks \<Longrightarrow> map_find (fold (receive_mock_message msg) ks clusters) k =
     (if k \<in> set ks then Some (opt_get [] (map_find clusters k) @ [msg]) else map_find clusters k)"
  by (induction ks arbitrary: clusters) (auto simp: receive_mock_message_def)

lemma broadcast_reaches_others:
  assumes "map_ok clusters"
  shows "map_find (broad_cast_message_from i msg clusters) k =
    map_option (\<lambda>ms. if k = i then ms else ms @ [msg]) (map_find clusters k)"
proof -
  have "distinct (map_keys clusters)" using assms by (simp add: map_ok_def map_keys_def strict_sorted_iff)
  then show ?thesis
    by (cases "map_find clusters k") (auto simp: broad_cast_message_from_def receive_all map_find_keys)
qed

text \<open>The test: two broadcasts give each manager one message, two sends give each a second one.\<close>

lemma test_mock_network:
  "andThen (register_cluster_manager 0 []) (\<lambda>net. andThen (register_cluster_manager 1 net) (\<lambda>net.
     Inr (map_keys net, mock_send_message_to 1 msg (mock_send_message_to 0 msg (broad_cast_message_from 1 msg (broad_cast_message_from 0 msg net)))))) =
   Inr ([0, 1], [(0, [msg, msg]), (1, [msg, msg])])"
  by (simp add: register_cluster_manager_def mock_send_message_to_def broad_cast_message_from_def receive_mock_message_def map_find_def map_keys_def
     )

end
