(* ===== verification/Spec2Isabelle.thy ===== *)
theory Spec2Isabelle
  imports Cluster_Availability Cluster_Service Node_Statistics Test_Programs
begin

text \<open>
  A verification development of flowmq, a distributed message queue in C++ on the Raft algorithm (sources under src/src). Names in the theories are those of the sources, with a prefix or
  suffix where two classes use the same one.

  \<^bold>\<open>The program.\<close> A server process (application/cluster_node.cpp) reads a configuration and runs one \<open>ClusterNode\<close> per partition, each on a thread of its own, over one
  \<open>ClusterManager\<close> (connections to the other servers) and one \<open>ClientManager\<close> (connections of clients), joined by a \<open>ClusterMaster\<close>. A client puts messages into the queue of a partition
  and opens the queue to be given messages, which it commits when it has consumed them. The leader of a partition appends puts and commits to its log, replicates the log to its followers,
  and applies an entry to its \<open>MessageQueue\<close> when a majority holds it; the queue hands waiting messages to the consumers of the partition in rotation. Log entries go to disk through
  \<open>ClusterNodeStorage\<close>. Everything on the network is a protobuf message (flow_message.pb.*) in a frame of at most 1000 bytes (message.hpp), read and written by a \<open>Session\<close>.

  \<^bold>\<open>How the model is built.\<close> Objects are records, operations are functions that return the new state, and every exception, failed assertion and invalid access is a value of
  \<open>cpp_error\<close>, so an operation that can fail has a result \<open>cpp_error + 'a\<close>. Assertions are enabled, as in the build files. \<open>std::map\<close> and \<open>std::set\<close> are sorted lists, so
  iteration has the order of the sources. C++ integers are mathematical integers; \<open>in_int32\<close> and \<open>in_int64\<close> state their ranges where a property depends on them. The protobuf
  library, the file system, the resolver, the clock and the random generator are parameters. The library is the record \<open>wire\<close> with the laws of the locale \<open>wire_format\<close> (fields are
  read as they were written, sizes are the lengths of what is written, reading consumes input); \<open>varint_wire\<close> is an encoding that meets them, so the laws are consistent, and the
  locale is interpreted on it. Asynchronous operations are completions that arrive in any order, and threads are the interleaving of the steps of one run.

  \<^bold>\<open>Theories.\<close>

  \<^item> Prelude, Std_Containers, Decimal: errors and results, maps and sets of the standard library, numbers as text.

  \<^item> Message_Queue (message_queue.*): every operation; the locale \<open>delivery_queue\<close> is the contract the node relies on. A message is in exactly one of three states, and each operation
  refines a status machine.

  \<^item> Wire_Format, Varint, Flow_Message, Flow_Codec, Flow_Codec_Laws (flow_message.pb.*): the message classes, their serializers, sizes and parsers; round trip and termination of
  parsing for every class.

  \<^item> Message, Raft_Message, Session (message.hpp, raft_message.hpp, session.*): frames, the typed wrapper, and the read loop. A stream of frames is split as it was written. The loop of
  the parser and the loop of the session end because each round consumes input, which their termination proofs state, so no fuel is used anywhere.

  \<^item> Client_Manager, Cluster_Manager, Cluster_Master (client_manager.*, cluster_manager.*, cluster_master.*): consumers and round robin delivery (locale \<open>round_robin\<close>);
  connections to the peers with retries, where no endpoint is ever abandoned; a server as the interleaving of its threads, which refines the runs of its nodes.

  \<^item> Log_Entry_Storage, Cluster_Node_Storage, Configuration (log_entry_storage.cpp, cluster_node_storage.*, configuration.*): files and their round trips, the storage thread, the
  configuration.

  \<^item> Cluster_Node (cluster_node.*): the node, with one definition for each case of the message handler, each timer and each helper. Cluster_Node_Frame, Cluster_Node_Log,
  Cluster_Node_Votes, Cluster_Node_Messages: what each step leaves unchanged, the append rule of Raft, votes, and sizes of messages. Cluster_Node_Election: one vote per term, leadership by
  majority. Cluster_Elections: the nodes as a cluster over a network that reorders and loses messages, where at most one node is elected in a term as long as none restarts.
  Node_Statistics: what the statistics timer logs.
  Cluster_Node_Queue, Cluster_Node_Replica, Cluster_Node_Commit: the queue is the replay of the committed entries, replicas that committed the same entries agree, commits need a leader or a majority, and a restart restores the queue. Cluster_Node_Delivery: a leader delivers everything that waits. Cluster_Node_Types: type safety, which is that
  every handler returns and keeps integers in range and messages within their frames.

  \<^item> Cluster_Logs: Log Matching for the whole cluster. In an \<open>orderly_run\<close> a leader is not told of a later term by a vote request or a refusal, and answers to append requests
  reach leaders only, which excludes a leader that adopts a later term and a deposed leader that goes on sending; then logs with an entry of the same term at the same position are equal up to it. A run can also be played from a list of moves, which the code evaluates, and the
  counterexamples to the safety of commits are such runs.

  \<^item> Cluster_Progress: liveness of replication. \<open>in_touch\<close> describes a leader and a follower whose log matches and is not longer; each exchange of a request and its answer lowers the measure \<open>effort\<close>
  (entries to step back over, entries to send), so a run exists at the end of which the follower has the log of the leader and, with three nodes, the log is committed. Such a run is a \<open>calm_run\<close>: the leader sends heartbeats and receives answers to
  its requests, and nothing else happens to it.

  \<^item> Cluster_Availability: liveness of elections. From any state of the cluster, a majority of nodes that are not leaders can elect any one of them, by the votes it is sent one after the other; a cluster of a
  single node never elects itself.

  \<^item> Cluster_Service: the way of a message through a cluster. What a leader does not yet commit stays undelivered, \<open>serving\<close> is kept by every step of a calm run, and so a message that is put is
  replicated, committed and delivered to a consumer.

  \<^item> Generic_Client, Simple_Client, Demo_Client (generic_client.*, simple_client.hpp, application/client.cpp), Server (application/cluster_node.cpp), Logging (logging.hpp): the
  programs around the node.

  \<^item> System: the components together, which are a message from one server to the nodes of another, and a message of a client on its way into the log of the leader,
  and a delivered message on its way to the handler of the consumer.

  \<^item> Test_Programs: the integration test and the benchmark as runs of the client library, the contract of the queue that the integration test relies on, and the unit tests on the model.

  \<^bold>\<open>Where the code departs from what it means to do.\<close> Some properties state what goes wrong, with a concrete run: two leaders in one term, a stale entry that is committed, an entry that is not
  stored, a leader that reads outside its log, a message that stops the leader, a length that overruns the buffer of a session, a client that stops the server, a client library that never
  reports a failure, two nodes that commit different entries at one position, a deposed leader that overwrites the log of the leader, a cluster of one node that never has a leader, a shutdown that loses what the storage has buffered. Elections are unique although leadership is not: a leader that hears of a later term stays leader in it without an election,
  and a node that restarts forgets its vote. The positive theorems name the assumptions that exclude these cases: \<open>raft_run\<close> excludes a leader that contradicts committed entries, \<open>orderly\<close> excludes leaders that adopt a later term and deposed leaders that go on sending, \<open>message_typed\<close> excludes
  answers beyond the log and messages without room for their frames, and \<open>manager_ok\<close> excludes a client that opens a queue twice.

  \<^bold>\<open>Not modelled.\<close> Reflection, arenas, descriptors and text output of the generated protobuf code. Interleavings inside one
  handler: handlers of one \<open>io_context\<close> are serial, and the operations of the client manager, which the threads share, hold its mutex. Two
  partitions with the same id, which would share files. The times and the printed lines of the test programs, and
  test.t.cpp, which is written against an earlier interface.
\<close>

end
